theory Spec2Isabelle
  imports
    Main
    "HOL-Library.AList"
    "HOL-Library.Sublist"
    "HOL-Library.Char_ord"
    "HOL-Library.List_Lexorder"
begin

section \<open>The host filesystem\<close>

text \<open>
  \<^verbatim>\<open>setup-sdk.py\<close> is orchestration over \<^verbatim>\<open>pathlib\<close>, \<^verbatim>\<open>shutil\<close> and
  \<^verbatim>\<open>tempfile\<close>. The filesystem is a tree: a regular file with its content, or a
  directory with its entries in the order in which \<^verbatim>\<open>iterdir\<close> lists them. A path is
  the list of its components below the root (all paths are taken as resolved,
  absolute paths). Symbolic links and permissions are not part of the model.
\<close>

type_synonym path = "string list"

datatype node = File string | Dir "(string \<times> node) list"

datatype error =
    FileNotFoundError
  | NotADirectoryError
  | FileExistsError
  | ShutilError
  | OSError
  | KeyError
  | EOFError
  | ZipError string

fun lookup :: "node \<Rightarrow> path \<Rightarrow> node option" where
  "lookup n [] = Some n"
| "lookup (File _) (c # p) = None"
| "lookup (Dir es) (c # p) = (case map_of es c of None \<Rightarrow> None | Some m \<Rightarrow> lookup m p)"

text \<open>\<^verbatim>\<open>Path.exists()\<close> and \<^verbatim>\<open>Path.is_dir()\<close>.\<close>

definition exists :: "node \<Rightarrow> path \<Rightarrow> bool" where
  "exists fs p = (lookup fs p \<noteq> None)"

definition is_dir :: "node \<Rightarrow> path \<Rightarrow> bool" where
  "is_dir fs p = (case lookup fs p of Some (Dir _) \<Rightarrow> True | _ \<Rightarrow> False)"

text \<open>\<^verbatim>\<open>Path.iterdir()\<close>: the children of a directory as paths; it raises on anything
  that is not a directory.\<close>

definition iterdir :: "node \<Rightarrow> path \<Rightarrow> error + path list" where
  "iterdir fs p =
     (case lookup fs p of
        None \<Rightarrow> Inl FileNotFoundError
      | Some (File _) \<Rightarrow> Inl NotADirectoryError
      | Some (Dir es) \<Rightarrow> Inr (map (\<lambda>e. p @ [fst e]) es))"

text \<open>Writing a node at a path whose parent is a directory, and unlinking the entry
  at a path. Both give \<open>None\<close> where the path cannot be reached.\<close>

fun store :: "node \<Rightarrow> path \<Rightarrow> node \<Rightarrow> node option" where
  "store n [] new = Some new"
| "store (File _) (c # p) new = None"
| "store (Dir es) [c] new = Some (Dir (AList.update c new es))"
| "store (Dir es) (c # d # p) new =
     (case map_of es c of
        None \<Rightarrow> None
      | Some m \<Rightarrow>
          (case store m (d # p) new of
             None \<Rightarrow> None
           | Some m' \<Rightarrow> Some (Dir (AList.update c m' es))))"

fun remove :: "node \<Rightarrow> path \<Rightarrow> node option" where
  "remove n [] = None"
| "remove (File _) (c # p) = None"
| "remove (Dir es) [c] =
     (if map_of es c = None then None else Some (Dir (AList.delete c es)))"
| "remove (Dir es) (c # d # p) =
     (case map_of es c of
        None \<Rightarrow> None
      | Some m \<Rightarrow>
          (case remove m (d # p) of
             None \<Rightarrow> None
           | Some m' \<Rightarrow> Some (Dir (AList.update c m' es))))"

text \<open>\<^verbatim>\<open>Path.mkdir(parents=True, exist_ok=True)\<close>: missing directories are created
  along the path; a regular file on the way raises.\<close>

fun mkdir :: "node \<Rightarrow> path \<Rightarrow> error + node" where
  "mkdir (Dir es) [] = Inr (Dir es)"
| "mkdir (File c) [] = Inl FileExistsError"
| "mkdir (File _) (c # p) = Inl NotADirectoryError"
| "mkdir (Dir es) (c # p) =
     (case mkdir (case map_of es c of None \<Rightarrow> Dir [] | Some m \<Rightarrow> m) p of
        Inl e \<Rightarrow> Inl e
      | Inr m' \<Rightarrow> Inr (Dir (AList.update c m' es)))"

text \<open>\<^verbatim>\<open>shutil.rmtree(path)\<close>.\<close>

definition rmtree :: "node \<Rightarrow> path \<Rightarrow> error + node" where
  "rmtree fs p =
     (case lookup fs p of
        None \<Rightarrow> Inl FileNotFoundError
      | Some (File _) \<Rightarrow> Inl NotADirectoryError
      | Some (Dir _) \<Rightarrow> (case remove fs p of None \<Rightarrow> Inl OSError | Some fs' \<Rightarrow> Inr fs'))"

text \<open>\<^verbatim>\<open>Path.name\<close>: the last component (empty for the root).\<close>

definition name :: "path \<Rightarrow> string" where
  "name p = (if p = [] then [] else last p)"

text \<open>\<^verbatim>\<open>Path.parent\<close>: the root is its own parent.\<close>

definition parent :: "path \<Rightarrow> path" where
  "parent p = butlast p"

text \<open>
  \<^verbatim>\<open>shutil.move(src, dst)\<close>, as the standard library documents it on POSIX: when
  \<^verbatim>\<open>dst\<close> is an existing directory, \<^verbatim>\<open>src\<close> is moved inside it under its own
  base name, and an entry of that name already there is an error; otherwise
  \<^verbatim>\<open>src\<close> is renamed to \<^verbatim>\<open>dst\<close>. A rename that the operating system refuses
  falls back to copying: a directory is copied with its missing parents created,
  a directory is never moved into itself, and a directory does not replace a
  regular file.
\<close>

definition move :: "node \<Rightarrow> path \<Rightarrow> path \<Rightarrow> error + node" where
  "move fs src dst =
     (case lookup fs src of
        None \<Rightarrow> Inl FileNotFoundError
      | Some n \<Rightarrow>
          if is_dir fs dst \<and> src = dst then Inr fs
          else
            let real_dst = (if is_dir fs dst then dst @ [name src] else dst) in
            if is_dir fs dst \<and> exists fs real_dst then Inl ShutilError
            else if src = real_dst then Inr fs
            else if prefix src real_dst then
              (case n of Dir _ \<Rightarrow> Inl ShutilError | File _ \<Rightarrow> Inl NotADirectoryError)
            else
              (case (n, lookup fs real_dst) of
                 (Dir _, Some _) \<Rightarrow> Inl FileExistsError
               | (Dir _, None) \<Rightarrow>
                   (case remove fs src of
                      None \<Rightarrow> Inl OSError
                    | Some fs1 \<Rightarrow>
                        (case mkdir fs1 (parent real_dst) of
                           Inl e \<Rightarrow> Inl e
                         | Inr fs2 \<Rightarrow>
                             (case store fs2 real_dst n of
                                None \<Rightarrow> Inl OSError
                              | Some fs3 \<Rightarrow> Inr fs3)))
               | (File _, _) \<Rightarrow>
                   (if \<not> is_dir fs (parent real_dst) then Inl FileNotFoundError
                    else
                      (case remove fs src of
                         None \<Rightarrow> Inl OSError
                       | Some fs1 \<Rightarrow>
                           (case store fs1 real_dst n of
                              None \<Rightarrow> Inl OSError
                            | Some fs3 \<Rightarrow> Inr fs3)))))"

section \<open>SDK root finder\<close>

text \<open>The marker file \<^verbatim>\<open>include/Ultralight/Ultralight.h\<close>, as the components that
  \<^verbatim>\<open>dir / test_file\<close> appends.\<close>

definition root_test_file :: path where
  "root_test_file = [''include'', ''Ultralight'', ''Ultralight.h'']"

text \<open>The inner loop of \<^verbatim>\<open>find_sdk_root\<close>, over the entries of one subdirectory.\<close>

fun find_in_subsubdirs :: "node \<Rightarrow> path list \<Rightarrow> path option" where
  "find_in_subsubdirs fs [] = None"
| "find_in_subsubdirs fs (subsubdir # rest) =
     (if is_dir fs subsubdir \<and> exists fs (subsubdir @ root_test_file) then Some subsubdir
      else find_in_subsubdirs fs rest)"

text \<open>The outer loop of \<^verbatim>\<open>find_sdk_root\<close>, over the entries of the extracted
  directory: each subdirectory is checked, and then its own subdirectories, before
  the next entry is looked at.\<close>

fun find_in_subdirs :: "node \<Rightarrow> path list \<Rightarrow> error + path option" where
  "find_in_subdirs fs [] = Inr None"
| "find_in_subdirs fs (subdir # rest) =
     (if is_dir fs subdir then
        (if exists fs (subdir @ root_test_file) then Inr (Some subdir)
         else
           (case iterdir fs subdir of
              Inl e \<Rightarrow> Inl e
            | Inr subsubdirs \<Rightarrow>
                (case find_in_subsubdirs fs subsubdirs of
                   Some r \<Rightarrow> Inr (Some r)
                 | None \<Rightarrow> find_in_subdirs fs rest)))
      else find_in_subdirs fs rest)"

definition find_sdk_root :: "node \<Rightarrow> path \<Rightarrow> error + path option" where
  "find_sdk_root fs extracted_dir =
     (if exists fs (extracted_dir @ root_test_file) then Inr (Some extracted_dir)
      else
        (case iterdir fs extracted_dir of
           Inl e \<Rightarrow> Inl e
         | Inr subdirs \<Rightarrow> find_in_subdirs fs subdirs))"


section \<open>The platform table\<close>

record platform_config =
  archive_patterns :: "string list"
  test_file :: path
  libs :: "string list"

text \<open>\<^verbatim>\<open>PLATFORMS\<close>, in the insertion order in which \<^verbatim>\<open>PLATFORMS.items()\<close> lists it.\<close>

definition PLATFORMS :: "(string \<times> platform_config) list" where
  "PLATFORMS =
     [(''win-x64'',
         \<lparr>archive_patterns = [''*win*x64*'', ''*win*64*'', ''*windows*''],
          test_file = [''include'', ''Ultralight'', ''Ultralight.h''],
          libs = [''bin/*.dll'', ''lib/*.lib'']\<rparr>),
      (''linux-x64'',
         \<lparr>archive_patterns = [''*linux*x64*'', ''*linux*64*''],
          test_file = [''include'', ''Ultralight'', ''Ultralight.h''],
          libs = [''bin/*.so*'', ''lib/*.so*'']\<rparr>),
      (''mac-x64'',
         \<lparr>archive_patterns = [''*mac*x64*'', ''*macos*x64*'', ''*osx*x64*''],
          test_file = [''include'', ''Ultralight'', ''Ultralight.h''],
          libs = [''bin/*.dylib'', ''lib/*.dylib'']\<rparr>),
      (''mac-arm64'',
         \<lparr>archive_patterns =
            [''*mac*arm64*'', ''*macos*arm64*'', ''*mac*aarch64*'', ''*osx*arm64*''],
          test_file = [''include'', ''Ultralight'', ''Ultralight.h''],
          libs = [''bin/*.dylib'', ''lib/*.dylib'']\<rparr>)]"

section \<open>Archive locator\<close>

text \<open>Shell-style matching of one file name, case-sensitive as on POSIX. The
  patterns of \<^verbatim>\<open>PLATFORMS\<close> use no wildcard other than \<^verbatim>\<open>*\<close>.\<close>

fun glob_match :: "string \<Rightarrow> string \<Rightarrow> bool" where
  "glob_match [] [] = True"
| "glob_match [] (c # cs) = False"
| "glob_match (p # ps) [] = (p = CHR ''*'' \<and> glob_match ps [])"
| "glob_match (p # ps) (c # cs) =
     (if p = CHR ''*'' then glob_match ps (c # cs) \<or> glob_match (p # ps) cs
      else p = c \<and> glob_match ps cs)"

text \<open>\<^verbatim>\<open>list(search_dir.glob(pattern))\<close> for a pattern without a separator: the
  entries of the directory whose name matches, files and directories alike.\<close>

definition glob :: "node \<Rightarrow> path \<Rightarrow> string \<Rightarrow> path list" where
  "glob fs search_dir pattern =
     (case lookup fs search_dir of
        Some (Dir es) \<Rightarrow> map (\<lambda>e. search_dir @ [fst e]) (filter (\<lambda>e. glob_match pattern (fst e)) es)
      | _ \<Rightarrow> [])"

text \<open>The loop over \<^verbatim>\<open>[".7z", ".zip"]\<close> for one pattern; the dictionary
  \<^verbatim>\<open>archives\<close> is an association list in insertion order.\<close>

fun find_archives_exts ::
  "node \<Rightarrow> path \<Rightarrow> string \<Rightarrow> string \<Rightarrow> string list \<Rightarrow> (string \<times> path) list \<Rightarrow> (string \<times> path) list"
where
  "find_archives_exts fs search_dir platform pattern [] archives = archives"
| "find_archives_exts fs search_dir platform pattern (ext # exts) archives =
     (let matches = glob fs search_dir (pattern @ ext) in
      if matches \<noteq> [] then AList.update platform (last (sort matches)) archives
      else find_archives_exts fs search_dir platform pattern exts archives)"

text \<open>The loop over the patterns of one platform, left as soon as the platform
  is in \<^verbatim>\<open>archives\<close>.\<close>

fun find_archives_patterns ::
  "node \<Rightarrow> path \<Rightarrow> string \<Rightarrow> string list \<Rightarrow> (string \<times> path) list \<Rightarrow> (string \<times> path) list"
where
  "find_archives_patterns fs search_dir platform [] archives = archives"
| "find_archives_patterns fs search_dir platform (pattern # patterns) archives =
     (let archives' = find_archives_exts fs search_dir platform pattern [''.7z'', ''.zip''] archives in
      if platform \<in> fst ` set archives' then archives'
      else find_archives_patterns fs search_dir platform patterns archives')"

fun find_archives_platforms ::
  "node \<Rightarrow> path \<Rightarrow> (string \<times> platform_config) list \<Rightarrow> (string \<times> path) list \<Rightarrow> (string \<times> path) list"
where
  "find_archives_platforms fs search_dir [] archives = archives"
| "find_archives_platforms fs search_dir ((platform, config) # rest) archives =
     find_archives_platforms fs search_dir rest
       (find_archives_patterns fs search_dir platform (archive_patterns config) archives)"

definition find_archives :: "node \<Rightarrow> path \<Rightarrow> (string \<times> path) list" where
  "find_archives fs search_dir =
     (if \<not> exists fs search_dir then []
      else find_archives_platforms fs search_dir PLATFORMS [])"

text \<open>
  The locator in the words of its contract: the candidates of a platform are its
  patterns in priority order, each with \<^verbatim>\<open>.7z\<close> before \<^verbatim>\<open>.zip\<close>; the first
  candidate with a match decides, and of its matches the last one in sorted
  order is taken.
\<close>

definition candidate_patterns :: "platform_config \<Rightarrow> string list" where
  "candidate_patterns config =
     concat (map (\<lambda>pattern. map (\<lambda>ext. pattern @ ext) [''.7z'', ''.zip''])
       (archive_patterns config))"

definition locate :: "node \<Rightarrow> path \<Rightarrow> platform_config \<Rightarrow> path option" where
  "locate fs search_dir config =
     (case find (\<lambda>pat. glob fs search_dir pat \<noteq> []) (candidate_patterns config) of
        None \<Rightarrow> None
      | Some pat \<Rightarrow> Some (last (sort (glob fs search_dir pat))))"

section \<open>The process: environment, state, outcomes\<close>

text \<open>
  What the script reads from its surroundings and cannot decide itself: where it
  lives, what \<^verbatim>\<open>shutil.which\<close> finds, what the external 7z tool and the
  \<^verbatim>\<open>zipfile\<close> module do with an archive, and where \<^verbatim>\<open>tempfile\<close> creates its
  directories. The extractors are black boxes: the 7z tool gives its return code,
  its diagnostic output and the entries it wrote below the destination; the zip
  module gives the entries it wrote and the exception it raised, if any.
\<close>

record env =
  SCRIPT_DIR :: path
  home :: path
  which :: "string \<Rightarrow> bool"
  run_7z :: "string \<Rightarrow> node \<Rightarrow> path \<Rightarrow> path \<Rightarrow> int \<times> string \<times> (string \<times> node) list"
  zip_extractall :: "node \<Rightarrow> path \<Rightarrow> (string \<times> node) list \<times> error option"
  tempdir :: path
  temp_names :: "string list"

definition SDK_DIR :: "env \<Rightarrow> path" where
  "SDK_DIR e = SCRIPT_DIR e @ [''sdk'']"

text \<open>One constructor for each \<^verbatim>\<open>print\<close> (or uninterrupted run of prints) of the
  script, and one for the prompt that \<^verbatim>\<open>input\<close> writes.\<close>

datatype msg =
    Help_text
  | Banner
  | Current_status string bool
  | No_archives_found
  | Found_archives
  | Found_archive string path
  | Setting_up string
  | Already_exists path
  | Overwrite_prompt
  | Skipping
  | Extracting string
  | Error_7z_not_found
  | Error_stderr string
  | Unknown_archive_format string
  | Error_no_sdk_structure path
  | Found_sdk_root path
  | Installed_to path
  | Setup_complete
  | Sdk_status string bool
  | Next_steps

record state =
  disk :: node
  stdin :: "int list list"
  stdout :: "msg list"

datatype 'a outcome = Returned 'a | Raised error

definition print :: "msg \<Rightarrow> state \<Rightarrow> state" where
  "print m st = st\<lparr>stdout := stdout st @ [m]\<rparr>"

text \<open>\<^verbatim>\<open>input(prompt)\<close>: the prompt is written, one line is read; end of input raises.
  A line of input is a Python \<^verbatim>\<open>str\<close>: the list of its Unicode code points.\<close>

definition input :: "msg \<Rightarrow> state \<Rightarrow> int list outcome \<times> state" where
  "input prompt st =
     (case stdin st of
        [] \<Rightarrow> (Raised EOFError, print prompt st)
      | l # ls \<Rightarrow> (Returned l, (print prompt st)\<lparr>stdin := ls\<rparr>))"

text \<open>The code points of a string literal of the script.\<close>

definition codepoints :: "string \<Rightarrow> int list" where
  "codepoints s = map of_char s"

text \<open>\<^verbatim>\<open>str.strip()\<close> removes leading and trailing white space, which for a
  Python \<^verbatim>\<open>str\<close> is every code point that \<^verbatim>\<open>str.isspace\<close> accepts: the ASCII
  controls 9 to 13 and 28 to 31, the space, U+0085, U+00A0, U+1680, U+2000 to
  U+200A, U+2028, U+2029, U+202F, U+205F and U+3000.\<close>

definition is_space :: "int \<Rightarrow> bool" where
  "is_space c =
     ((9 \<le> c \<and> c \<le> 13) \<or> (28 \<le> c \<and> c \<le> 31) \<or> c = 32 \<or>
      c = 0x85 \<or> c = 0xA0 \<or> c = 0x1680 \<or> (0x2000 \<le> c \<and> c \<le> 0x200A) \<or>
      c = 0x2028 \<or> c = 0x2029 \<or> c = 0x202F \<or> c = 0x205F \<or> c = 0x3000)"

definition strip :: "int list \<Rightarrow> int list" where
  "strip s = rev (dropWhile is_space (rev (dropWhile is_space s)))"

text \<open>\<^verbatim>\<open>str.lower()\<close>. The letters \<^verbatim>\<open>A\<close> to \<^verbatim>\<open>Z\<close> are mapped to \<^verbatim>\<open>a\<close> to
  \<^verbatim>\<open>z\<close>; every other code point is left as it is. Python maps further letters,
  but \<^verbatim>\<open>Y\<close> is the only code point it maps to \<^verbatim>\<open>y\<close>, and it maps none to
  the empty string, so that the one use of the result, its comparison with
  \<^verbatim>\<open>'y'\<close>, is decided as Python decides it.\<close>

definition lower :: "int list \<Rightarrow> int list" where
  "lower s = map (\<lambda>c. if 65 \<le> c \<and> c \<le> 90 then c + 32 else c) s"

text \<open>\<^verbatim>\<open>Path.suffix\<close>: the last dot of the name and what follows it, when that dot
  is neither the first nor the last character of the name.\<close>

definition suffix :: "path \<Rightarrow> string" where
  "suffix p =
     (let rname = rev (name p);
          ext = takeWhile (\<lambda>c. c \<noteq> CHR ''.'') rname;
          stem = dropWhile (\<lambda>c. c \<noteq> CHR ''.'') rname
      in if 1 < length stem \<and> ext \<noteq> [] then CHR ''.'' # rev ext else [])"

section \<open>Archive extractor\<close>

definition find_7z :: "env \<Rightarrow> string option" where
  "find_7z e = find (which e) [''7z'', ''7za'', ''7zz'']"

text \<open>The entries an extractor wrote, stored below the destination.\<close>

fun write_entries :: "node \<Rightarrow> path \<Rightarrow> (string \<times> node) list \<Rightarrow> node" where
  "write_entries fs dest_dir [] = fs"
| "write_entries fs dest_dir ((n, v) # es) =
     write_entries (case store fs (dest_dir @ [n]) v of None \<Rightarrow> fs | Some fs' \<Rightarrow> fs') dest_dir es"

definition extract_archive :: "env \<Rightarrow> path \<Rightarrow> path \<Rightarrow> state \<Rightarrow> bool outcome \<times> state" where
  "extract_archive e archive_path dest_dir st0 =
     (let st = print (Extracting (name archive_path)) st0 in
      if suffix archive_path = ''.7z'' then
        (case find_7z e of
           None \<Rightarrow> (Returned False, print Error_7z_not_found st)
         | Some sevenz \<Rightarrow>
             (case mkdir (disk st) dest_dir of
                Inl err \<Rightarrow> (Raised err, st)
              | Inr fs1 \<Rightarrow>
                  (case run_7z e sevenz fs1 archive_path dest_dir of
                     (returncode, stderr, entries) \<Rightarrow>
                       let st1 = st\<lparr>disk := write_entries fs1 dest_dir entries\<rparr> in
                       if returncode \<noteq> 0 then (Returned False, print (Error_stderr stderr) st1)
                       else (Returned True, st1))))
      else if suffix archive_path = ''.zip'' then
        (case mkdir (disk st) dest_dir of
           Inl err \<Rightarrow> (Raised err, st)
         | Inr fs1 \<Rightarrow>
             (case zip_extractall e fs1 archive_path of
                (entries, exc) \<Rightarrow>
                  let st1 = st\<lparr>disk := write_entries fs1 dest_dir entries\<rparr> in
                  (case exc of Some err \<Rightarrow> (Raised err, st1) | None \<Rightarrow> (Returned True, st1))))
      else (Returned False, print (Unknown_archive_format (suffix archive_path)) st))"

section \<open>Platform installer\<close>

text \<open>\<^verbatim>\<open>tempfile.TemporaryDirectory()\<close>: on entry a directory \<^verbatim>\<open>tmp\<close>\<open>\<dots>\<close> with a
  name not yet taken is created in the temporary directory; on every exit of the
  block, by return or by exception, it is removed with what it holds, and it is
  no error when it is gone already.\<close>

fun mkdtemp :: "node \<Rightarrow> path \<Rightarrow> string list \<Rightarrow> error + path \<times> node" where
  "mkdtemp fs dir [] = Inl FileExistsError"
| "mkdtemp fs dir (n # ns) =
     (if \<not> exists fs dir then Inl FileNotFoundError
      else if \<not> is_dir fs dir then Inl NotADirectoryError
      else if exists fs (dir @ [''tmp'' @ n]) then mkdtemp fs dir ns
      else
        (case store fs (dir @ [''tmp'' @ n]) (Dir []) of
           None \<Rightarrow> Inl OSError
         | Some fs' \<Rightarrow> Inr (dir @ [''tmp'' @ n], fs')))"

definition cleanup :: "path \<Rightarrow> node \<Rightarrow> node" where
  "cleanup temp_dir fs = (case remove fs temp_dir of None \<Rightarrow> fs | Some fs' \<Rightarrow> fs')"

definition with_temporary_directory ::
  "env \<Rightarrow> (path \<Rightarrow> state \<Rightarrow> 'a outcome \<times> state) \<Rightarrow> state \<Rightarrow> 'a outcome \<times> state"
where
  "with_temporary_directory e body st =
     (case mkdtemp (disk st) (tempdir e) (temp_names e) of
        Inl err \<Rightarrow> (Raised err, st)
      | Inr (temp_dir, fs1) \<Rightarrow>
          (case body temp_dir (st\<lparr>disk := fs1\<rparr>) of
             (r, st') \<Rightarrow> (r, st'\<lparr>disk := cleanup temp_dir (disk st')\<rparr>)))"

text \<open>The body of the \<^verbatim>\<open>with\<close> block of \<^verbatim>\<open>setup_platform\<close>. \<open>Returned False\<close> is
  one of its two \<^verbatim>\<open>return False\<close>; \<open>Returned True\<close> is control reaching the end
  of the block.\<close>

definition extract_and_move ::
  "env \<Rightarrow> path \<Rightarrow> path \<Rightarrow> path \<Rightarrow> path \<Rightarrow> state \<Rightarrow> bool outcome \<times> state"
where
  "extract_and_move e archive_path target_dir tf temp_path st =
     (case extract_archive e archive_path temp_path st of
        (Raised err, st1) \<Rightarrow> (Raised err, st1)
      | (Returned ok, st1) \<Rightarrow>
          if \<not> ok then (Returned False, st1)
          else
            (case find_sdk_root (disk st1) temp_path of
               Inl err \<Rightarrow> (Raised err, st1)
             | Inr None \<Rightarrow> (Returned False, print (Error_no_sdk_structure tf) st1)
             | Inr (Some sdk_root) \<Rightarrow>
                 let st2 = print (Found_sdk_root sdk_root) st1 in
                 (case mkdir (disk st2) (parent target_dir) of
                    Inl err \<Rightarrow> (Raised err, st2)
                  | Inr fs2 \<Rightarrow>
                      (case move fs2 sdk_root target_dir of
                         Inl err \<Rightarrow> (Raised err, st2\<lparr>disk := fs2\<rparr>)
                       | Inr fs3 \<Rightarrow> (Returned True, st2\<lparr>disk := fs3\<rparr>)))))"

text \<open>\<^verbatim>\<open>setup_platform\<close> from the \<^verbatim>\<open>with\<close> statement on.\<close>

definition install ::
  "env \<Rightarrow> path \<Rightarrow> path \<Rightarrow> path \<Rightarrow> state \<Rightarrow> bool outcome \<times> state"
where
  "install e archive_path target_dir tf st =
     (case with_temporary_directory e (extract_and_move e archive_path target_dir tf) st of
        (Raised err, st') \<Rightarrow> (Raised err, st')
      | (Returned ok, st') \<Rightarrow>
          if \<not> ok then (Returned False, st')
          else (Returned True, print (Installed_to target_dir) st'))"

definition setup_platform :: "env \<Rightarrow> string \<Rightarrow> path \<Rightarrow> state \<Rightarrow> bool outcome \<times> state" where
  "setup_platform e platform archive_path st0 =
     (let st = print (Setting_up platform) st0;
          target_dir = SDK_DIR e @ [platform]
      in case map_of PLATFORMS platform of
           None \<Rightarrow> (Raised KeyError, st)
         | Some config \<Rightarrow>
             if exists (disk st) (target_dir @ test_file config) then
               (case input Overwrite_prompt (print (Already_exists target_dir) st) of
                  (Raised err, st1) \<Rightarrow> (Raised err, st1)
                | (Returned response, st1) \<Rightarrow>
                    if lower (strip response) \<noteq> codepoints ''y''
                    then (Returned True, print Skipping st1)
                    else
                      (case rmtree (disk st1) target_dir of
                         Inl err \<Rightarrow> (Raised err, st1)
                       | Inr fs' \<Rightarrow>
                           install e archive_path target_dir (test_file config)
                             (st1\<lparr>disk := fs'\<rparr>)))
             else install e archive_path target_dir (test_file config) st)"

section \<open>The command line\<close>

text \<open>The namespace that \<^verbatim>\<open>parse_args\<close> returns: every path option is absent
  (\<open>None\<close>) or a path.\<close>

record args =
  archives_dir :: "path option"
  win :: "path option"
  linux :: "path option"
  mac :: "path option"
  mac_arm64 :: "path option"
  list_flag :: bool

text \<open>
  \<^verbatim>\<open>parser.parse_args()\<close> has three ways to end, and which one a command line
  takes is the business of \<^verbatim>\<open>argparse\<close>: it returns the namespace; on \<^verbatim>\<open>-h\<close> or
  \<^verbatim>\<open>--help\<close> it prints the help text and leaves the process with status 0; on a
  command line it does not accept it reports the error (on the error stream,
  which is not part of the state) and leaves the process with status 2.
\<close>

datatype parse_result = Parsed args | Help | Usage_error

text \<open>\<open>Inl n\<close> is \<^verbatim>\<open>sys.exit(n)\<close> called inside \<^verbatim>\<open>parse_args\<close>.\<close>

definition parse_args :: "parse_result \<Rightarrow> state \<Rightarrow> (int + args) \<times> state" where
  "parse_args cl st =
     (case cl of
        Parsed a \<Rightarrow> (Inr a, st)
      | Help \<Rightarrow> (Inl 0, print Help_text st)
      | Usage_error \<Rightarrow> (Inl 2, st))"

text \<open>The status lines that \<^verbatim>\<open>main\<close> prints before and after the installs.\<close>

definition report_status :: "env \<Rightarrow> (string \<Rightarrow> bool \<Rightarrow> msg) \<Rightarrow> state \<Rightarrow> state" where
  "report_status e line st =
     st\<lparr>stdout := stdout st @
        map (\<lambda>(platform, config).
               line platform (exists (disk st) (SDK_DIR e @ [platform] @ test_file config)))
            PLATFORMS\<rparr>"

text \<open>\<^verbatim>\<open>main\<close>, lines 234 to 245: the manual overrides.\<close>

definition manual_overrides :: "args \<Rightarrow> (string \<times> path) list" where
  "manual_overrides a =
     (let archives = [];
          archives = (case win a of Some p \<Rightarrow> AList.update ''win-x64'' p archives | None \<Rightarrow> archives);
          archives = (case linux a of Some p \<Rightarrow> AList.update ''linux-x64'' p archives | None \<Rightarrow> archives);
          archives = (case mac a of Some p \<Rightarrow> AList.update ''mac-x64'' p archives | None \<Rightarrow> archives);
          archives = (case mac_arm64 a of Some p \<Rightarrow> AList.update ''mac-arm64'' p archives | None \<Rightarrow> archives)
      in archives)"

text \<open>The loop \<^verbatim>\<open>for platform, path in found.items()\<close>.\<close>

fun add_found :: "(string \<times> path) list \<Rightarrow> (string \<times> path) list \<Rightarrow> (string \<times> path) list" where
  "add_found [] archives = archives"
| "add_found ((platform, p) # found) archives =
     add_found found
       (if platform \<notin> fst ` set archives then AList.update platform p archives else archives)"

text \<open>The loop \<^verbatim>\<open>for search_dir in search_dirs\<close>.\<close>

fun search_all :: "node \<Rightarrow> path list \<Rightarrow> (string \<times> path) list \<Rightarrow> (string \<times> path) list" where
  "search_all fs [] archives = archives"
| "search_all fs (search_dir # search_dirs) archives =
     search_all fs search_dirs (add_found (find_archives fs search_dir) archives)"

definition search_dirs :: "env \<Rightarrow> args \<Rightarrow> path list" where
  "search_dirs e a =
     (case archives_dir a of
        Some d \<Rightarrow> [d]
      | None \<Rightarrow> [home e @ [''Downloads''], SCRIPT_DIR e, parent (SCRIPT_DIR e)])"

text \<open>\<^verbatim>\<open>main\<close>, lines 234 to 265: the archives to process.\<close>

definition collect_archives :: "env \<Rightarrow> node \<Rightarrow> args \<Rightarrow> (string \<times> path) list" where
  "collect_archives e fs a =
     (let archives = manual_overrides a in
      if length archives < length PLATFORMS then search_all fs (search_dirs e a) archives
      else archives)"

text \<open>The loop \<^verbatim>\<open>for platform, archive_path in archives.items()\<close> with its flag
  \<^verbatim>\<open>success\<close>; an exception leaves the loop and \<^verbatim>\<open>main\<close>.\<close>

fun process_archives ::
  "env \<Rightarrow> (string \<times> path) list \<Rightarrow> bool \<Rightarrow> state \<Rightarrow> bool outcome \<times> state"
where
  "process_archives e [] success st = (Returned success, st)"
| "process_archives e ((platform, archive_path) # rest) success st =
     (case setup_platform e platform archive_path st of
        (Raised err, st') \<Rightarrow> (Raised err, st')
      | (Returned ok, st') \<Rightarrow> process_archives e rest (if \<not> ok then False else success) st')"

text \<open>The prints of \<^verbatim>\<open>main\<close> before the status check, and its listing of the
  archives it is going to process.\<close>

definition announce_archives :: "(string \<times> path) list \<Rightarrow> state \<Rightarrow> state" where
  "announce_archives archives st =
     st\<lparr>stdout := stdout st @
        Found_archives # map (\<lambda>(platform, p). Found_archive platform p) archives\<rparr>"

text \<open>How \<^verbatim>\<open>main\<close> ends: it returns a status, or \<^verbatim>\<open>sys.exit\<close> was called
  inside it, or an exception that nothing caught leaves it.\<close>

datatype main_outcome = Return int | Sys_exit int | Uncaught error

text \<open>\<^verbatim>\<open>main\<close> after the loop over the archives: the summary and the status
  returned.\<close>

definition summarise :: "env \<Rightarrow> bool outcome \<times> state \<Rightarrow> main_outcome \<times> state" where
  "summarise e run =
     (case run of
        (Raised err, st') \<Rightarrow> (Uncaught err, st')
      | (Returned success, st') \<Rightarrow>
          (Return (if success then 0 else 1),
           print Next_steps (report_status e Sdk_status (print Setup_complete st'))))"

definition main :: "env \<Rightarrow> parse_result \<Rightarrow> state \<Rightarrow> main_outcome \<times> state" where
  "main e cl st0 =
     (case parse_args cl st0 of
        (Inl n, st) \<Rightarrow> (Sys_exit n, st)
      | (Inr a, st1) \<Rightarrow>
          let st = report_status e Current_status (print Banner st1) in
          if list_flag a then (Return 0, st)
          else
            let archives = collect_archives e (disk st) a in
            if archives = [] then (Return 1, print No_archives_found st)
            else summarise e (process_archives e archives True (announce_archives archives st)))"

text \<open>\<^verbatim>\<open>sys.exit(main())\<close>: the status that \<^verbatim>\<open>main\<close> returns or that
  \<^verbatim>\<open>sys.exit\<close> was called with, and status 1 when the interpreter ends on an
  exception that nothing caught.\<close>

definition exit_status :: "main_outcome \<Rightarrow> int" where
  "exit_status r = (case r of Return n \<Rightarrow> n | Sys_exit n \<Rightarrow> n | Uncaught err \<Rightarrow> 1)"

text \<open>The installs that a run attempts, each with its outcome, in the order of the
  attempts. An install that raises is the last one attempted.\<close>

fun install_outcomes :: "env \<Rightarrow> (string \<times> path) list \<Rightarrow> state \<Rightarrow> bool outcome list" where
  "install_outcomes e [] st = []"
| "install_outcomes e ((platform, archive_path) # rest) st =
     (case setup_platform e platform archive_path st of
        (Raised err, st') \<Rightarrow> [Raised err]
      | (Returned ok, st') \<Rightarrow> Returned ok # install_outcomes e rest st')"

text \<open>
  The archive assignment in the words of the data model: the path given for a
  platform on the command line, and otherwise what the first search directory
  that has something for the platform found.
\<close>

definition manual :: "args \<Rightarrow> string \<Rightarrow> path option" where
  "manual a platform =
     (if platform = ''win-x64'' then win a
      else if platform = ''linux-x64'' then linux a
      else if platform = ''mac-x64'' then mac a
      else if platform = ''mac-arm64'' then mac_arm64 a
      else None)"

fun first_found :: "node \<Rightarrow> path list \<Rightarrow> string \<Rightarrow> path option" where
  "first_found fs [] platform = None"
| "first_found fs (search_dir # dirs) platform =
     (case map_of (find_archives fs search_dir) platform of
        Some p \<Rightarrow> Some p
      | None \<Rightarrow> first_found fs dirs platform)"

section \<open>Example filesystems\<close>

text \<open>An SDK as an archive unpacks it, wrapped in two folders, buried one folder
  too deep, and beside a sibling that wraps another one.\<close>

definition sdk_tree :: node where
  "sdk_tree = Dir [(''include'', Dir [(''Ultralight'', Dir [(''Ultralight.h'', File ''// header'')])]),
                   (''bin'', Dir [])]"

definition nested_fs :: node where
  "nested_fs = Dir [(''tmp'', Dir [(''wrap'', Dir [(''sdk'', sdk_tree)])])]"

definition too_deep_fs :: node where
  "too_deep_fs = Dir [(''tmp'', Dir [(''a'', Dir [(''b'', Dir [(''c'', sdk_tree)])])])]"

definition siblings_fs :: node where
  "siblings_fs = Dir [(''tmp'', Dir [(''a'', Dir [(''x'', sdk_tree)]), (''b'', sdk_tree)])]"

text \<open>An environment for the examples: the script lives in \<^verbatim>\<open>/proj/native\<close>, only
  \<^verbatim>\<open>7z\<close> is installed, and an archive file unpacks to a wrapped SDK when its
  content is \<^verbatim>\<open>sdk\<close> and is refused when it is anything else.\<close>

definition example_env :: env where
  "example_env =
     \<lparr>SCRIPT_DIR = [''proj'', ''native''],
      home = [''home'', ''dev''],
      which = (\<lambda>cmd. cmd = ''7z''),
      run_7z = (\<lambda>cmd fs archive_path dest_dir.
        if lookup fs archive_path = Some (File ''sdk'')
        then (0, [], [(''ultralight-sdk'', sdk_tree)])
        else (2, ''Cannot open the file as archive'', [])),
      zip_extractall = (\<lambda>fs archive_path.
        if lookup fs archive_path = Some (File ''sdk'')
        then ([(''ultralight-sdk'', sdk_tree)], None)
        else ([], Some (ZipError ''File is not a zip file''))),
      tempdir = [''tmp''],
      temp_names = [''k3x9'']\<rparr>"

text \<open>A disk with archives in \<^verbatim>\<open>~/Downloads\<close>, another archive for Windows in
  \<^verbatim>\<open>/opt\<close> and nothing installed, and a disk with the Linux SDK installed.\<close>

definition downloads :: node where
  "downloads =
     Dir [(''ultralight-sdk-1.4.0-linux-x64.7z'', File ''sdk''),
          (''ultralight-sdk-1.3.0-linux-x64.7z'', File ''sdk''),
          (''ultralight-sdk-win-x64.zip'', File ''corrupt''),
          (''ultralight-sdk-mac-x64.tar'', File ''sdk''),
          (''notes.txt'', File ''hello'')]"

definition fresh_disk :: node where
  "fresh_disk =
     Dir [(''tmp'', Dir []),
          (''opt'', Dir [(''ultralight-win.7z'', File ''sdk'')]),
          (''home'', Dir [(''dev'', Dir [(''Downloads'', downloads)])]),
          (''proj'', Dir [(''native'', Dir [(''setup-sdk.py'', File ''#!'')])])]"

definition installed_disk :: node where
  "installed_disk =
     Dir [(''tmp'', Dir []),
          (''home'', Dir [(''dev'', Dir [(''Downloads'', downloads)])]),
          (''proj'', Dir [(''native'',
             Dir [(''setup-sdk.py'', File ''#!''),
                  (''sdk'', Dir [(''linux-x64'', sdk_tree)])])])]"

definition no_args :: args where
  "no_args =
     \<lparr>archives_dir = None, win = None, linux = None, mac = None, mac_arm64 = None,
      list_flag = False\<rparr>"

definition empty_disk :: node where
  "empty_disk = Dir [(''tmp'', Dir [])]"

definition list_args :: args where
  "list_args =
     \<lparr>archives_dir = None, win = None, linux = None, mac = None, mac_arm64 = None,
      list_flag = True\<rparr>"

definition linux_archive :: path where
  "linux_archive = [''home'', ''dev'', ''Downloads'', ''ultralight-sdk-1.4.0-linux-x64.7z'']"

definition linux_args :: args where
  "linux_args =
     \<lparr>archives_dir = Some [''nowhere''], win = None, linux = Some linux_archive, mac = None,
      mac_arm64 = None, list_flag = False\<rparr>"

definition win_args :: args where
  "win_args =
     \<lparr>archives_dir = None, win = Some [''opt'', ''ultralight-win.7z''], linux = None, mac = None,
      mac_arm64 = None, list_flag = False\<rparr>"

text \<open>The disk \<open>fresh_disk\<close> after the Windows and the Linux SDK are installed.\<close>

definition both_installed_disk :: node where
  "both_installed_disk =
     Dir [(''tmp'', Dir []),
          (''opt'', Dir [(''ultralight-win.7z'', File ''sdk'')]),
          (''home'', Dir [(''dev'', Dir [(''Downloads'', downloads)])]),
          (''proj'', Dir [(''native'',
             Dir [(''setup-sdk.py'', File ''#!''),
                  (''sdk'', Dir [(''win-x64'', sdk_tree), (''linux-x64'', sdk_tree)])])])]"

text \<open>A disk on which the target directory of the Linux SDK already holds an
  entry with the name of the folder that wraps the SDK in the archives.\<close>

definition clash_disk :: node where
  "clash_disk =
     Dir [(''tmp'', Dir []),
          (''home'', Dir [(''dev'', Dir [(''Downloads'', downloads)])]),
          (''proj'', Dir [(''native'',
             Dir [(''setup-sdk.py'', File ''#!''),
                  (''sdk'', Dir [(''linux-x64'', Dir [(''ultralight-sdk'', Dir [])])])])])]"

definition tar_archive :: path where
  "tar_archive = [''home'', ''dev'', ''Downloads'', ''ultralight-sdk-mac-x64.tar'']"

text \<open>A disk on which the target directory of the Linux SDK is there, with a
  leftover file and without the marker file.\<close>

definition stale_disk :: node where
  "stale_disk =
     Dir [(''tmp'', Dir []),
          (''home'', Dir [(''dev'', Dir [(''Downloads'', downloads)])]),
          (''proj'', Dir [(''native'',
             Dir [(''setup-sdk.py'', File ''#!''),
                  (''sdk'', Dir [(''linux-x64'', Dir [(''README'', File ''old'')])])])])]"

section \<open>Properties of the filesystem and of the root finder\<close>


lemma lookup_append:
  "lookup fs (p @ q) = (case lookup fs p of None \<Rightarrow> None | Some n \<Rightarrow> lookup n q)"
proof (induction p arbitrary: fs)
  case Nil
  show ?case by simp
next
  case (Cons c p)
  show ?case
  proof (cases fs)
    case (File x)
    then show ?thesis by simp
  next
    case (Dir es)
    then show ?thesis using Cons.IH by (simp split: option.splits)
  qed
qed

lemma exists_prefix: "exists fs (p @ q) \<Longrightarrow> exists fs p"
  by (simp add: exists_def lookup_append split: option.splits)

lemma lookup_Nil_File: "lookup (File c) q = (if q = [] then Some (File c) else None)"
  by (cases q) simp_all

lemma is_dir_prefix: "exists fs (p @ q) \<Longrightarrow> q \<noteq> [] \<Longrightarrow> is_dir fs p"
  by (auto simp: exists_def is_dir_def lookup_append lookup_Nil_File split: option.splits node.splits)

lemma is_dir_iterdir:
  "is_dir fs p \<Longrightarrow> \<exists>es. lookup fs p = Some (Dir es) \<and> iterdir fs p = Inr (map (\<lambda>e. p @ [fst e]) es)"
  by (auto simp: is_dir_def iterdir_def split: option.splits node.splits)

lemma exists_child:
  "lookup fs p = Some (Dir es) \<Longrightarrow> exists fs (p @ [a]) \<longleftrightarrow> a \<in> fst ` set es"
  using map_of_eq_None_iff[of es a]
  by (auto simp: exists_def lookup_append split: option.splits)

lemma test_file_nonempty: "root_test_file \<noteq> []"
  by (simp add: root_test_file_def)

lemma find_in_subsubdirs_Some:
  "find_in_subsubdirs fs xs = Some r \<Longrightarrow> r \<in> set xs \<and> is_dir fs r \<and> exists fs (r @ root_test_file)"
  by (induction xs) (auto split: if_splits)

lemma find_in_subsubdirs_None:
  "find_in_subsubdirs fs xs = None \<longleftrightarrow> (\<forall>x\<in>set xs. \<not> exists fs (x @ root_test_file))"
  by (induction xs) (auto dest: is_dir_prefix[OF _ test_file_nonempty])

lemma find_in_subdirs_total: "\<exists>r. find_in_subdirs fs xs = Inr r"
  by (induction xs) (auto dest: is_dir_iterdir split: sum.splits option.splits)

lemma find_in_subdirs_Some:
  "find_in_subdirs fs xs = Inr (Some r) \<Longrightarrow>
     exists fs (r @ root_test_file) \<and>
     (r \<in> set xs \<or> (\<exists>s\<in>set xs. \<exists>ss. iterdir fs s = Inr ss \<and> r \<in> set ss))"
proof (induction xs)
  case Nil
  then show ?case by simp
next
  case (Cons s xs)
  then show ?case
    by (auto split: if_splits sum.splits option.splits dest: find_in_subsubdirs_Some)
qed

lemma find_in_subdirs_None:
  "find_in_subdirs fs xs = Inr None \<longleftrightarrow>
     (\<forall>s\<in>set xs. \<not> exists fs (s @ root_test_file) \<and>
        (\<forall>ss. iterdir fs s = Inr ss \<longrightarrow> (\<forall>x\<in>set ss. \<not> exists fs (x @ root_test_file))))"
proof (induction xs)
  case Nil
  then show ?case by simp
next
  case (Cons s xs)
  show ?case
  proof (cases "is_dir fs s")
    case True
    then obtain ss where ss: "iterdir fs s = Inr ss" using is_dir_iterdir by blast
    show ?thesis using True ss Cons.IH
      by (auto simp: find_in_subsubdirs_None split: option.splits dest: find_in_subsubdirs_Some)
  next
    case False
    then have a: "\<not> exists fs (s @ root_test_file)"
      using is_dir_prefix[OF _ test_file_nonempty] by blast
    have b: "\<And>ss x. iterdir fs s = Inr ss \<Longrightarrow> False"
      using False by (auto simp: is_dir_def iterdir_def split: option.splits node.splits)
    show ?thesis using False a b Cons.IH by auto
  qed
qed


lemma iterdir_children:
  "iterdir fs s = Inr ss \<Longrightarrow> x \<in> set ss \<Longrightarrow> \<exists>b. x = s @ [b]"
  by (auto simp: iterdir_def split: option.splits node.splits)

lemma iterdir_mem:
  "is_dir fs s \<Longrightarrow> exists fs (s @ [b]) \<Longrightarrow> \<exists>ss. iterdir fs s = Inr ss \<and> s @ [b] \<in> set ss"
proof -
  assume d: "is_dir fs s" and e: "exists fs (s @ [b])"
  from d obtain es where es: "lookup fs s = Some (Dir es)"
    and it: "iterdir fs s = Inr (map (\<lambda>e. s @ [fst e]) es)"
    using is_dir_iterdir by blast
  from e es have "b \<in> fst ` set es" by (simp add: exists_child)
  then have "s @ [b] \<in> set (map (\<lambda>e. s @ [fst e]) es)" by auto
  with it show ?thesis by blast
qed

lemma marker_depth1:
  assumes "exists fs (d @ [a] @ root_test_file)"
  shows "is_dir fs d" and "exists fs (d @ [a])"
proof -
  have e: "exists fs ((d @ [a]) @ root_test_file)" using assms by simp
  show "exists fs (d @ [a])" using exists_prefix[OF e] .
  show "is_dir fs d" using is_dir_prefix[of fs d "[a] @ root_test_file"] assms by simp
qed

text \<open>
  Claim C8. When the marker file exists at depth 0, 1 or 2 below the extraction
  directory, \<^verbatim>\<open>find_sdk_root\<close> returns a directory at depth 0, 1 or 2 that
  contains the marker file at its relative path; when no directory down to depth
  2 contains it (the marker is at depth 3 or deeper, or nowhere), it returns
  \<^verbatim>\<open>None\<close>.
\<close>

theorem find_sdk_root_depth_cap:
  assumes "is_dir fs d"
  shows "((\<exists>r. length r \<le> 2 \<and> exists fs (d @ r @ root_test_file)) \<longrightarrow>
            (\<exists>r. length r \<le> 2 \<and> find_sdk_root fs d = Inr (Some (d @ r)) \<and>
                 exists fs (d @ r @ root_test_file))) \<and>
         ((\<forall>r. length r \<le> 2 \<longrightarrow> \<not> exists fs (d @ r @ root_test_file)) \<longrightarrow>
            find_sdk_root fs d = Inr None)"
proof (cases "exists fs (d @ root_test_file)")
  case True
  have "length ([]::path) \<le> 2 \<and> find_sdk_root fs d = Inr (Some (d @ [])) \<and>
        exists fs (d @ [] @ root_test_file)"
    using True by (simp add: find_sdk_root_def)
  then have "\<exists>r. length r \<le> 2 \<and> find_sdk_root fs d = Inr (Some (d @ r)) \<and>
                 exists fs (d @ r @ root_test_file)" by blast
  moreover have "\<not> (\<forall>r. length r \<le> 2 \<longrightarrow> \<not> exists fs (d @ r @ root_test_file))"
    using True by (metis append_Nil list.size(3) zero_le)
  ultimately show ?thesis by blast
next
  case False
  obtain subs where subs: "iterdir fs d = Inr subs"
    using is_dir_iterdir[OF assms] by blast
  have eq: "find_sdk_root fs d = find_in_subdirs fs subs"
    using False subs by (simp add: find_sdk_root_def)
  obtain res where res: "find_in_subdirs fs subs = Inr res"
    using find_in_subdirs_total by blast
  have deep: "\<exists>r. length r \<le> 2 \<and> root = d @ r \<and> exists fs (d @ r @ root_test_file)"
    if "res = Some root" for root
  proof -
    from that res have f: "find_in_subdirs fs subs = Inr (Some root)" by simp
    from find_in_subdirs_Some[OF f] have m: "exists fs (root @ root_test_file)"
      and w: "root \<in> set subs \<or> (\<exists>s\<in>set subs. \<exists>ss. iterdir fs s = Inr ss \<and> root \<in> set ss)"
      by blast+
    from w show ?thesis
    proof
      assume "root \<in> set subs"
      then obtain a where "root = d @ [a]" using iterdir_children[OF subs] by blast
      with m have "length [a] \<le> 2 \<and> root = d @ [a] \<and> exists fs (d @ [a] @ root_test_file)" by simp
      then show ?thesis by blast
    next
      assume "\<exists>s\<in>set subs. \<exists>ss. iterdir fs s = Inr ss \<and> root \<in> set ss"
      then obtain s ss where s: "s \<in> set subs" and ss: "iterdir fs s = Inr ss" "root \<in> set ss"
        by blast
      obtain a where a: "s = d @ [a]" using iterdir_children[OF subs s] by blast
      obtain b where b: "root = s @ [b]" using iterdir_children[OF ss] by blast
      from a b m have "length [a, b] \<le> 2 \<and> root = d @ [a, b] \<and> exists fs (d @ [a, b] @ root_test_file)"
        by simp
      then show ?thesis by blast
    qed
  qed
  have none: "\<not> exists fs (d @ r @ root_test_file)" if n: "res = None" and l: "length r \<le> 2" for r
  proof
    assume e: "exists fs (d @ r @ root_test_file)"
    from n res have f: "find_in_subdirs fs subs = Inr None" by simp
    note F = f[unfolded find_in_subdirs_None]
    consider "r = []" | a where "r = [a]" | a b where "r = [a, b]"
      using l by (cases r rule: list.exhaust; simp; cases "tl r"; auto)
    then show False
    proof cases
      case 1
      with e False show False by simp
    next
      case 2
      with e have e1: "exists fs (d @ [a] @ root_test_file)" by simp
      from iterdir_mem[OF assms marker_depth1(2)[OF e1]] subs
      have "d @ [a] \<in> set subs" by simp
      with F e1 show False by auto
    next
      case 3
      with e have e2: "exists fs ((d @ [a]) @ [b] @ root_test_file)" by simp
      have da: "exists fs (d @ [a])" using exists_prefix[of fs "d @ [a]" "[b] @ root_test_file"] e2 by simp
      from iterdir_mem[OF assms da] subs have mem: "d @ [a] \<in> set subs" by simp
      from iterdir_mem[OF marker_depth1[OF e2]] obtain ss
        where ss: "iterdir fs (d @ [a]) = Inr ss" "(d @ [a]) @ [b] \<in> set ss" by blast
      from F mem ss(1) have "\<forall>x\<in>set ss. \<not> exists fs (x @ root_test_file)" by blast
      with ss(2) have "\<not> exists fs (((d @ [a]) @ [b]) @ root_test_file)" by blast
      with e2 show False by simp
    qed
  qed
  show ?thesis
  proof (cases res)
    case None
    then show ?thesis using none eq res by auto
  next
    case (Some root)
    from deep[OF Some] obtain r where r: "length r \<le> 2" "root = d @ r" "exists fs (d @ r @ root_test_file)"
      by blast
    have "find_sdk_root fs d = Inr (Some (d @ r))" using eq res Some r by simp
    then show ?thesis using r by auto
  qed
qed


lemmas fs_eval = exists_def is_dir_def iterdir_def root_test_file_def find_sdk_root_def
  sdk_tree_def nested_fs_def too_deep_fs_def siblings_fs_def

lemma too_deep_no_marker:
  "length r \<le> 2 \<Longrightarrow> \<not> exists too_deep_fs ([''tmp''] @ r @ root_test_file)"
proof -
  assume l: "length r \<le> 2"
  consider "r = []" | a where "r = [a]" | a b where "r = [a, b]"
    using l by (cases r rule: list.exhaust; simp; cases "tl r"; auto)
  then show ?thesis
    by cases (auto simp: fs_eval split: option.splits)
qed

theorem find_sdk_root_depth_cap_witness:
  "is_dir nested_fs [''tmp''] \<and>
   find_sdk_root nested_fs [''tmp''] = Inr (Some [''tmp'', ''wrap'', ''sdk'']) \<and>
   is_dir too_deep_fs [''tmp''] \<and>
   exists too_deep_fs ([''tmp'', ''a'', ''b'', ''c''] @ root_test_file) \<and>
   find_sdk_root too_deep_fs [''tmp''] = Inr None"
proof -
  have d1: "is_dir nested_fs [''tmp'']" by (simp add: fs_eval)
  have m1: "\<exists>r. length r \<le> 2 \<and> exists nested_fs ([''tmp''] @ r @ root_test_file)"
    by (rule exI[of _ "[''wrap'', ''sdk'']"]) (simp add: fs_eval)
  have d2: "is_dir too_deep_fs [''tmp'']" by (simp add: fs_eval)
  have m2: "exists too_deep_fs ([''tmp'', ''a'', ''b'', ''c''] @ root_test_file)"
    by (simp add: fs_eval)
  from find_sdk_root_depth_cap[OF d1] m1
  have "\<exists>r. find_sdk_root nested_fs [''tmp''] = Inr (Some ([''tmp''] @ r))" by blast
  moreover have "find_sdk_root nested_fs [''tmp''] = Inr (Some [''tmp'', ''wrap'', ''sdk''])"
    by (simp add: fs_eval)
  ultimately have f1: "find_sdk_root nested_fs [''tmp''] = Inr (Some [''tmp'', ''wrap'', ''sdk''])"
    by blast
  from find_sdk_root_depth_cap[OF d2] too_deep_no_marker
  have f2: "find_sdk_root too_deep_fs [''tmp''] = Inr None" by blast
  from d1 f1 d2 m2 f2 show ?thesis by blast
qed

lemma find_in_subdirs_append:
  "find_in_subdirs fs xs = Inr None \<Longrightarrow> find_in_subdirs fs (xs @ ys) = find_in_subdirs fs ys"
  by (induction xs) (auto split: if_splits sum.splits option.splits)

lemma find_in_subsubdirs_append:
  "find_in_subsubdirs fs xs = None \<Longrightarrow> find_in_subsubdirs fs (xs @ ys) = find_in_subsubdirs fs ys"
  by (induction xs) (auto split: if_splits)

text \<open>
  Claim C2, as the code has it. The given directory is checked first. When the
  marker is absent there, the immediate subdirectories are visited in iteration
  order, and each one is checked and then its own subdirectories, before the next
  one is looked at. So the first subdirectory \<open>s\<close> that has the marker in itself
  or in a subdirectory decides: the result is \<open>s\<close> (depth 1) when \<open>s\<close> contains
  the marker, and otherwise the first subdirectory of \<open>s\<close> that contains it
  (depth 2), whatever the later siblings of \<open>s\<close> contain.
\<close>

theorem find_sdk_root_preorder:
  "(exists fs (d @ root_test_file) \<longrightarrow> find_sdk_root fs d = Inr (Some d)) \<and>
   (\<not> exists fs (d @ root_test_file) \<and> iterdir fs d = Inr (pre @ s # post) \<and>
    (\<forall>p\<in>set pre. \<not> exists fs (p @ root_test_file) \<and> (\<forall>b. \<not> exists fs (p @ [b] @ root_test_file))) \<longrightarrow>
      (exists fs (s @ root_test_file) \<longrightarrow> find_sdk_root fs d = Inr (Some s)) \<and>
      (\<not> exists fs (s @ root_test_file) \<and> iterdir fs s = Inr (pre' @ ss # post') \<and>
       (\<forall>x\<in>set pre'. \<not> exists fs (x @ root_test_file)) \<and> exists fs (ss @ root_test_file) \<longrightarrow>
         find_sdk_root fs d = Inr (Some ss)))"
proof (intro conjI impI)
  assume "exists fs (d @ root_test_file)"
  then show "find_sdk_root fs d = Inr (Some d)" by (simp add: find_sdk_root_def)
next
  assume A: "\<not> exists fs (d @ root_test_file) \<and> iterdir fs d = Inr (pre @ s # post) \<and>
    (\<forall>p\<in>set pre. \<not> exists fs (p @ root_test_file) \<and> (\<forall>b. \<not> exists fs (p @ [b] @ root_test_file)))"
  have pre: "find_in_subdirs fs pre = Inr None"
    unfolding find_in_subdirs_None
  proof (intro ballI conjI allI impI)
    fix p assume "p \<in> set pre"
    with A show "\<not> exists fs (p @ root_test_file)" by blast
  next
    fix p ss x assume p: "p \<in> set pre" and it: "iterdir fs p = Inr ss" and x: "x \<in> set ss"
    obtain b where "x = p @ [b]" using iterdir_children[OF it x] by blast
    with A p show "\<not> exists fs (x @ root_test_file)" by simp
  qed
  have eq: "find_sdk_root fs d = find_in_subdirs fs (s # post)"
    using A find_in_subdirs_append[OF pre] by (simp add: find_sdk_root_def)
  {
    assume m: "exists fs (s @ root_test_file)"
    have "is_dir fs s" using is_dir_prefix[OF m test_file_nonempty] .
    with m eq show "find_sdk_root fs d = Inr (Some s)" by simp
  }
  {
    assume B: "\<not> exists fs (s @ root_test_file) \<and> iterdir fs s = Inr (pre' @ ss # post') \<and>
       (\<forall>x\<in>set pre'. \<not> exists fs (x @ root_test_file)) \<and> exists fs (ss @ root_test_file)"
    have sd: "is_dir fs s" using B by (auto simp: is_dir_def iterdir_def split: option.splits node.splits)
    have ssd: "is_dir fs ss" using is_dir_prefix[OF _ test_file_nonempty] B by blast
    have "find_in_subsubdirs fs pre' = None" using B by (simp add: find_in_subsubdirs_None)
    then have "find_in_subsubdirs fs (pre' @ ss # post') = Some ss"
      using B ssd by (simp add: find_in_subsubdirs_append)
    with B sd eq show "find_sdk_root fs d = Inr (Some ss)" by simp
  }
qed

theorem find_sdk_root_preorder_witness:
  "\<not> exists siblings_fs ([''tmp''] @ root_test_file) \<and>
   iterdir siblings_fs [''tmp''] = Inr ([] @ [''tmp'', ''a''] # [[''tmp'', ''b'']]) \<and>
   \<not> exists siblings_fs ([''tmp'', ''a''] @ root_test_file) \<and>
   iterdir siblings_fs [''tmp'', ''a''] = Inr ([] @ [''tmp'', ''a'', ''x''] # []) \<and>
   exists siblings_fs ([''tmp'', ''a'', ''x''] @ root_test_file) \<and>
   find_sdk_root siblings_fs [''tmp''] = Inr (Some [''tmp'', ''a'', ''x''])"
proof -
  have h1: "\<not> exists siblings_fs ([''tmp''] @ root_test_file)" by (simp add: fs_eval)
  have h2: "iterdir siblings_fs [''tmp''] = Inr ([] @ [''tmp'', ''a''] # [[''tmp'', ''b'']])"
    by (simp add: fs_eval)
  have h3: "\<not> exists siblings_fs ([''tmp'', ''a''] @ root_test_file)" by (simp add: fs_eval)
  have h4: "iterdir siblings_fs [''tmp'', ''a''] = Inr ([] @ [''tmp'', ''a'', ''x''] # [])"
    by (simp add: fs_eval)
  have h5: "exists siblings_fs ([''tmp'', ''a'', ''x''] @ root_test_file)" by (simp add: fs_eval)
  have "find_sdk_root siblings_fs [''tmp''] = Inr (Some [''tmp'', ''a'', ''x''])"
    using find_sdk_root_preorder[of siblings_fs "[''tmp'']" "[]" "[''tmp'', ''a'']"
        "[[''tmp'', ''b'']]" "[]" "[''tmp'', ''a'', ''x'']" "[]"] h1 h2 h3 h4 h5
    by simp
  with h1 h2 h3 h4 h5 show ?thesis by blast
qed

text \<open>The search is not level by level: a marker two levels down in the first
  sibling wins over a marker one level down in the second.\<close>

theorem find_sdk_root_level_order_counterexample:
  "exists siblings_fs ([''tmp'', ''b''] @ root_test_file) \<and>
   find_sdk_root siblings_fs [''tmp''] = Inr (Some [''tmp'', ''a'', ''x''])"
  by (simp add: fs_eval)



section \<open>The platform installer and the command line\<close>

lemma PLATFORMS_test_file:
  "map_of PLATFORMS platform = Some config \<Longrightarrow> test_file config = root_test_file"
  by (auto simp: PLATFORMS_def root_test_file_def split: if_splits)

lemma lower_yes: "lower s = codepoints ''y'' \<longleftrightarrow> s = [121] \<or> s = [89]"
proof
  assume l: "lower s = codepoints ''y''"
  then obtain c where s: "s = [c]" by (cases s) (auto simp: lower_def codepoints_def)
  with l show "s = [121] \<or> s = [89]"
    by (auto simp: lower_def codepoints_def split: if_splits)
next
  assume "s = [121] \<or> s = [89]"
  then show "lower s = codepoints ''y''" by (auto simp: lower_def codepoints_def)
qed

text \<open>
  Claim C6. When the target directory of a platform contains the marker file and
  the answer to the overwrite prompt is anything but \<^verbatim>\<open>y\<close> (after stripping and
  lower-casing, that is anything but \<^verbatim>\<open>y\<close> or \<^verbatim>\<open>Y\<close> between white space of
  any kind), \<^verbatim>\<open>setup_platform\<close> returns \<^verbatim>\<open>True\<close>, the disk is the one it was,
  marker file included, and nothing happened but the prompt and the message that
  the platform is skipped: no extraction, no move.
\<close>

theorem decline_overwrite_is_noop:
  assumes "map_of PLATFORMS platform = Some config"
    and "exists (disk st) (SDK_DIR e @ [platform] @ test_file config)"
    and "stdin st = response # rest"
    and "lower (strip response) \<noteq> codepoints ''y''"
  shows "setup_platform e platform archive_path st =
           (Returned True,
            st\<lparr>stdin := rest,
               stdout := stdout st @
                 [Setting_up platform, Already_exists (SDK_DIR e @ [platform]),
                  Overwrite_prompt, Skipping]\<rparr>) \<and>
         disk (snd (setup_platform e platform archive_path st)) = disk st"
  using assms by (simp add: setup_platform_def input_def print_def)

lemmas run_eval = codepoints_def setup_platform_def install_def with_temporary_directory_def
  extract_and_move_def extract_archive_def input_def print_def SDK_DIR_def
  PLATFORMS_def example_env_def find_7z_def suffix_def name_def parent_def
  strip_def lower_def is_space_def cleanup_def rmtree_def move_def
  fresh_disk_def installed_disk_def downloads_def no_args_def

theorem decline_overwrite_is_noop_witness:
  "lower (strip (codepoints '' No '')) \<noteq> codepoints ''y'' \<and>
   lower (strip (0xA0 # codepoints ''Y'' @ [0x85, 0x3000])) = codepoints ''y'' \<and>
   setup_platform example_env ''linux-x64''
      [''home'', ''dev'', ''Downloads'', ''ultralight-sdk-1.4.0-linux-x64.7z'']
      \<lparr>disk = installed_disk, stdin = [codepoints '' No ''], stdout = []\<rparr> =
     (Returned True,
      \<lparr>disk = installed_disk, stdin = [],
       stdout = [Setting_up ''linux-x64'',
                 Already_exists [''proj'', ''native'', ''sdk'', ''linux-x64''],
                 Overwrite_prompt, Skipping]\<rparr>)"
proof -
  have y: "lower (strip (0xA0 # codepoints ''Y'' @ [0x85, 0x3000])) = codepoints ''y''"
    by (simp add: strip_def lower_def is_space_def codepoints_def)
  have c: "map_of PLATFORMS ''linux-x64'' = Some (the (map_of PLATFORMS ''linux-x64''))"
    by (simp add: PLATFORMS_def)
  have m: "exists (disk \<lparr>disk = installed_disk, stdin = [codepoints '' No ''], stdout = []\<rparr>)
             (SDK_DIR example_env @ [''linux-x64''] @
              test_file (the (map_of PLATFORMS ''linux-x64'')))"
    by (simp add: fs_eval run_eval)
  have r: "lower (strip (codepoints '' No '')) \<noteq> codepoints ''y''"
    by code_simp
  have "setup_platform example_env ''linux-x64''
      [''home'', ''dev'', ''Downloads'', ''ultralight-sdk-1.4.0-linux-x64.7z'']
      \<lparr>disk = installed_disk, stdin = [codepoints '' No ''], stdout = []\<rparr> =
     (Returned True,
      \<lparr>disk = installed_disk, stdin = [],
       stdout = [Setting_up ''linux-x64'',
                 Already_exists [''proj'', ''native'', ''sdk'', ''linux-x64''],
                 Overwrite_prompt, Skipping]\<rparr>)"
    using decline_overwrite_is_noop[where rest="[]" and archive_path=
        "[''home'', ''dev'', ''Downloads'', ''ultralight-sdk-1.4.0-linux-x64.7z'']", OF c m _ r]
    by (simp add: SDK_DIR_def example_env_def)
  with r y show ?thesis by blast
qed


lemma disk_report_status [simp]: "disk (report_status e line st) = disk st"
  by (simp add: report_status_def)

lemma disk_print [simp]: "disk (print m st) = disk st"
  by (simp add: print_def)

lemma process_archives_exit:
  "exit_status (fst (summarise e (process_archives e items success st))) =
     (if success \<and> (\<forall>r\<in>set (install_outcomes e items st). r = Returned True) then 0 else 1)"
proof (induction items arbitrary: success st)
  case Nil
  show ?case by (simp add: exit_status_def summarise_def)
next
  case (Cons item items)
  obtain platform archive_path where item: "item = (platform, archive_path)" by (cases item)
  obtain r st' where run: "setup_platform e platform archive_path st = (r, st')"
    by (cases "setup_platform e platform archive_path st")
  show ?case
  proof (cases r)
    case (Raised err)
    then show ?thesis using item run by (simp add: exit_status_def summarise_def)
  next
    case (Returned ok)
    then show ?thesis
      using item run Cons.IH[of "if \<not> ok then False else success" st'] by auto
  qed
qed

lemma install_outcomes_length:
  "\<forall>r\<in>set (install_outcomes e items st). r = Returned True \<Longrightarrow>
     length (install_outcomes e items st) = length items"
proof (induction items arbitrary: st)
  case Nil
  show ?case by simp
next
  case (Cons item items)
  obtain platform archive_path where item: "item = (platform, archive_path)" by (cases item)
  obtain r st' where run: "setup_platform e platform archive_path st = (r, st')"
    by (cases "setup_platform e platform archive_path st")
  show ?case
  proof (cases r)
    case (Raised err)
    then show ?thesis using item run Cons.prems by simp
  next
    case (Returned ok)
    then show ?thesis using item run Cons.prems Cons.IH[of st'] by simp
  qed
qed

lemma main_parsed:
  "main e (Parsed a) st =
     (let st1 = report_status e Current_status (print Banner st) in
      if list_flag a then (Return 0, st1)
      else if collect_archives e (disk st) a = [] then (Return 1, print No_archives_found st1)
      else summarise e
             (process_archives e (collect_archives e (disk st) a) True
                (announce_archives (collect_archives e (disk st) a) st1)))"
  by (simp add: main_def parse_args_def Let_def)

text \<open>
  Claim C3, as the code has it. When the command line asks for help the exit
  status is 0, and when \<^verbatim>\<open>argparse\<close> does not accept it the exit status is 2.
  For a command line that parses: with \<^verbatim>\<open>--list\<close> the exit status is 0,
  whatever the disk holds; without \<^verbatim>\<open>--list\<close> it is 0 when at least one
  archive was assigned and every attempted install returned \<^verbatim>\<open>True\<close> (and then
  every assigned platform was attempted), and 1 otherwise: when no archive was
  found or assigned, when an install returned \<^verbatim>\<open>False\<close>, or when one ended the
  run with an exception. Platforms without an archive are not in the list and
  count for nothing.
\<close>

theorem exit_status_reflects_installs:
  "exit_status (fst (main e Help st)) = 0 \<and>
   exit_status (fst (main e Usage_error st)) = 2 \<and>
   (list_flag a \<longrightarrow> exit_status (fst (main e (Parsed a) st)) = 0) \<and>
   (\<not> list_flag a \<longrightarrow>
      exit_status (fst (main e (Parsed a) st)) =
        (let archives = collect_archives e (disk st) a;
             outcomes = install_outcomes e archives
               (announce_archives archives (report_status e Current_status (print Banner st)))
         in if archives \<noteq> [] \<and> (\<forall>r\<in>set outcomes. r = Returned True) then 0 else 1) \<and>
      (let archives = collect_archives e (disk st) a;
           outcomes = install_outcomes e archives
             (announce_archives archives (report_status e Current_status (print Banner st)))
       in (\<forall>r\<in>set outcomes. r = Returned True) \<longrightarrow> length outcomes = length archives))"
proof (intro conjI impI)
  show "exit_status (fst (main e Help st)) = 0"
    by (simp add: main_def parse_args_def exit_status_def)
  show "exit_status (fst (main e Usage_error st)) = 2"
    by (simp add: main_def parse_args_def exit_status_def)
next
  assume "list_flag a"
  then show "exit_status (fst (main e (Parsed a) st)) = 0"
    by (simp add: main_parsed exit_status_def)
next
  let ?st1 = "report_status e Current_status (print Banner st)"
  let ?archives = "collect_archives e (disk st) a"
  assume n: "\<not> list_flag a"
  show "exit_status (fst (main e (Parsed a) st)) =
        (let archives = collect_archives e (disk st) a;
             outcomes = install_outcomes e archives
               (announce_archives archives (report_status e Current_status (print Banner st)))
         in if archives \<noteq> [] \<and> (\<forall>r\<in>set outcomes. r = Returned True) then 0 else 1)"
  proof (cases "?archives = []")
    case True
    then show ?thesis using n by (simp add: main_parsed exit_status_def)
  next
    case False
    then show ?thesis
      using n process_archives_exit[of e ?archives True "announce_archives ?archives ?st1"]
      by (simp add: main_parsed Let_def)
  qed
  show "let archives = collect_archives e (disk st) a;
           outcomes = install_outcomes e archives
             (announce_archives archives (report_status e Current_status (print Banner st)))
       in (\<forall>r\<in>set outcomes. r = Returned True) \<longrightarrow> length outcomes = length archives"
    using install_outcomes_length[of e ?archives "announce_archives ?archives ?st1"]
    by (simp add: Let_def)
qed

theorem exit_status_reflects_installs_witness:
  "\<not> list_flag linux_args \<and>
   collect_archives example_env fresh_disk linux_args = [(''linux-x64'', linux_archive)] \<and>
   install_outcomes example_env [(''linux-x64'', linux_archive)]
     (announce_archives [(''linux-x64'', linux_archive)]
        (report_status example_env Current_status
           (print Banner \<lparr>disk = fresh_disk, stdin = [], stdout = []\<rparr>))) = [Returned True] \<and>
   exit_status (fst (main example_env (Parsed linux_args)
     \<lparr>disk = fresh_disk, stdin = [], stdout = []\<rparr>)) = 0 \<and>
   list_flag list_args \<and>
   exit_status (fst (main example_env (Parsed list_args)
     \<lparr>disk = fresh_disk, stdin = [], stdout = []\<rparr>)) = 0"
proof -
  let ?st = "\<lparr>disk = fresh_disk, stdin = [], stdout = []\<rparr>"
  have h: "\<not> list_flag linux_args" by (simp add: linux_args_def)
  have l: "list_flag list_args" by (simp add: list_args_def)
  have c: "collect_archives example_env fresh_disk linux_args = [(''linux-x64'', linux_archive)]"
    by code_simp
  have o: "install_outcomes example_env [(''linux-x64'', linux_archive)]
     (announce_archives [(''linux-x64'', linux_archive)]
        (report_status example_env Current_status (print Banner ?st))) = [Returned True]"
    by code_simp
  have "exit_status (fst (main example_env (Parsed linux_args) ?st)) = 0"
    using exit_status_reflects_installs[of example_env ?st linux_args] h c o
    by (simp add: Let_def del: install_outcomes.simps)
  moreover have "exit_status (fst (main example_env (Parsed list_args) ?st)) = 0"
    using exit_status_reflects_installs[of example_env ?st list_args] l by blast
  ultimately show ?thesis using h l c o by blast
qed

text \<open>With \<^verbatim>\<open>--list\<close> the run ends with status 0 before any archive is looked for,
  on a disk where none would be found.\<close>

theorem list_exit_status_counterexample:
  "collect_archives example_env empty_disk list_args = [] \<and>
   exit_status (fst (main example_env (Parsed list_args)
     \<lparr>disk = empty_disk, stdin = [], stdout = []\<rparr>)) = 0"
  by code_simp


lemma extract_archive_zip:
  "suffix archive_path = ''.zip'' \<Longrightarrow>
     fst (extract_archive e archive_path dest_dir st) \<noteq> Returned False"
  by (auto simp: extract_archive_def Let_def split: sum.splits prod.splits option.splits)

lemma extract_archive_False:
  "fst (extract_archive e archive_path dest_dir st) = Returned False \<Longrightarrow>
     (suffix archive_path = ''.7z'' \<and>
        (find_7z e = None \<or>
         (\<exists>sevenz fs1. find_7z e = Some sevenz \<and> mkdir (disk st) dest_dir = Inr fs1 \<and>
            fst (run_7z e sevenz fs1 archive_path dest_dir) \<noteq> 0))) \<or>
     (suffix archive_path \<noteq> ''.7z'' \<and> suffix archive_path \<noteq> ''.zip'')"
  by (auto simp: extract_archive_def Let_def print_def
      split: sum.splits prod.splits option.splits if_splits)

lemma install_raises:
  assumes "mkdtemp (disk st) (tempdir e) (temp_names e) = Inr (tmp, fs1)"
    and "fst (extract_archive e archive_path tmp (st\<lparr>disk := fs1\<rparr>)) = Raised err"
  shows "fst (install e archive_path target_dir tf st) = Raised err"
  using assms
  by (cases "extract_archive e archive_path tmp (st\<lparr>disk := fs1\<rparr>)")
     (simp add: install_def with_temporary_directory_def extract_and_move_def)

lemma process_archives_raises:
  "fst (setup_platform e platform archive_path st) = Raised err \<Longrightarrow>
     process_archives e ((platform, archive_path) # rest) success st =
       (Raised err, snd (setup_platform e platform archive_path st))"
  by (cases "setup_platform e platform archive_path st") simp

lemma setup_platform_no_marker:
  assumes "map_of PLATFORMS platform = Some config"
    and "\<not> exists (disk st) (SDK_DIR e @ [platform] @ test_file config)"
  shows "setup_platform e platform archive_path st =
           install e archive_path (SDK_DIR e @ [platform]) (test_file config)
             (print (Setting_up platform) st)"
  using assms by (simp add: setup_platform_def Let_def)

lemma setup_platform_overwrite:
  assumes "map_of PLATFORMS platform = Some config"
    and "exists (disk st) (SDK_DIR e @ [platform] @ test_file config)"
    and "stdin st = response # rest"
    and "lower (strip response) = codepoints ''y''"
    and "rmtree (disk st) (SDK_DIR e @ [platform]) = Inr fs'"
  shows "setup_platform e platform archive_path st =
           install e archive_path (SDK_DIR e @ [platform]) (test_file config)
             (st\<lparr>disk := fs', stdin := rest,
                 stdout := stdout st @
                   [Setting_up platform, Already_exists (SDK_DIR e @ [platform]),
                    Overwrite_prompt]\<rparr>)"
  using assms by (cases st) (simp add: setup_platform_def Let_def input_def print_def)

lemma process_archives_append:
  "process_archives e (pre @ post) success st =
     (case process_archives e pre success st of
        (Raised err, st') \<Rightarrow> (Raised err, st')
      | (Returned s, st') \<Rightarrow> process_archives e post s st')"
proof (induction pre arbitrary: success st)
  case Nil
  show ?case by simp
next
  case (Cons item pre)
  obtain platform archive_path where item: "item = (platform, archive_path)" by (cases item)
  obtain r st' where run: "setup_platform e platform archive_path st = (r, st')"
    by (cases "setup_platform e platform archive_path st")
  show ?case
    using item run Cons.IH by (cases r) simp_all
qed

lemma main_raises:
  assumes "\<not> list_flag a" and "collect_archives e (disk st) a \<noteq> []"
    and "fst (process_archives e (collect_archives e (disk st) a) True
           (announce_archives (collect_archives e (disk st) a)
              (report_status e Current_status (print Banner st)))) = Raised err"
  shows "fst (main e (Parsed a) st) = Uncaught err"
  using assms
  by (cases "process_archives e (collect_archives e (disk st) a) True
           (announce_archives (collect_archives e (disk st) a)
              (report_status e Current_status (print Banner st)))")
     (simp add: main_parsed summarise_def)

text \<open>
  Claim C9. For an archive with the suffix \<^verbatim>\<open>.zip\<close>, \<^verbatim>\<open>extract_archive\<close> returns
  \<^verbatim>\<open>True\<close> or raises; it returns \<^verbatim>\<open>False\<close> only for a \<^verbatim>\<open>.7z\<close> archive (no 7z
  tool found, or the tool ended with a non-zero return code) and for a suffix it
  does not know. An exception raised while extracting is caught nowhere. It
  leaves \<^verbatim>\<open>setup_platform\<close> on both ways that lead to extraction, with no
  marker file in the target directory and after a confirmed overwrite; it leaves
  the loop of \<^verbatim>\<open>main\<close> wherever the platform stands in it, with the remaining
  platforms not attempted; it leaves \<^verbatim>\<open>main\<close>, and the process ends with
  status 1.
\<close>

theorem zip_failure_terminates_run:
  "(suffix archive_path = ''.zip'' \<longrightarrow>
      fst (extract_archive e archive_path dest_dir st) = Returned True \<or>
      (\<exists>err. fst (extract_archive e archive_path dest_dir st) = Raised err)) \<and>
   (fst (extract_archive e archive_path dest_dir st) = Returned False \<longrightarrow>
      (suffix archive_path = ''.7z'' \<and>
         (find_7z e = None \<or>
          (\<exists>sevenz fs1. find_7z e = Some sevenz \<and> mkdir (disk st) dest_dir = Inr fs1 \<and>
             fst (run_7z e sevenz fs1 archive_path dest_dir) \<noteq> 0))) \<or>
      (suffix archive_path \<noteq> ''.7z'' \<and> suffix archive_path \<noteq> ''.zip'')) \<and>
   (map_of PLATFORMS platform = Some config \<and>
    \<not> exists (disk st) (SDK_DIR e @ [platform] @ test_file config) \<and>
    mkdtemp (disk st) (tempdir e) (temp_names e) = Inr (tmp, fs1) \<and>
    fst (extract_archive e archive_path tmp (print (Setting_up platform) st\<lparr>disk := fs1\<rparr>)) =
      Raised err \<longrightarrow>
      fst (setup_platform e platform archive_path st) = Raised err) \<and>
   (map_of PLATFORMS platform = Some config \<and>
    exists (disk st) (SDK_DIR e @ [platform] @ test_file config) \<and>
    stdin st = response # rest \<and> lower (strip response) = codepoints ''y'' \<and>
    rmtree (disk st) (SDK_DIR e @ [platform]) = Inr fs' \<and>
    mkdtemp fs' (tempdir e) (temp_names e) = Inr (tmp, fs1) \<and>
    fst (extract_archive e archive_path tmp
          (st\<lparr>disk := fs1, stdin := rest,
              stdout := stdout st @
                [Setting_up platform, Already_exists (SDK_DIR e @ [platform]),
                 Overwrite_prompt]\<rparr>)) = Raised err \<longrightarrow>
      fst (setup_platform e platform archive_path st) = Raised err) \<and>
   (process_archives e earlier True st0 = (Returned success, st) \<and>
    fst (setup_platform e platform archive_path st) = Raised err \<longrightarrow>
      process_archives e (earlier @ (platform, archive_path) # later) True st0 =
        (Raised err, snd (setup_platform e platform archive_path st))) \<and>
   (\<not> list_flag a \<and> collect_archives e (disk st) a \<noteq> [] \<and>
    fst (process_archives e (collect_archives e (disk st) a) True
           (announce_archives (collect_archives e (disk st) a)
              (report_status e Current_status (print Banner st)))) = Raised err \<longrightarrow>
      fst (main e (Parsed a) st) = Uncaught err \<and>
      exit_status (fst (main e (Parsed a) st)) = 1)"
proof (intro conjI impI)
  assume z: "suffix archive_path = ''.zip''"
  show "fst (extract_archive e archive_path dest_dir st) = Returned True \<or>
      (\<exists>err. fst (extract_archive e archive_path dest_dir st) = Raised err)"
  proof (cases "fst (extract_archive e archive_path dest_dir st)")
    case (Returned ok)
    then show ?thesis using extract_archive_zip[OF z, of e dest_dir st] by (cases ok) auto
  next
    case (Raised err)
    then show ?thesis by simp
  qed
next
  assume "fst (extract_archive e archive_path dest_dir st) = Returned False"
  then show "(suffix archive_path = ''.7z'' \<and>
         (find_7z e = None \<or>
          (\<exists>sevenz fs1. find_7z e = Some sevenz \<and> mkdir (disk st) dest_dir = Inr fs1 \<and>
             fst (run_7z e sevenz fs1 archive_path dest_dir) \<noteq> 0))) \<or>
      (suffix archive_path \<noteq> ''.7z'' \<and> suffix archive_path \<noteq> ''.zip'')"
    by (rule extract_archive_False)
next
  assume A: "map_of PLATFORMS platform = Some config \<and>
    \<not> exists (disk st) (SDK_DIR e @ [platform] @ test_file config) \<and>
    mkdtemp (disk st) (tempdir e) (temp_names e) = Inr (tmp, fs1) \<and>
    fst (extract_archive e archive_path tmp (print (Setting_up platform) st\<lparr>disk := fs1\<rparr>)) =
      Raised err"
  have eq: "setup_platform e platform archive_path st =
      install e archive_path (SDK_DIR e @ [platform]) (test_file config)
        (print (Setting_up platform) st)"
    using A setup_platform_no_marker by blast
  have "fst (install e archive_path (SDK_DIR e @ [platform]) (test_file config)
        (print (Setting_up platform) st)) = Raised err"
    using A by (intro install_raises[where tmp=tmp and ?fs1.0=fs1]) simp_all
  with eq show "fst (setup_platform e platform archive_path st) = Raised err" by simp
next
  assume B: "map_of PLATFORMS platform = Some config \<and>
    exists (disk st) (SDK_DIR e @ [platform] @ test_file config) \<and>
    stdin st = response # rest \<and> lower (strip response) = codepoints ''y'' \<and>
    rmtree (disk st) (SDK_DIR e @ [platform]) = Inr fs' \<and>
    mkdtemp fs' (tempdir e) (temp_names e) = Inr (tmp, fs1) \<and>
    fst (extract_archive e archive_path tmp
          (st\<lparr>disk := fs1, stdin := rest,
              stdout := stdout st @
                [Setting_up platform, Already_exists (SDK_DIR e @ [platform]),
                 Overwrite_prompt]\<rparr>)) = Raised err"
  let ?s = "st\<lparr>disk := fs', stdin := rest,
                 stdout := stdout st @
                   [Setting_up platform, Already_exists (SDK_DIR e @ [platform]),
                    Overwrite_prompt]\<rparr>"
  have eq: "setup_platform e platform archive_path st =
      install e archive_path (SDK_DIR e @ [platform]) (test_file config) ?s"
    using B setup_platform_overwrite by blast
  have t: "mkdtemp (disk ?s) (tempdir e) (temp_names e) = Inr (tmp, fs1)" using B by simp
  have s1: "?s\<lparr>disk := fs1\<rparr> =
      st\<lparr>disk := fs1, stdin := rest,
          stdout := stdout st @
            [Setting_up platform, Already_exists (SDK_DIR e @ [platform]),
             Overwrite_prompt]\<rparr>"
    by (cases st) simp
  have x: "fst (extract_archive e archive_path tmp (?s\<lparr>disk := fs1\<rparr>)) = Raised err"
    unfolding s1 using B by blast
  from install_raises[OF t x] eq
  show "fst (setup_platform e platform archive_path st) = Raised err" by simp
next
  assume C: "process_archives e earlier True st0 = (Returned success, st) \<and>
    fst (setup_platform e platform archive_path st) = Raised err"
  then show "process_archives e (earlier @ (platform, archive_path) # later) True st0 =
        (Raised err, snd (setup_platform e platform archive_path st))"
    using process_archives_raises[of e platform archive_path st err later success]
    by (simp add: process_archives_append)
next
  assume D: "\<not> list_flag a \<and> collect_archives e (disk st) a \<noteq> [] \<and>
    fst (process_archives e (collect_archives e (disk st) a) True
           (announce_archives (collect_archives e (disk st) a)
              (report_status e Current_status (print Banner st)))) = Raised err"
  then show m: "fst (main e (Parsed a) st) = Uncaught err" using main_raises by blast
  show "exit_status (fst (main e (Parsed a) st)) = 1" using m by (simp add: exit_status_def)
qed

theorem zip_failure_terminates_run_witness:
  "\<not> list_flag no_args \<and>
   collect_archives example_env fresh_disk no_args \<noteq> [] \<and>
   fst (main example_env (Parsed no_args) \<lparr>disk = fresh_disk, stdin = [], stdout = []\<rparr>) =
     Uncaught (ZipError ''File is not a zip file'') \<and>
   exit_status (fst (main example_env (Parsed no_args)
     \<lparr>disk = fresh_disk, stdin = [], stdout = []\<rparr>)) = 1"
proof -
  let ?st = "\<lparr>disk = fresh_disk, stdin = [], stdout = []\<rparr>"
  have h1: "\<not> list_flag no_args" by (simp add: no_args_def)
  have h2: "collect_archives example_env (disk ?st) no_args \<noteq> []" by code_simp
  have h3: "fst (process_archives example_env (collect_archives example_env (disk ?st) no_args) True
           (announce_archives (collect_archives example_env (disk ?st) no_args)
              (report_status example_env Current_status (print Banner ?st)))) =
        Raised (ZipError ''File is not a zip file'')"
    by code_simp
  have "fst (main example_env (Parsed no_args) ?st) = Uncaught (ZipError ''File is not a zip file'') \<and>
        exit_status (fst (main example_env (Parsed no_args) ?st)) = 1"
    using zip_failure_terminates_run[where e=example_env and st="?st" and a=no_args] h1 h2 h3
    by blast
  with h1 h2 show ?thesis by (simp add: exit_status_def)
qed

section \<open>The archive locator\<close>

lemma find_append_case:
  "find P (xs @ ys) = (case find P xs of None \<Rightarrow> find P ys | Some x \<Rightarrow> Some x)"
  by (induction xs) auto

lemma find_archives_exts_find:
  "find_archives_exts fs d platform pattern exts archives =
     (case find (\<lambda>pat. glob fs d pat \<noteq> []) (map (\<lambda>ext. pattern @ ext) exts) of
        None \<Rightarrow> archives
      | Some pat \<Rightarrow> AList.update platform (last (sort (glob fs d pat))) archives)"
  by (induction exts) (auto simp: Let_def)

lemma find_archives_patterns_find:
  "platform \<notin> fst ` set archives \<Longrightarrow>
   find_archives_patterns fs d platform patterns archives =
     (case find (\<lambda>pat. glob fs d pat \<noteq> [])
             (concat (map (\<lambda>pattern. map (\<lambda>ext. pattern @ ext) [''.7z'', ''.zip'']) patterns)) of
        None \<Rightarrow> archives
      | Some pat \<Rightarrow> AList.update platform (last (sort (glob fs d pat))) archives)"
proof (induction patterns)
  case Nil
  show ?case by simp
next
  case (Cons pattern patterns)
  let ?here = "find (\<lambda>pat. glob fs d pat \<noteq> []) (map (\<lambda>ext. pattern @ ext) [''.7z'', ''.zip''])"
  show ?case
  proof (cases ?here)
    case None
    have e: "find_archives_exts fs d platform pattern [''.7z'', ''.zip''] archives = archives"
      using None by (simp only: find_archives_exts_find option.case)
    have l: "find_archives_patterns fs d platform (pattern # patterns) archives =
        find_archives_patterns fs d platform patterns archives"
      using Cons.prems by (simp only: find_archives_patterns.simps Let_def e if_False)
    have r: "find (\<lambda>pat. glob fs d pat \<noteq> [])
        (concat (map (\<lambda>pattern. map (\<lambda>ext. pattern @ ext) [''.7z'', ''.zip'']) (pattern # patterns))) =
      find (\<lambda>pat. glob fs d pat \<noteq> [])
        (concat (map (\<lambda>pattern. map (\<lambda>ext. pattern @ ext) [''.7z'', ''.zip'']) patterns))"
      using None by (simp only: list.map concat.simps find_append_case option.case)
    show ?thesis unfolding l r using Cons.IH[OF Cons.prems] .
  next
    case (Some pat)
    have u: "find_archives_exts fs d platform pattern [''.7z'', ''.zip''] archives =
        AList.update platform (last (sort (glob fs d pat))) archives"
      using Some by (simp only: find_archives_exts_find option.case)
    have k: "platform \<in> fst ` set (AList.update platform (last (sort (glob fs d pat))) archives)"
      by (simp add: dom_update)
    have l: "find_archives_patterns fs d platform (pattern # patterns) archives =
        AList.update platform (last (sort (glob fs d pat))) archives"
      using k by (simp only: find_archives_patterns.simps Let_def u if_True)
    have r: "find (\<lambda>pat. glob fs d pat \<noteq> [])
        (concat (map (\<lambda>pattern. map (\<lambda>ext. pattern @ ext) [''.7z'', ''.zip'']) (pattern # patterns))) =
      Some pat"
      using Some by (simp only: list.map concat.simps find_append_case option.case)
    show ?thesis unfolding l r by simp
  qed
qed

lemma find_archives_patterns_locate:
  "platform \<notin> fst ` set archives \<Longrightarrow>
   find_archives_patterns fs d platform (archive_patterns config) archives =
     (case locate fs d config of None \<Rightarrow> archives | Some a \<Rightarrow> AList.update platform a archives)"
  by (simp add: find_archives_patterns_find locate_def candidate_patterns_def split: option.splits)

lemma find_archives_platforms_locate:
  "distinct (map fst ps) \<Longrightarrow> fst ` set ps \<inter> fst ` set archives = {} \<Longrightarrow>
   map_of (find_archives_platforms fs d ps archives) platform =
     (case map_of ps platform of
        None \<Rightarrow> map_of archives platform
      | Some config \<Rightarrow> locate fs d config)"
proof (induction ps arbitrary: archives)
  case Nil
  show ?case by simp
next
  case (Cons pc ps)
  obtain p config where pc: "pc = (p, config)" by (cases pc)
  let ?a1 = "find_archives_patterns fs d p (archive_patterns config) archives"
  have pn: "p \<notin> fst ` set archives" using Cons.prems pc by auto
  have a1: "?a1 = (case locate fs d config of None \<Rightarrow> archives
                   | Some a \<Rightarrow> AList.update p a archives)"
    using find_archives_patterns_locate[OF pn] .
  have keys: "fst ` set ?a1 \<subseteq> insert p (fst ` set archives)"
    unfolding a1 by (auto simp: dom_update split: option.splits)
  have d: "distinct (map fst ps)" and pps: "p \<notin> fst ` set ps"
    using Cons.prems pc by auto
  have "fst ` set ps \<inter> fst ` set archives = {}" using Cons.prems(2) by auto
  with keys pps have disj: "fst ` set ps \<inter> fst ` set ?a1 = {}" by blast
  have IH: "map_of (find_archives_platforms fs d ps ?a1) platform =
     (case map_of ps platform of None \<Rightarrow> map_of ?a1 platform | Some config \<Rightarrow> locate fs d config)"
    using Cons.IH[OF d disj] .
  have none: "map_of archives p = None" using pn by (simp add: map_of_eq_None_iff)
  have m1: "map_of ?a1 platform =
      (if platform = p then locate fs d config else map_of archives platform)"
    unfolding a1 using none by (auto simp: update_conv' split: option.splits)
  have psn: "map_of ps p = None" using pps by (simp add: map_of_eq_None_iff)
  show ?case
    using IH m1 psn pc by (auto split: option.splits)
qed

lemma find_archives_locate:
  "exists fs d \<Longrightarrow>
   map_of (find_archives fs d) platform =
     (case map_of PLATFORMS platform of None \<Rightarrow> None | Some config \<Rightarrow> locate fs d config)"
proof -
  assume e: "exists fs d"
  have dist: "distinct (map fst PLATFORMS)" by (simp add: PLATFORMS_def)
  show ?thesis
    using e find_archives_platforms_locate[OF dist, of "[]" fs d platform]
    by (simp add: find_archives_def split: option.splits)
qed

lemma path_le_same_dir: "(d @ [n'] \<le> d @ [n]) = (n' \<le> n)" for d :: path
  by (induction d) auto

lemma sorted_le_last:
  fixes xs :: "'a::linorder list"
  shows "sorted xs \<Longrightarrow> x \<in> set xs \<Longrightarrow> x \<le> last xs"
  by (induction xs) auto

lemma last_sort_greatest:
  fixes ms :: "path list"
  assumes "ms \<noteq> []"
  shows "last (sort ms) \<in> set ms \<and> (\<forall>m\<in>set ms. m \<le> last (sort ms))"
proof -
  have ne: "sort ms \<noteq> []" using assms by (metis length_sort length_0_conv)
  have "last (sort ms) \<in> set (sort ms)" using ne by (rule last_in_set)
  moreover have "\<forall>m\<in>set (sort ms). m \<le> last (sort ms)"
    using sorted_le_last[of "sort ms"] by simp
  ultimately show ?thesis by simp
qed

lemma glob_mem:
  "m \<in> set (glob fs d pat) \<longleftrightarrow> (\<exists>n. m = d @ [n] \<and> is_dir fs d \<and> exists fs (d @ [n]) \<and> glob_match pat n)"
proof (cases "lookup fs d")
  case None
  then show ?thesis by (simp add: glob_def is_dir_def)
next
  case (Some nd)
  show ?thesis
  proof (cases nd)
    case (File c)
    then show ?thesis using Some by (simp add: glob_def is_dir_def)
  next
    case (Dir es)
    have "\<And>n. exists fs (d @ [n]) = (n \<in> fst ` set es)"
      using exists_child[of fs d es] Some Dir by simp
    then show ?thesis using Some Dir by (auto simp: glob_def is_dir_def)
  qed
qed

lemma locate_Some:
  assumes "locate fs d config = Some a"
  shows "\<exists>pat n. find (\<lambda>pat. glob fs d pat \<noteq> []) (candidate_patterns config) = Some pat \<and>
           a = d @ [n] \<and> exists fs a \<and> glob_match pat n \<and>
           (\<forall>n'. exists fs (d @ [n']) \<and> glob_match pat n' \<longrightarrow> n' \<le> n)"
proof -
  from assms obtain pat where f: "find (\<lambda>pat. glob fs d pat \<noteq> []) (candidate_patterns config) = Some pat"
    and a: "a = last (sort (glob fs d pat))"
    by (auto simp: locate_def split: option.splits)
  from f have ne: "glob fs d pat \<noteq> []" by (auto simp: find_Some_iff)
  note g = last_sort_greatest[OF ne]
  from g a have "a \<in> set (glob fs d pat)" by simp
  then obtain n where n: "a = d @ [n]" "is_dir fs d" "exists fs (d @ [n])" "glob_match pat n"
    unfolding glob_mem by blast
  have "\<forall>n'. exists fs (d @ [n']) \<and> glob_match pat n' \<longrightarrow> n' \<le> n"
  proof (intro allI impI)
    fix n' assume h: "exists fs (d @ [n']) \<and> glob_match pat n'"
    then have "d @ [n'] \<in> set (glob fs d pat)" unfolding glob_mem using n(2) by blast
    with g a n(1) have "d @ [n'] \<le> d @ [n]" by simp
    then show "n' \<le> n" by (simp add: path_le_same_dir)
  qed
  with f n show ?thesis by blast
qed


text \<open>
  Claim C5. For a search directory that exists and a platform of the table,
  \<^verbatim>\<open>find_archives\<close> assigns what the first candidate with a match gives, the
  candidates being the platform's patterns in priority order, each with \<^verbatim>\<open>.7z\<close>
  before \<^verbatim>\<open>.zip\<close>; later candidates are not consulted. The path assigned is an
  entry of the directory that matches that candidate and whose name is the
  greatest, in lexicographic order, of the names that match it. On a directory
  that lists \<^verbatim>\<open>ultralight-sdk-1.4.0-linux-x64.7z\<close> and then
  \<^verbatim>\<open>ultralight-sdk-1.3.0-linux-x64.7z\<close>, the 1.4.0 file is assigned to
  \<^verbatim>\<open>linux-x64\<close>.
\<close>

theorem find_archives_first_match:
  "(exists fs d \<and> map_of PLATFORMS platform = Some config \<longrightarrow>
      map_of (find_archives fs d) platform = locate fs d config \<and>
      (\<forall>a. locate fs d config = Some a \<longrightarrow>
         (\<exists>pat n. find (\<lambda>pat. glob fs d pat \<noteq> []) (candidate_patterns config) = Some pat \<and>
            a = d @ [n] \<and> exists fs a \<and> glob_match pat n \<and>
            (\<forall>n'. exists fs (d @ [n']) \<and> glob_match pat n' \<longrightarrow> n' \<le> n)))) \<and>
   map_of (find_archives fresh_disk [''home'', ''dev'', ''Downloads'']) ''linux-x64'' =
     Some [''home'', ''dev'', ''Downloads'', ''ultralight-sdk-1.4.0-linux-x64.7z'']"
proof (intro conjI impI allI)
  assume A: "exists fs d \<and> map_of PLATFORMS platform = Some config"
  then show "map_of (find_archives fs d) platform = locate fs d config"
    by (simp add: find_archives_locate)
next
  fix a
  assume "locate fs d config = Some a"
  then show "\<exists>pat n. find (\<lambda>pat. glob fs d pat \<noteq> []) (candidate_patterns config) = Some pat \<and>
            a = d @ [n] \<and> exists fs a \<and> glob_match pat n \<and>
            (\<forall>n'. exists fs (d @ [n']) \<and> glob_match pat n' \<longrightarrow> n' \<le> n)"
    by (rule locate_Some)
next
  show "map_of (find_archives fresh_disk [''home'', ''dev'', ''Downloads'']) ''linux-x64'' =
     Some [''home'', ''dev'', ''Downloads'', ''ultralight-sdk-1.4.0-linux-x64.7z'']"
    by code_simp
qed

theorem find_archives_first_match_witness:
  "exists fresh_disk [''home'', ''dev'', ''Downloads''] \<and>
   map_of PLATFORMS ''win-x64'' = Some (the (map_of PLATFORMS ''win-x64'')) \<and>
   find (\<lambda>pat. glob fresh_disk [''home'', ''dev'', ''Downloads''] pat \<noteq> [])
     (candidate_patterns (the (map_of PLATFORMS ''win-x64''))) = Some ''*win*x64*.zip'' \<and>
   map_of (find_archives fresh_disk [''home'', ''dev'', ''Downloads'']) ''win-x64'' =
     Some [''home'', ''dev'', ''Downloads'', ''ultralight-sdk-win-x64.zip'']"
proof -
  let ?d = "[''home'', ''dev'', ''Downloads'']"
  let ?c = "the (map_of PLATFORMS ''win-x64'')"
  have h1: "exists fresh_disk ?d" by code_simp
  have h2: "map_of PLATFORMS ''win-x64'' = Some ?c" by (simp add: PLATFORMS_def)
  have f: "find (\<lambda>pat. glob fresh_disk ?d pat \<noteq> []) (candidate_patterns ?c) = Some ''*win*x64*.zip''"
    by code_simp
  have l: "locate fresh_disk ?d ?c = Some [''home'', ''dev'', ''Downloads'', ''ultralight-sdk-win-x64.zip'']"
    by code_simp
  have "map_of (find_archives fresh_disk ?d) ''win-x64'' = locate fresh_disk ?d ?c"
    using find_archives_first_match[of fresh_disk ?d "''win-x64''" ?c] h1 h2 by blast
  with h1 h2 f l show ?thesis by simp
qed


section \<open>The archive assignment\<close>

lemma manual_overrides_map_of: "map_of (manual_overrides a) platform = manual a platform"
  by (cases "win a"; cases "linux a"; cases "mac a"; cases "mac_arm64 a")
     (simp_all add: manual_overrides_def manual_def)

lemma manual_overrides_distinct: "distinct (map fst (manual_overrides a))"
  by (cases "win a"; cases "linux a"; cases "mac a"; cases "mac_arm64 a")
     (simp_all add: manual_overrides_def)

lemma manual_overrides_full:
  "\<not> length (manual_overrides a) < length PLATFORMS \<Longrightarrow>
     win a \<noteq> None \<and> linux a \<noteq> None \<and> mac a \<noteq> None \<and> mac_arm64 a \<noteq> None"
  by (cases "win a"; cases "linux a"; cases "mac a"; cases "mac_arm64 a")
     (simp_all add: manual_overrides_def PLATFORMS_def)

lemma notin_keys: "(k \<notin> fst ` set al) = (map_of al k = None)"
  by (simp add: map_of_eq_None_iff)

lemma add_found_map_of:
  "map_of (add_found found archives) platform =
     (case map_of archives platform of Some p \<Rightarrow> Some p | None \<Rightarrow> map_of found platform)"
proof (induction found arbitrary: archives)
  case Nil
  show ?case by (simp split: option.splits)
next
  case (Cons f found)
  obtain k p where f: "f = (k, p)" by (cases f)
  show ?case
    unfolding f add_found.simps Cons.IH notin_keys
    by (auto simp: update_conv' split: option.splits)
qed

lemma add_found_distinct:
  "distinct (map fst archives) \<Longrightarrow> distinct (map fst (add_found found archives))"
proof (induction found arbitrary: archives)
  case Nil
  then show ?case by simp
next
  case (Cons f found)
  obtain k p where f: "f = (k, p)" by (cases f)
  show ?case
    unfolding f add_found.simps
    by (rule Cons.IH) (simp add: Cons.prems distinct_update)
qed

lemma search_all_map_of:
  "map_of (search_all fs dirs archives) platform =
     (case map_of archives platform of Some p \<Rightarrow> Some p | None \<Rightarrow> first_found fs dirs platform)"
  by (induction dirs arbitrary: archives) (auto simp: add_found_map_of split: option.splits)

lemma search_all_distinct:
  "distinct (map fst archives) \<Longrightarrow> distinct (map fst (search_all fs dirs archives))"
  by (induction dirs arbitrary: archives) (auto simp: add_found_distinct)

lemma find_archives_platform_only:
  "manual a platform = None \<Longrightarrow> win a \<noteq> None \<Longrightarrow> linux a \<noteq> None \<Longrightarrow> mac a \<noteq> None \<Longrightarrow>
     mac_arm64 a \<noteq> None \<Longrightarrow> map_of (find_archives fs d) platform = None"
proof (cases "exists fs d")
  case False
  then show ?thesis by (simp add: find_archives_def)
next
  case True
  assume "manual a platform = None" "win a \<noteq> None" "linux a \<noteq> None" "mac a \<noteq> None"
    "mac_arm64 a \<noteq> None"
  then have "map_of PLATFORMS platform = None"
    by (auto simp: manual_def PLATFORMS_def split: if_splits)
  then show ?thesis using find_archives_locate[OF True, of platform] by simp
qed

lemma first_found_platform_only:
  "manual a platform = None \<Longrightarrow> win a \<noteq> None \<Longrightarrow> linux a \<noteq> None \<Longrightarrow> mac a \<noteq> None \<Longrightarrow>
     mac_arm64 a \<noteq> None \<Longrightarrow> first_found fs dirs platform = None"
  by (induction dirs) (auto simp: find_archives_platform_only)

lemma collect_archives_map_of:
  "map_of (collect_archives e fs a) platform =
     (case manual a platform of
        Some p \<Rightarrow> Some p
      | None \<Rightarrow> first_found fs (search_dirs e a) platform)"
proof (cases "length (manual_overrides a) < length PLATFORMS")
  case True
  then show ?thesis
    by (simp add: collect_archives_def Let_def search_all_map_of manual_overrides_map_of)
next
  case False
  note full = manual_overrides_full[OF False]
  show ?thesis
  proof (cases "manual a platform")
    case None
    then have "first_found fs (search_dirs e a) platform = None"
      using full by (intro first_found_platform_only) auto
    then show ?thesis
      using False None by (simp add: collect_archives_def Let_def manual_overrides_map_of)
  next
    case (Some p)
    then show ?thesis
      using False by (simp add: collect_archives_def Let_def manual_overrides_map_of)
  qed
qed

lemma collect_archives_distinct: "distinct (map fst (collect_archives e fs a))"
  by (simp add: collect_archives_def Let_def search_all_distinct manual_overrides_distinct)

lemma add_found_hd: "\<exists>ys. add_found found (x # xs) = x # ys"
proof (induction found arbitrary: xs)
  case Nil
  show ?case by simp
next
  case (Cons f found)
  obtain k p where f: "f = (k, p)" by (cases f)
  show ?case
  proof (cases "k \<in> fst ` set (x # xs)")
    case True
    then show ?thesis using f Cons.IH[of xs] by simp
  next
    case False
    then have "AList.update k p (x # xs) = x # AList.update k p xs" by auto
    then show ?thesis using f False Cons.IH[of "AList.update k p xs"] by simp
  qed
qed

lemma search_all_hd: "\<exists>ys. search_all fs dirs (x # xs) = x # ys"
proof (induction dirs arbitrary: xs)
  case Nil
  show ?case by simp
next
  case (Cons d dirs)
  obtain ys where "add_found (find_archives fs d) (x # xs) = x # ys"
    using add_found_hd by blast
  then show ?case using Cons.IH[of ys] by simp
qed

lemma manual_overrides_win:
  "win a = Some p \<Longrightarrow> \<exists>ys. manual_overrides a = (''win-x64'', p) # ys"
  by (cases "linux a"; cases "mac a"; cases "mac_arm64 a") (simp_all add: manual_overrides_def)

lemma collect_archives_win:
  assumes "win a = Some p"
  shows "\<exists>rest. collect_archives e fs a = (''win-x64'', p) # rest \<and>
           ''win-x64'' \<notin> fst ` set rest"
proof -
  obtain ys where m: "manual_overrides a = (''win-x64'', p) # ys"
    using manual_overrides_win[OF assms] by blast
  have "\<exists>rest. collect_archives e fs a = (''win-x64'', p) # rest"
  proof (cases "length (manual_overrides a) < length PLATFORMS")
    case True
    then have "collect_archives e fs a = search_all fs (search_dirs e a) ((''win-x64'', p) # ys)"
      using m by (simp add: collect_archives_def Let_def)
    then show ?thesis using search_all_hd[of fs "search_dirs e a" "(''win-x64'', p)" ys] by simp
  next
    case False
    then have "collect_archives e fs a = (''win-x64'', p) # ys"
      using m by (simp add: collect_archives_def Let_def)
    then show ?thesis by blast
  qed
  then obtain rest where c: "collect_archives e fs a = (''win-x64'', p) # rest" by blast
  have "distinct (map fst (collect_archives e fs a))" by (rule collect_archives_distinct)
  then have "''win-x64'' \<notin> fst ` set rest" unfolding c by simp
  with c show ?thesis by blast
qed

lemma collect_archives_split:
  assumes "map_of (collect_archives e fs a) platform = Some p"
  shows "\<exists>earlier later. collect_archives e fs a = earlier @ (platform, p) # later \<and>
           platform \<notin> fst ` set earlier \<and> platform \<notin> fst ` set later"
proof -
  have "(platform, p) \<in> set (collect_archives e fs a)" using assms by (rule map_of_SomeD)
  then obtain earlier later where c: "collect_archives e fs a = earlier @ (platform, p) # later"
    by (auto simp: in_set_conv_decomp)
  have "distinct (map fst (collect_archives e fs a))" by (rule collect_archives_distinct)
  then have "platform \<notin> fst ` set earlier \<and> platform \<notin> fst ` set later"
    unfolding c by auto
  with c show ?thesis by blast
qed

text \<open>
  Claim C4. The archives that \<^verbatim>\<open>main\<close> collects hold at most one path for a
  platform. A platform with a path on the command line (\<^verbatim>\<open>--win\<close>, \<^verbatim>\<open>--linux\<close>,
  \<^verbatim>\<open>--mac\<close>, \<^verbatim>\<open>--mac-arm64\<close>) is assigned that path, whatever the search
  directories hold; a platform without one is assigned what the first search
  directory with a match for it found, and no later directory changes that. The
  path given on the command line is the one installed: the loop over the
  archives calls \<^verbatim>\<open>setup_platform\<close> for that platform once, with that path,
  unless an install before it ended the run with an exception. With \<^verbatim>\<open>--win\<close>,
  the first thing \<^verbatim>\<open>main\<close> installs is \<^verbatim>\<open>win-x64\<close> from the path given, and the
  rest of the run has no other install for \<^verbatim>\<open>win-x64\<close>.
\<close>

theorem archive_assignment_precedence:
  "distinct (map fst (collect_archives e fs a)) \<and>
   map_of (collect_archives e fs a) platform =
     (case manual a platform of
        Some p \<Rightarrow> Some p
      | None \<Rightarrow> first_found fs (search_dirs e a) platform) \<and>
   (manual a platform = Some p \<longrightarrow>
      (\<exists>earlier later.
         collect_archives e fs a = earlier @ (platform, p) # later \<and>
         platform \<notin> fst ` set earlier \<and> platform \<notin> fst ` set later \<and>
         (\<forall>success st0.
            process_archives e (collect_archives e fs a) success st0 =
              (case process_archives e earlier success st0 of
                 (Raised err, st') \<Rightarrow> (Raised err, st')
               | (Returned s, st') \<Rightarrow>
                   (case setup_platform e platform p st' of
                      (Raised err, st'') \<Rightarrow> (Raised err, st'')
                    | (Returned ok, st'') \<Rightarrow>
                        process_archives e later (if \<not> ok then False else s) st''))))) \<and>
   (win a = Some p \<and> \<not> list_flag a \<longrightarrow>
      (\<exists>rest.
         collect_archives e (disk st) a = (''win-x64'', p) # rest \<and>
         ''win-x64'' \<notin> fst ` set rest \<and>
         main e (Parsed a) st =
           (case setup_platform e ''win-x64'' p
                   (announce_archives ((''win-x64'', p) # rest)
                      (report_status e Current_status (print Banner st))) of
              (Raised err, st') \<Rightarrow> (Uncaught err, st')
            | (Returned ok, st') \<Rightarrow> summarise e (process_archives e rest ok st'))))"
proof (intro conjI impI)
  show "distinct (map fst (collect_archives e fs a))" by (rule collect_archives_distinct)
  show "map_of (collect_archives e fs a) platform =
     (case manual a platform of
        Some p \<Rightarrow> Some p
      | None \<Rightarrow> first_found fs (search_dirs e a) platform)"
    by (rule collect_archives_map_of)
next
  assume "manual a platform = Some p"
  then have "map_of (collect_archives e fs a) platform = Some p"
    by (simp add: collect_archives_map_of)
  from collect_archives_split[OF this] obtain earlier later where
    c: "collect_archives e fs a = earlier @ (platform, p) # later" and
    k: "platform \<notin> fst ` set earlier" "platform \<notin> fst ` set later"
    by blast
  have "\<forall>success st0.
            process_archives e (collect_archives e fs a) success st0 =
              (case process_archives e earlier success st0 of
                 (Raised err, st') \<Rightarrow> (Raised err, st')
               | (Returned s, st') \<Rightarrow>
                   (case setup_platform e platform p st' of
                      (Raised err, st'') \<Rightarrow> (Raised err, st'')
                    | (Returned ok, st'') \<Rightarrow>
                        process_archives e later (if \<not> ok then False else s) st''))"
    unfolding c by (auto simp: process_archives_append split: prod.splits outcome.splits)
  with c k show "\<exists>earlier later.
         collect_archives e fs a = earlier @ (platform, p) # later \<and>
         platform \<notin> fst ` set earlier \<and> platform \<notin> fst ` set later \<and>
         (\<forall>success st0.
            process_archives e (collect_archives e fs a) success st0 =
              (case process_archives e earlier success st0 of
                 (Raised err, st') \<Rightarrow> (Raised err, st')
               | (Returned s, st') \<Rightarrow>
                   (case setup_platform e platform p st' of
                      (Raised err, st'') \<Rightarrow> (Raised err, st'')
                    | (Returned ok, st'') \<Rightarrow>
                        process_archives e later (if \<not> ok then False else s) st'')))"
    by blast
next
  assume w: "win a = Some p \<and> \<not> list_flag a"
  then obtain rest where c: "collect_archives e (disk st) a = (''win-x64'', p) # rest"
    and k: "''win-x64'' \<notin> fst ` set rest"
    using collect_archives_win[of a p e "disk st"] by blast
  let ?st1 = "announce_archives ((''win-x64'', p) # rest)
                (report_status e Current_status (print Banner st))"
  obtain r st' where run: "setup_platform e ''win-x64'' p ?st1 = (r, st')"
    by (cases "setup_platform e ''win-x64'' p ?st1")
  have "main e (Parsed a) st =
           (case setup_platform e ''win-x64'' p ?st1 of
              (Raised err, st') \<Rightarrow> (Uncaught err, st')
            | (Returned ok, st') \<Rightarrow> summarise e (process_archives e rest ok st'))"
    using w c run by (cases r) (simp_all add: main_parsed summarise_def)
  with c k show "\<exists>rest.
         collect_archives e (disk st) a = (''win-x64'', p) # rest \<and>
         ''win-x64'' \<notin> fst ` set rest \<and>
         main e (Parsed a) st =
           (case setup_platform e ''win-x64'' p
                   (announce_archives ((''win-x64'', p) # rest)
                      (report_status e Current_status (print Banner st))) of
              (Raised err, st') \<Rightarrow> (Uncaught err, st')
            | (Returned ok, st') \<Rightarrow> summarise e (process_archives e rest ok st'))"
    by blast
qed

theorem archive_assignment_precedence_witness:
  "win win_args = Some [''opt'', ''ultralight-win.7z''] \<and> \<not> list_flag win_args \<and>
   first_found fresh_disk (search_dirs example_env win_args) ''win-x64'' =
     Some [''home'', ''dev'', ''Downloads'', ''ultralight-sdk-win-x64.zip''] \<and>
   collect_archives example_env fresh_disk win_args =
     [(''win-x64'', [''opt'', ''ultralight-win.7z'']),
      (''linux-x64'', [''home'', ''dev'', ''Downloads'', ''ultralight-sdk-1.4.0-linux-x64.7z''])] \<and>
   (case setup_platform example_env ''win-x64'' [''opt'', ''ultralight-win.7z'']
           (announce_archives (collect_archives example_env fresh_disk win_args)
              (report_status example_env Current_status
                 (print Banner \<lparr>disk = fresh_disk, stdin = [], stdout = []\<rparr>))) of
      (Raised err, st') \<Rightarrow> (Uncaught err, st')
    | (Returned ok, st') \<Rightarrow>
        summarise example_env
          (process_archives example_env
             [(''linux-x64'',
               [''home'', ''dev'', ''Downloads'', ''ultralight-sdk-1.4.0-linux-x64.7z''])]
             ok st')) =
     (Return 0,
      \<lparr>disk = both_installed_disk, stdin = [],
       stdout =
         [Banner, Current_status ''win-x64'' False, Current_status ''linux-x64'' False,
          Current_status ''mac-x64'' False, Current_status ''mac-arm64'' False, Found_archives,
          Found_archive ''win-x64'' [''opt'', ''ultralight-win.7z''],
          Found_archive ''linux-x64''
            [''home'', ''dev'', ''Downloads'', ''ultralight-sdk-1.4.0-linux-x64.7z''],
          Setting_up ''win-x64'', Extracting ''ultralight-win.7z'',
          Found_sdk_root [''tmp'', ''tmpk3x9'', ''ultralight-sdk''],
          Installed_to [''proj'', ''native'', ''sdk'', ''win-x64''],
          Setting_up ''linux-x64'', Extracting ''ultralight-sdk-1.4.0-linux-x64.7z'',
          Found_sdk_root [''tmp'', ''tmpk3x9'', ''ultralight-sdk''],
          Installed_to [''proj'', ''native'', ''sdk'', ''linux-x64''],
          Setup_complete, Sdk_status ''win-x64'' True, Sdk_status ''linux-x64'' True,
          Sdk_status ''mac-x64'' False, Sdk_status ''mac-arm64'' False, Next_steps]\<rparr>) \<and>
   main example_env (Parsed win_args) \<lparr>disk = fresh_disk, stdin = [], stdout = []\<rparr> =
     (Return 0,
      \<lparr>disk = both_installed_disk, stdin = [],
       stdout =
         [Banner, Current_status ''win-x64'' False, Current_status ''linux-x64'' False,
          Current_status ''mac-x64'' False, Current_status ''mac-arm64'' False, Found_archives,
          Found_archive ''win-x64'' [''opt'', ''ultralight-win.7z''],
          Found_archive ''linux-x64''
            [''home'', ''dev'', ''Downloads'', ''ultralight-sdk-1.4.0-linux-x64.7z''],
          Setting_up ''win-x64'', Extracting ''ultralight-win.7z'',
          Found_sdk_root [''tmp'', ''tmpk3x9'', ''ultralight-sdk''],
          Installed_to [''proj'', ''native'', ''sdk'', ''win-x64''],
          Setting_up ''linux-x64'', Extracting ''ultralight-sdk-1.4.0-linux-x64.7z'',
          Found_sdk_root [''tmp'', ''tmpk3x9'', ''ultralight-sdk''],
          Installed_to [''proj'', ''native'', ''sdk'', ''linux-x64''],
          Setup_complete, Sdk_status ''win-x64'' True, Sdk_status ''linux-x64'' True,
          Sdk_status ''mac-x64'' False, Sdk_status ''mac-arm64'' False, Next_steps]\<rparr>)"
proof -
  let ?st = "\<lparr>disk = fresh_disk, stdin = [], stdout = []\<rparr>"
  have w: "win win_args = Some [''opt'', ''ultralight-win.7z'']" by (simp add: win_args_def)
  have n: "\<not> list_flag win_args" by (simp add: win_args_def)
  have f: "first_found fresh_disk (search_dirs example_env win_args) ''win-x64'' =
     Some [''home'', ''dev'', ''Downloads'', ''ultralight-sdk-win-x64.zip'']"
    by code_simp
  have c: "collect_archives example_env fresh_disk win_args =
     [(''win-x64'', [''opt'', ''ultralight-win.7z'']),
      (''linux-x64'', [''home'', ''dev'', ''Downloads'', ''ultralight-sdk-1.4.0-linux-x64.7z''])]"
    by code_simp
  from archive_assignment_precedence[of example_env fresh_disk win_args "''win-x64''"
      "[''opt'', ''ultralight-win.7z'']" ?st] w n
  obtain rest where
    r: "collect_archives example_env (disk ?st) win_args =
          (''win-x64'', [''opt'', ''ultralight-win.7z'']) # rest" and
    m: "main example_env (Parsed win_args) ?st =
           (case setup_platform example_env ''win-x64'' [''opt'', ''ultralight-win.7z'']
                   (announce_archives ((''win-x64'', [''opt'', ''ultralight-win.7z'']) # rest)
                      (report_status example_env Current_status (print Banner ?st))) of
              (Raised err, st') \<Rightarrow> (Uncaught err, st')
            | (Returned ok, st') \<Rightarrow>
                summarise example_env (process_archives example_env rest ok st'))"
    by blast
  have rest: "rest = [(''linux-x64'',
      [''home'', ''dev'', ''Downloads'', ''ultralight-sdk-1.4.0-linux-x64.7z''])]"
    using r c by simp
  have m': "main example_env (Parsed win_args) ?st =
     (case setup_platform example_env ''win-x64'' [''opt'', ''ultralight-win.7z'']
             (announce_archives (collect_archives example_env fresh_disk win_args)
                (report_status example_env Current_status (print Banner ?st))) of
        (Raised err, st') \<Rightarrow> (Uncaught err, st')
      | (Returned ok, st') \<Rightarrow>
          summarise example_env
            (process_archives example_env
               [(''linux-x64'',
                 [''home'', ''dev'', ''Downloads'', ''ultralight-sdk-1.4.0-linux-x64.7z''])]
               ok st'))"
    using m unfolding rest c .
  have run: "(case setup_platform example_env ''win-x64'' [''opt'', ''ultralight-win.7z'']
           (announce_archives (collect_archives example_env fresh_disk win_args)
              (report_status example_env Current_status (print Banner ?st))) of
      (Raised err, st') \<Rightarrow> (Uncaught err, st')
    | (Returned ok, st') \<Rightarrow>
        summarise example_env
          (process_archives example_env
             [(''linux-x64'',
               [''home'', ''dev'', ''Downloads'', ''ultralight-sdk-1.4.0-linux-x64.7z''])]
             ok st')) =
     (Return 0,
      \<lparr>disk = both_installed_disk, stdin = [],
       stdout =
         [Banner, Current_status ''win-x64'' False, Current_status ''linux-x64'' False,
          Current_status ''mac-x64'' False, Current_status ''mac-arm64'' False, Found_archives,
          Found_archive ''win-x64'' [''opt'', ''ultralight-win.7z''],
          Found_archive ''linux-x64''
            [''home'', ''dev'', ''Downloads'', ''ultralight-sdk-1.4.0-linux-x64.7z''],
          Setting_up ''win-x64'', Extracting ''ultralight-win.7z'',
          Found_sdk_root [''tmp'', ''tmpk3x9'', ''ultralight-sdk''],
          Installed_to [''proj'', ''native'', ''sdk'', ''win-x64''],
          Setting_up ''linux-x64'', Extracting ''ultralight-sdk-1.4.0-linux-x64.7z'',
          Found_sdk_root [''tmp'', ''tmpk3x9'', ''ultralight-sdk''],
          Installed_to [''proj'', ''native'', ''sdk'', ''linux-x64''],
          Setup_complete, Sdk_status ''win-x64'' True, Sdk_status ''linux-x64'' True,
          Sdk_status ''mac-x64'' False, Sdk_status ''mac-arm64'' False, Next_steps]\<rparr>)"
    by code_simp
  from w n f c run m' show ?thesis by simp
qed

section \<open>Frame properties of the filesystem operations\<close>

lemma store_lookup_below:
  "store fs p n = Some fs' \<Longrightarrow> lookup fs' (p @ q) = lookup n q"
proof (induction fs p n arbitrary: fs' rule: store.induct)
  case (4 es c d p new)
  then show ?case by (auto simp: update_conv' split: option.splits)
qed (auto simp: update_conv')

lemma store_lookup_other:
  "store fs p n = Some fs' \<Longrightarrow> \<not> prefix p q \<Longrightarrow> \<not> prefix q p \<Longrightarrow>
     lookup fs' q = lookup fs q"
proof (induction fs p n arbitrary: fs' q rule: store.induct)
  case (1 n new)
  then show ?case by simp
next
  case (2 uu c p new)
  then show ?case by simp
next
  case (3 es c new)
  then obtain c' q' where q: "q = c' # q'" by (cases q) auto
  with 3 have "c' \<noteq> c" by auto
  with 3 q show ?case by (auto simp: update_conv')
next
  case (4 es c d p new)
  then obtain c' q' where q: "q = c' # q'" by (cases q) auto
  from 4(2) obtain m m' where m: "map_of es c = Some m" "store m (d # p) new = Some m'"
    and fs': "fs' = Dir (AList.update c m' es)"
    by (auto split: option.splits)
  show ?case
  proof (cases "c' = c")
    case False
    then show ?thesis using q fs' by (auto simp: update_conv')
  next
    case True
    with 4(3,4) q have "\<not> prefix (d # p) q'" "\<not> prefix q' (d # p)" by auto
    from 4(1)[OF m this] show ?thesis using q True m fs' by (simp add: update_conv')
  qed
qed

lemma store_is_dir_above:
  "store fs p n = Some fs' \<Longrightarrow> strict_prefix q p \<Longrightarrow> is_dir fs' q"
proof (induction fs p n arbitrary: fs' q rule: store.induct)
  case (1 n new)
  then show ?case by simp
next
  case (2 uu c p new)
  then show ?case by simp
next
  case (3 es c new)
  then have "q = []" by (cases q) (auto simp: strict_prefix_def)
  with 3 show ?case by (auto simp: is_dir_def)
next
  case (4 es c d p new)
  from 4(2) obtain m m' where m: "map_of es c = Some m" "store m (d # p) new = Some m'"
    and fs': "fs' = Dir (AList.update c m' es)"
    by (auto split: option.splits)
  show ?case
  proof (cases q)
    case Nil
    then show ?thesis using fs' by (simp add: is_dir_def)
  next
    case (Cons c' q')
    with 4(3) have c: "c' = c" and s: "strict_prefix q' (d # p)" by (auto simp: strict_prefix_def)
    from 4(1)[OF m s] show ?thesis using Cons c fs' by (simp add: is_dir_def update_conv')
  qed
qed

lemma remove_lookup_below:
  "remove fs p = Some fs' \<Longrightarrow> lookup fs' (p @ q) = None"
proof (induction fs p arbitrary: fs' rule: remove.induct)
  case (3 es c)
  then show ?case by (auto simp: delete_conv' split: if_splits)
next
  case (4 es c d p)
  then show ?case by (auto simp: update_conv' split: option.splits)
qed auto

lemma remove_lookup_other:
  "remove fs p = Some fs' \<Longrightarrow> \<not> prefix p q \<Longrightarrow> \<not> prefix q p \<Longrightarrow>
     lookup fs' q = lookup fs q"
proof (induction fs p arbitrary: fs' q rule: remove.induct)
  case (1 n)
  then show ?case by simp
next
  case (2 uu c p)
  then show ?case by simp
next
  case (3 es c)
  then obtain c' q' where q: "q = c' # q'" by (cases q) auto
  with 3 have "c' \<noteq> c" by auto
  with 3 q show ?case by (auto simp: delete_conv' split: if_splits)
next
  case (4 es c d p)
  then obtain c' q' where q: "q = c' # q'" by (cases q) auto
  from 4(2) obtain m m' where m: "map_of es c = Some m" "remove m (d # p) = Some m'"
    and fs': "fs' = Dir (AList.update c m' es)"
    by (auto split: option.splits)
  show ?case
  proof (cases "c' = c")
    case False
    then show ?thesis using q fs' by (auto simp: update_conv')
  next
    case True
    with 4(3,4) q have "\<not> prefix (d # p) q'" "\<not> prefix q' (d # p)" by auto
    from 4(1)[OF m this] show ?thesis using q True m fs' by (simp add: update_conv')
  qed
qed

lemma remove_is_dir_above:
  "remove fs p = Some fs' \<Longrightarrow> strict_prefix q p \<Longrightarrow> is_dir fs' q"
proof (induction fs p arbitrary: fs' q rule: remove.induct)
  case (1 n)
  then show ?case by simp
next
  case (2 uu c p)
  then show ?case by simp
next
  case (3 es c)
  then have "q = []" by (cases q) (auto simp: strict_prefix_def)
  with 3 show ?case by (auto simp: is_dir_def split: if_splits)
next
  case (4 es c d p)
  from 4(2) obtain m m' where m: "map_of es c = Some m" "remove m (d # p) = Some m'"
    and fs': "fs' = Dir (AList.update c m' es)"
    by (auto split: option.splits)
  show ?case
  proof (cases q)
    case Nil
    then show ?thesis using fs' by (simp add: is_dir_def)
  next
    case (Cons c' q')
    with 4(3) have c: "c' = c" and s: "strict_prefix q' (d # p)" by (auto simp: strict_prefix_def)
    from 4(1)[OF m s] show ?thesis using Cons c fs' by (simp add: is_dir_def update_conv')
  qed
qed

lemma remove_None:
  "remove fs p = None \<Longrightarrow> p \<noteq> [] \<Longrightarrow> lookup fs p = None"
proof (induction fs p rule: remove.induct)
  case (4 es c d p)
  then show ?case by (auto split: option.splits)
qed (auto split: if_splits)

lemma mkdir_existing: "is_dir fs p \<Longrightarrow> mkdir fs p = Inr fs"
proof (induction p arbitrary: fs)
  case Nil
  then show ?case by (cases fs) (auto simp: is_dir_def)
next
  case (Cons c p)
  then obtain es where fs: "fs = Dir es" by (cases fs) (auto simp: is_dir_def)
  with Cons.prems obtain m where m: "map_of es c = Some m" and d: "is_dir m p"
    by (auto simp: is_dir_def split: option.splits)
  from Cons.IH[OF d] show ?case using fs m by (simp add: update_triv)
qed

lemma store_remove_fresh:
  "store fs p n = Some fs' \<Longrightarrow> \<not> exists fs p \<Longrightarrow> remove fs' p = Some fs"
proof (induction fs p n arbitrary: fs' rule: store.induct)
  case (1 n new)
  then show ?case by (simp add: exists_def)
next
  case (2 uu c p new)
  then show ?case by simp
next
  case (3 es c new)
  then have "map_of es c = None" by (auto simp: exists_def split: option.splits)
  then have "c \<notin> fst ` set es" by (simp add: map_of_eq_None_iff)
  with 3 show ?case by (auto simp: update_conv' delete_update_same)
next
  case (4 es c d p new)
  from 4(2) obtain m m' where m: "map_of es c = Some m" "store m (d # p) new = Some m'"
    and fs': "fs' = Dir (AList.update c m' es)"
    by (auto split: option.splits)
  from 4(3) m have "\<not> exists m (d # p)" by (simp add: exists_def)
  from 4(1)[OF m this] show ?case using fs' m by (simp add: update_conv' update_triv)
qed


lemma store_is_dir_kept:
  assumes "store fs p n = Some fs'" and "\<not> prefix p q" and "is_dir fs q"
  shows "is_dir fs' q"
proof (cases "prefix q p")
  case True
  with assms(2) have "strict_prefix q p" by (auto simp: strict_prefix_def)
  then show ?thesis using store_is_dir_above[OF assms(1)] by blast
next
  case False
  then show ?thesis using store_lookup_other[OF assms(1,2)] assms(3) by (simp add: is_dir_def)
qed

lemma store_exists_kept:
  assumes "store fs p n = Some fs'" and "\<not> prefix p q" and "exists fs q"
  shows "exists fs' q"
proof (cases "prefix q p")
  case True
  with assms(2) have "strict_prefix q p" by (auto simp: strict_prefix_def)
  then have "is_dir fs' q" using store_is_dir_above[OF assms(1)] by blast
  then show ?thesis by (auto simp: is_dir_def exists_def split: option.splits)
next
  case False
  then show ?thesis using store_lookup_other[OF assms(1,2)] assms(3) by (simp add: exists_def)
qed

lemma remove_is_dir_kept:
  assumes "remove fs p = Some fs'" and "\<not> prefix p q" and "is_dir fs q"
  shows "is_dir fs' q"
proof (cases "prefix q p")
  case True
  with assms(2) have "strict_prefix q p" by (auto simp: strict_prefix_def)
  then show ?thesis using remove_is_dir_above[OF assms(1)] by blast
next
  case False
  then show ?thesis using remove_lookup_other[OF assms(1,2)] assms(3) by (simp add: is_dir_def)
qed

lemma remove_exists_kept:
  assumes "remove fs p = Some fs'" and "\<not> prefix p q" and "exists fs q"
  shows "exists fs' q"
proof (cases "prefix q p")
  case True
  with assms(2) have "strict_prefix q p" by (auto simp: strict_prefix_def)
  then have "is_dir fs' q" using remove_is_dir_above[OF assms(1)] by blast
  then show ?thesis by (auto simp: is_dir_def exists_def split: option.splits)
next
  case False
  then show ?thesis using remove_lookup_other[OF assms(1,2)] assms(3) by (simp add: exists_def)
qed

lemma write_entries_lookup_other:
  "\<not> prefix dest q \<Longrightarrow> \<not> prefix q dest \<Longrightarrow> lookup (write_entries fs dest es) q = lookup fs q"
proof (induction es arbitrary: fs)
  case Nil
  show ?case by simp
next
  case (Cons entry es)
  obtain n v where entry: "entry = (n, v)" by (cases entry)
  have a: "\<not> prefix (dest @ [n]) q" using Cons.prems(1) by (auto simp: prefix_def)
  have b: "\<not> prefix q (dest @ [n])" using Cons.prems by (auto simp: prefix_snoc)
  show ?case
  proof (cases "store fs (dest @ [n]) v")
    case None
    then show ?thesis using entry Cons by simp
  next
    case (Some fs1)
    have "lookup (write_entries fs1 dest es) q = lookup fs1 q" using Cons by blast
    also have "\<dots> = lookup fs q" using store_lookup_other[OF Some a b] .
    finally show ?thesis using entry Some by simp
  qed
qed

lemma write_entries_is_dir_kept:
  "\<not> strict_prefix dest q \<Longrightarrow> is_dir fs q \<Longrightarrow> is_dir (write_entries fs dest es) q"
proof (induction es arbitrary: fs)
  case Nil
  then show ?case by simp
next
  case (Cons entry es)
  obtain n v where entry: "entry = (n, v)" by (cases entry)
  have a: "\<not> prefix (dest @ [n]) q"
    using Cons.prems(1) by (auto simp: prefix_def strict_prefix_def)
  show ?case
  proof (cases "store fs (dest @ [n]) v")
    case None
    then show ?thesis using entry Cons by simp
  next
    case (Some fs1)
    have "is_dir fs1 q" using store_is_dir_kept[OF Some a Cons.prems(2)] .
    then show ?thesis using entry Some Cons by simp
  qed
qed

lemma write_entries_exists_kept:
  "\<not> strict_prefix dest q \<Longrightarrow> exists fs q \<Longrightarrow> exists (write_entries fs dest es) q"
proof (induction es arbitrary: fs)
  case Nil
  then show ?case by simp
next
  case (Cons entry es)
  obtain n v where entry: "entry = (n, v)" by (cases entry)
  have a: "\<not> prefix (dest @ [n]) q"
    using Cons.prems(1) by (auto simp: prefix_def strict_prefix_def)
  show ?case
  proof (cases "store fs (dest @ [n]) v")
    case None
    then show ?thesis using entry Cons by simp
  next
    case (Some fs1)
    have "exists fs1 q" using store_exists_kept[OF Some a Cons.prems(2)] .
    then show ?thesis using entry Some Cons by simp
  qed
qed

lemma mkdtemp_Inr:
  "mkdtemp fs dir ns = Inr (tmp, fs1) \<Longrightarrow>
     \<exists>n. tmp = dir @ [''tmp'' @ n] \<and> \<not> exists fs tmp \<and> is_dir fs dir \<and>
         store fs tmp (Dir []) = Some fs1"
  by (induction ns) (auto split: if_splits option.splits)

lemma cleanup_gone: "tmp \<noteq> [] \<Longrightarrow> \<not> exists (cleanup tmp fs) tmp"
proof (cases "remove fs tmp")
  case None
  assume "tmp \<noteq> []"
  with None show ?thesis using remove_None[of fs tmp] by (simp add: cleanup_def exists_def)
next
  case (Some fs')
  then show ?thesis using remove_lookup_below[OF Some, of "[]"] by (simp add: cleanup_def exists_def)
qed

lemma mkdtemp_cleanup:
  assumes "mkdtemp fs dir ns = Inr (tmp, fs1)"
  shows "cleanup tmp fs1 = fs"
proof -
  from mkdtemp_Inr[OF assms] have f: "\<not> exists fs tmp" and s: "store fs tmp (Dir []) = Some fs1"
    by blast+
  show ?thesis using store_remove_fresh[OF s f] by (simp add: cleanup_def)
qed

lemma rmtree_is_dir:
  assumes "is_dir fs p" and "p \<noteq> []"
  shows "\<exists>fs'. rmtree fs p = Inr fs' \<and> remove fs p = Some fs' \<and> \<not> exists fs' p"
proof -
  from assms(1) obtain es where l: "lookup fs p = Some (Dir es)"
    by (auto simp: is_dir_def split: option.splits node.splits)
  have "remove fs p \<noteq> None" using remove_None[of fs p] l assms(2) by auto
  then obtain fs' where r: "remove fs p = Some fs'" by blast
  have "\<not> exists fs' p" using remove_lookup_below[OF r, of "[]"] by (simp add: exists_def)
  with l r show ?thesis by (simp add: rmtree_def)
qed

lemma extract_archive_unknown:
  "suffix archive_path \<noteq> ''.7z'' \<Longrightarrow> suffix archive_path \<noteq> ''.zip'' \<Longrightarrow>
     extract_archive e archive_path dest_dir st =
       (Returned False,
        st\<lparr>stdout := stdout st @
          [Extracting (name archive_path), Unknown_archive_format (suffix archive_path)]\<rparr>)"
  by (simp add: extract_archive_def print_def)

lemma install_unknown:
  assumes "suffix archive_path \<noteq> ''.7z''" and "suffix archive_path \<noteq> ''.zip''"
    and "mkdtemp (disk st) (tempdir e) (temp_names e) = Inr (tmp, fs1)"
  shows "install e archive_path target_dir tf st =
       (Returned False,
        st\<lparr>stdout := stdout st @
          [Extracting (name archive_path), Unknown_archive_format (suffix archive_path)]\<rparr>)"
  using assms mkdtemp_cleanup[OF assms(3)]
  by (simp add: install_def with_temporary_directory_def extract_and_move_def
      extract_archive_unknown)

lemma install_disk_no_scratch:
  "mkdtemp (disk st) (tempdir e) (temp_names e) = Inl err \<Longrightarrow>
     install e archive_path target_dir tf st = (Raised err, st)"
  by (simp add: install_def with_temporary_directory_def)

lemma install_disk_cleanup:
  assumes "mkdtemp (disk st) (tempdir e) (temp_names e) = Inr (tmp, fs1)"
  shows "\<exists>fs2. disk (snd (install e archive_path target_dir tf st)) = cleanup tmp fs2"
proof -
  obtain r st' where b: "extract_and_move e archive_path target_dir tf tmp (st\<lparr>disk := fs1\<rparr>) = (r, st')"
    by (cases "extract_and_move e archive_path target_dir tf tmp (st\<lparr>disk := fs1\<rparr>)")
  have "disk (snd (install e archive_path target_dir tf st)) = cleanup tmp (disk st')"
    using assms b
    by (cases r) (auto simp: install_def with_temporary_directory_def print_def)
  then show ?thesis by blast
qed


lemma marker_target_is_dir:
  assumes "map_of PLATFORMS platform = Some config"
    and "exists fs (target_dir @ test_file config)"
  shows "is_dir fs target_dir"
proof -
  have "test_file config \<noteq> []"
    using PLATFORMS_test_file[OF assms(1)] test_file_nonempty by simp
  then show ?thesis using is_dir_prefix[OF assms(2)] by simp
qed

text \<open>
  Claim C1, as the code has it. Let the suffix of the archive be neither \<^verbatim>\<open>.7z\<close>
  nor \<^verbatim>\<open>.zip\<close>. When the target directory of the platform does not contain the
  marker file, the install leaves the disk as it was, and, once its scratch
  directory is created, it reports the unknown format and returns \<^verbatim>\<open>False\<close>.
  When the target directory contains the marker file, the operator is asked before
  the archive is looked at: on any answer but \<^verbatim>\<open>y\<close> the install returns \<^verbatim>\<open>True\<close>
  without a format error and the disk is as it was; on \<^verbatim>\<open>y\<close> the target
  directory is removed, and only then is the unknown format reported and \<^verbatim>\<open>False\<close>
  returned.
\<close>

theorem unknown_format_install:
  assumes "suffix archive_path \<noteq> ''.7z''" and "suffix archive_path \<noteq> ''.zip''"
    and "map_of PLATFORMS platform = Some config"
  shows
    "(\<not> exists (disk st) (SDK_DIR e @ [platform] @ test_file config) \<longrightarrow>
        disk (snd (setup_platform e platform archive_path st)) = disk st \<and>
        (\<forall>tmp fs1. mkdtemp (disk st) (tempdir e) (temp_names e) = Inr (tmp, fs1) \<longrightarrow>
           setup_platform e platform archive_path st =
             (Returned False,
              st\<lparr>stdout := stdout st @
                [Setting_up platform, Extracting (name archive_path),
                 Unknown_archive_format (suffix archive_path)]\<rparr>))) \<and>
     (exists (disk st) (SDK_DIR e @ [platform] @ test_file config) \<and>
      stdin st = response # rest \<and> lower (strip response) \<noteq> codepoints ''y'' \<longrightarrow>
        fst (setup_platform e platform archive_path st) = Returned True \<and>
        disk (snd (setup_platform e platform archive_path st)) = disk st \<and>
        stdout (snd (setup_platform e platform archive_path st)) =
          stdout st @
            [Setting_up platform, Already_exists (SDK_DIR e @ [platform]), Overwrite_prompt,
             Skipping]) \<and>
     (exists (disk st) (SDK_DIR e @ [platform] @ test_file config) \<and>
      stdin st = response # rest \<and> lower (strip response) = codepoints ''y'' \<longrightarrow>
        (\<exists>fs'. rmtree (disk st) (SDK_DIR e @ [platform]) = Inr fs' \<and>
           \<not> exists fs' (SDK_DIR e @ [platform]) \<and>
           disk (snd (setup_platform e platform archive_path st)) = fs' \<and>
           (\<forall>tmp fs1. mkdtemp fs' (tempdir e) (temp_names e) = Inr (tmp, fs1) \<longrightarrow>
              setup_platform e platform archive_path st =
                (Returned False,
                 st\<lparr>disk := fs', stdin := rest,
                    stdout := stdout st @
                      [Setting_up platform, Already_exists (SDK_DIR e @ [platform]),
                       Overwrite_prompt, Extracting (name archive_path),
                       Unknown_archive_format (suffix archive_path)]\<rparr>))))"
proof (intro conjI impI)
  assume n: "\<not> exists (disk st) (SDK_DIR e @ [platform] @ test_file config)"
  note eq = setup_platform_no_marker[OF assms(3) n, of archive_path]
  let ?st = "print (Setting_up platform) st"
  show "disk (snd (setup_platform e platform archive_path st)) = disk st"
  proof (cases "mkdtemp (disk st) (tempdir e) (temp_names e)")
    case (Inl err)
    then show ?thesis using eq install_disk_no_scratch[of ?st e err] by simp
  next
    case (Inr r)
    obtain tmp fs1 where "r = (tmp, fs1)" by (cases r)
    with Inr have "mkdtemp (disk ?st) (tempdir e) (temp_names e) = Inr (tmp, fs1)" by simp
    from install_unknown[OF assms(1,2) this] show ?thesis using eq by simp
  qed
  show "\<forall>tmp fs1. mkdtemp (disk st) (tempdir e) (temp_names e) = Inr (tmp, fs1) \<longrightarrow>
           setup_platform e platform archive_path st =
             (Returned False,
              st\<lparr>stdout := stdout st @
                [Setting_up platform, Extracting (name archive_path),
                 Unknown_archive_format (suffix archive_path)]\<rparr>)"
  proof (intro allI impI)
    fix tmp fs1 assume "mkdtemp (disk st) (tempdir e) (temp_names e) = Inr (tmp, fs1)"
    then have "mkdtemp (disk ?st) (tempdir e) (temp_names e) = Inr (tmp, fs1)" by simp
    from install_unknown[OF assms(1,2) this] show "setup_platform e platform archive_path st =
             (Returned False,
              st\<lparr>stdout := stdout st @
                [Setting_up platform, Extracting (name archive_path),
                 Unknown_archive_format (suffix archive_path)]\<rparr>)"
      using eq by (simp add: print_def)
  qed
next
  assume d: "exists (disk st) (SDK_DIR e @ [platform] @ test_file config) \<and>
      stdin st = response # rest \<and> lower (strip response) \<noteq> codepoints ''y''"
  then show "fst (setup_platform e platform archive_path st) = Returned True"
    and "disk (snd (setup_platform e platform archive_path st)) = disk st"
    and "stdout (snd (setup_platform e platform archive_path st)) =
          stdout st @
            [Setting_up platform, Already_exists (SDK_DIR e @ [platform]), Overwrite_prompt,
             Skipping]"
    using assms(3) by (simp_all add: setup_platform_def input_def print_def)
next
  assume y: "exists (disk st) (SDK_DIR e @ [platform] @ test_file config) \<and>
      stdin st = response # rest \<and> lower (strip response) = codepoints ''y''"
  then have m: "exists (disk st) ((SDK_DIR e @ [platform]) @ test_file config)" by simp
  have dir: "is_dir (disk st) (SDK_DIR e @ [platform])"
    using marker_target_is_dir[OF assms(3) m] .
  from rmtree_is_dir[OF dir] obtain fs' where
    rm: "rmtree (disk st) (SDK_DIR e @ [platform]) = Inr fs'" and
    gone: "\<not> exists fs' (SDK_DIR e @ [platform])" by auto
  let ?st = "st\<lparr>disk := fs', stdin := rest,
                 stdout := stdout st @
                   [Setting_up platform, Already_exists (SDK_DIR e @ [platform]),
                    Overwrite_prompt]\<rparr>"
  have eq: "setup_platform e platform archive_path st =
      install e archive_path (SDK_DIR e @ [platform]) (test_file config) ?st"
    using setup_platform_overwrite[OF assms(3) _ _ _ rm, of response rest archive_path] y by simp
  have dk: "disk (snd (setup_platform e platform archive_path st)) = fs'"
  proof (cases "mkdtemp fs' (tempdir e) (temp_names e)")
    case (Inl err)
    then show ?thesis using eq install_disk_no_scratch[of ?st e err] by simp
  next
    case (Inr r)
    obtain tmp fs1 where "r = (tmp, fs1)" by (cases r)
    with Inr have "mkdtemp (disk ?st) (tempdir e) (temp_names e) = Inr (tmp, fs1)" by simp
    from install_unknown[OF assms(1,2) this] show ?thesis using eq by simp
  qed
  have fmt: "\<forall>tmp fs1. mkdtemp fs' (tempdir e) (temp_names e) = Inr (tmp, fs1) \<longrightarrow>
              setup_platform e platform archive_path st =
                (Returned False,
                 st\<lparr>disk := fs', stdin := rest,
                    stdout := stdout st @
                      [Setting_up platform, Already_exists (SDK_DIR e @ [platform]),
                       Overwrite_prompt, Extracting (name archive_path),
                       Unknown_archive_format (suffix archive_path)]\<rparr>)"
  proof (intro allI impI)
    fix tmp fs1 assume "mkdtemp fs' (tempdir e) (temp_names e) = Inr (tmp, fs1)"
    then have "mkdtemp (disk ?st) (tempdir e) (temp_names e) = Inr (tmp, fs1)" by simp
    from install_unknown[OF assms(1,2) this] show "setup_platform e platform archive_path st =
                (Returned False,
                 st\<lparr>disk := fs', stdin := rest,
                    stdout := stdout st @
                      [Setting_up platform, Already_exists (SDK_DIR e @ [platform]),
                       Overwrite_prompt, Extracting (name archive_path),
                       Unknown_archive_format (suffix archive_path)]\<rparr>)"
      using eq by simp
  qed
  from rm gone dk fmt show "\<exists>fs'. rmtree (disk st) (SDK_DIR e @ [platform]) = Inr fs' \<and>
           \<not> exists fs' (SDK_DIR e @ [platform]) \<and>
           disk (snd (setup_platform e platform archive_path st)) = fs' \<and>
           (\<forall>tmp fs1. mkdtemp fs' (tempdir e) (temp_names e) = Inr (tmp, fs1) \<longrightarrow>
              setup_platform e platform archive_path st =
                (Returned False,
                 st\<lparr>disk := fs', stdin := rest,
                    stdout := stdout st @
                      [Setting_up platform, Already_exists (SDK_DIR e @ [platform]),
                       Overwrite_prompt, Extracting (name archive_path),
                       Unknown_archive_format (suffix archive_path)]\<rparr>))"
    by blast
qed

theorem unknown_format_install_witness:
  "suffix tar_archive = ''.tar'' \<and>
   map_of PLATFORMS ''mac-x64'' = Some (the (map_of PLATFORMS ''mac-x64'')) \<and>
   \<not> exists installed_disk
       (SDK_DIR example_env @ [''mac-x64''] @ test_file (the (map_of PLATFORMS ''mac-x64''))) \<and>
   mkdtemp installed_disk (tempdir example_env) (temp_names example_env) \<noteq> Inl FileExistsError \<and>
   setup_platform example_env ''mac-x64'' tar_archive
       \<lparr>disk = installed_disk, stdin = [], stdout = []\<rparr> =
     (Returned False,
      \<lparr>disk = installed_disk, stdin = [],
       stdout = [Setting_up ''mac-x64'', Extracting ''ultralight-sdk-mac-x64.tar'',
                 Unknown_archive_format ''.tar'']\<rparr>) \<and>
   lower (strip [0xA0, 121]) = codepoints ''y'' \<and>
   exists installed_disk ([''proj'', ''native'', ''sdk'', ''linux-x64''] @ root_test_file) \<and>
   \<not> exists
       (disk (snd (setup_platform example_env ''linux-x64'' tar_archive
          \<lparr>disk = installed_disk, stdin = [[0xA0, 121]], stdout = []\<rparr>)))
       [''proj'', ''native'', ''sdk'', ''linux-x64'']"
proof -
  let ?st = "\<lparr>disk = installed_disk, stdin = [], stdout = []\<rparr>"
  let ?sy = "\<lparr>disk = installed_disk, stdin = [[0xA0, 121]], stdout = []\<rparr>"
  let ?cl = "the (map_of PLATFORMS ''linux-x64'')"
  let ?c = "the (map_of PLATFORMS ''mac-x64'')"
  have y: "lower (strip [0xA0, 121]) = codepoints ''y''"
    by (simp add: strip_def lower_def is_space_def codepoints_def)
  have cl: "map_of PLATFORMS ''linux-x64'' = Some ?cl" by (simp add: PLATFORMS_def)
  have sdl: "SDK_DIR example_env @ [''linux-x64''] = [''proj'', ''native'', ''sdk'', ''linux-x64'']"
    by (simp add: SDK_DIR_def example_env_def)
  have ml: "exists installed_disk ([''proj'', ''native'', ''sdk'', ''linux-x64''] @ root_test_file)"
    by code_simp
  have ml': "exists (disk ?sy) (SDK_DIR example_env @ [''linux-x64''] @ test_file ?cl)"
    using ml sdl PLATFORMS_test_file[OF cl] by simp
  have s: "suffix tar_archive = ''.tar''" by code_simp
  have s1: "suffix tar_archive \<noteq> ''.7z''" and s2: "suffix tar_archive \<noteq> ''.zip''"
    using s by simp_all
  have c: "map_of PLATFORMS ''mac-x64'' = Some ?c" by (simp add: PLATFORMS_def)
  have n: "\<not> exists (disk ?st) (SDK_DIR example_env @ [''mac-x64''] @ test_file ?c)"
    by code_simp
  obtain tmp fs1 where t: "mkdtemp (disk ?st) (tempdir example_env) (temp_names example_env) =
      Inr (tmp, fs1)"
    by (simp add: example_env_def installed_disk_def exists_def is_dir_def)
  have "setup_platform example_env ''mac-x64'' tar_archive ?st =
     (Returned False,
      ?st\<lparr>stdout := stdout ?st @
        [Setting_up ''mac-x64'', Extracting (name tar_archive),
         Unknown_archive_format (suffix tar_archive)]\<rparr>)"
    using unknown_format_install[OF s1 s2 c, of ?st example_env] n t by blast
  moreover have "name tar_archive = ''ultralight-sdk-mac-x64.tar''" by code_simp
  ultimately have first: "setup_platform example_env ''mac-x64'' tar_archive ?st =
     (Returned False,
      \<lparr>disk = installed_disk, stdin = [],
       stdout = [Setting_up ''mac-x64'', Extracting ''ultralight-sdk-mac-x64.tar'',
                 Unknown_archive_format ''.tar'']\<rparr>)"
    using s by simp
  from unknown_format_install[OF s1 s2 cl, of ?sy example_env "[0xA0, 121]" "[]"] ml' y
  obtain fs' where "\<not> exists fs' (SDK_DIR example_env @ [''linux-x64''])"
    "disk (snd (setup_platform example_env ''linux-x64'' tar_archive ?sy)) = fs'"
    by auto
  then have gone: "\<not> exists
       (disk (snd (setup_platform example_env ''linux-x64'' tar_archive ?sy)))
       [''proj'', ''native'', ''sdk'', ''linux-x64'']"
    using sdl by simp
  from s c n t first y ml gone show ?thesis by simp
qed

text \<open>A confirmed overwrite removes the installed Linux SDK before the archive
  is found to have an unknown format.\<close>

theorem unknown_format_overwrite_counterexample:
  "suffix tar_archive = ''.tar'' \<and>
   exists installed_disk ([''proj'', ''native'', ''sdk'', ''linux-x64''] @ root_test_file) \<and>
   fst (setup_platform example_env ''linux-x64'' tar_archive
          \<lparr>disk = installed_disk, stdin = [codepoints ''y''], stdout = []\<rparr>) = Returned False \<and>
   \<not> exists (disk (snd (setup_platform example_env ''linux-x64'' tar_archive
          \<lparr>disk = installed_disk, stdin = [codepoints ''y''], stdout = []\<rparr>)))
       [''proj'', ''native'', ''sdk'', ''linux-x64'']"
  by code_simp


lemma install_scratch_gone:
  assumes "mkdtemp (disk st) (tempdir e) (temp_names e) = Inr (tmp, fs1)"
  shows "\<not> exists (disk (snd (install e archive_path target_dir tf st))) tmp"
proof -
  from mkdtemp_Inr[OF assms] have "tmp \<noteq> []" by auto
  then show ?thesis using install_disk_cleanup[OF assms] cleanup_gone by metis
qed

text \<open>
  Claim C7. A run of \<^verbatim>\<open>setup_platform\<close> reaches extraction when the \<^verbatim>\<open>with\<close>
  statement has created its scratch directory, either at once (no marker file
  in the target directory) or after a confirmed overwrite. The scratch directory
  did not exist before, exists when the block is entered, and does not exist on
  the disk that \<^verbatim>\<open>setup_platform\<close> leaves, whatever the outcome: \<^verbatim>\<open>True\<close>,
  \<^verbatim>\<open>False\<close> (extractor failure, SDK root not found) or an exception.
\<close>

theorem scratch_directory_removed:
  "(map_of PLATFORMS platform = Some config \<and>
    \<not> exists (disk st) (SDK_DIR e @ [platform] @ test_file config) \<and>
    mkdtemp (disk st) (tempdir e) (temp_names e) = Inr (tmp, fs1) \<longrightarrow>
      \<not> exists (disk st) tmp \<and> is_dir fs1 tmp \<and>
      \<not> exists (disk (snd (setup_platform e platform archive_path st))) tmp) \<and>
   (map_of PLATFORMS platform = Some config \<and>
    exists (disk st) (SDK_DIR e @ [platform] @ test_file config) \<and>
    stdin st = response # rest \<and> lower (strip response) = codepoints ''y'' \<and>
    rmtree (disk st) (SDK_DIR e @ [platform]) = Inr fs' \<and>
    mkdtemp fs' (tempdir e) (temp_names e) = Inr (tmp, fs1) \<longrightarrow>
      \<not> exists fs' tmp \<and> is_dir fs1 tmp \<and>
      \<not> exists (disk (snd (setup_platform e platform archive_path st))) tmp)"
proof (intro conjI impI)
  assume A: "map_of PLATFORMS platform = Some config \<and>
    \<not> exists (disk st) (SDK_DIR e @ [platform] @ test_file config) \<and>
    mkdtemp (disk st) (tempdir e) (temp_names e) = Inr (tmp, fs1)"
  then have t: "mkdtemp (disk st) (tempdir e) (temp_names e) = Inr (tmp, fs1)" by simp
  from mkdtemp_Inr[OF t] show "\<not> exists (disk st) tmp" by blast
  from mkdtemp_Inr[OF t] have "store (disk st) tmp (Dir []) = Some fs1" by blast
  from store_lookup_below[OF this, of "[]"] show "is_dir fs1 tmp" by (simp add: is_dir_def)
  have eq: "setup_platform e platform archive_path st =
      install e archive_path (SDK_DIR e @ [platform]) (test_file config)
        (print (Setting_up platform) st)"
    using A setup_platform_no_marker by blast
  have "mkdtemp (disk (print (Setting_up platform) st)) (tempdir e) (temp_names e) = Inr (tmp, fs1)"
    using t by simp
  from install_scratch_gone[OF this]
  show "\<not> exists (disk (snd (setup_platform e platform archive_path st))) tmp"
    unfolding eq .
next
  assume B: "map_of PLATFORMS platform = Some config \<and>
    exists (disk st) (SDK_DIR e @ [platform] @ test_file config) \<and>
    stdin st = response # rest \<and> lower (strip response) = codepoints ''y'' \<and>
    rmtree (disk st) (SDK_DIR e @ [platform]) = Inr fs' \<and>
    mkdtemp fs' (tempdir e) (temp_names e) = Inr (tmp, fs1)"
  then have t: "mkdtemp fs' (tempdir e) (temp_names e) = Inr (tmp, fs1)" by simp
  from mkdtemp_Inr[OF t] show "\<not> exists fs' tmp" by blast
  from mkdtemp_Inr[OF t] have "store fs' tmp (Dir []) = Some fs1" by blast
  from store_lookup_below[OF this, of "[]"] show "is_dir fs1 tmp" by (simp add: is_dir_def)
  let ?st = "st\<lparr>disk := fs', stdin := rest,
                 stdout := stdout st @
                   [Setting_up platform, Already_exists (SDK_DIR e @ [platform]),
                    Overwrite_prompt]\<rparr>"
  have eq: "setup_platform e platform archive_path st =
      install e archive_path (SDK_DIR e @ [platform]) (test_file config) ?st"
    using B setup_platform_overwrite by blast
  have "mkdtemp (disk ?st) (tempdir e) (temp_names e) = Inr (tmp, fs1)" using t by simp
  from install_scratch_gone[OF this]
  show "\<not> exists (disk (snd (setup_platform e platform archive_path st))) tmp"
    unfolding eq .
qed

theorem scratch_directory_removed_witness:
  "mkdtemp fresh_disk (tempdir example_env) (temp_names example_env) =
     Inr ([''tmp'', ''tmpk3x9''],
          the (store fresh_disk [''tmp'', ''tmpk3x9''] (Dir []))) \<and>
   fst (setup_platform example_env ''linux-x64'' linux_archive
          \<lparr>disk = fresh_disk, stdin = [], stdout = []\<rparr>) = Returned True \<and>
   \<not> exists (disk (snd (setup_platform example_env ''linux-x64'' linux_archive
          \<lparr>disk = fresh_disk, stdin = [], stdout = []\<rparr>))) [''tmp'', ''tmpk3x9''] \<and>
   fst (setup_platform example_env ''linux-x64'' [''home'', ''dev'', ''Downloads'', ''gone.7z'']
          \<lparr>disk = fresh_disk, stdin = [], stdout = []\<rparr>) = Returned False \<and>
   \<not> exists (disk (snd (setup_platform example_env ''linux-x64''
          [''home'', ''dev'', ''Downloads'', ''gone.7z'']
          \<lparr>disk = fresh_disk, stdin = [], stdout = []\<rparr>))) [''tmp'', ''tmpk3x9'']"
proof -
  let ?st = "\<lparr>disk = fresh_disk, stdin = [], stdout = []\<rparr>"
  let ?c = "the (map_of PLATFORMS ''linux-x64'')"
  have c: "map_of PLATFORMS ''linux-x64'' = Some ?c" by (simp add: PLATFORMS_def)
  have n: "\<not> exists (disk ?st) (SDK_DIR example_env @ [''linux-x64''] @ test_file ?c)"
    by code_simp
  have t: "mkdtemp (disk ?st) (tempdir example_env) (temp_names example_env) =
     Inr ([''tmp'', ''tmpk3x9''], the (store fresh_disk [''tmp'', ''tmpk3x9''] (Dir [])))"
    by code_simp
  have r1: "fst (setup_platform example_env ''linux-x64'' linux_archive ?st) = Returned True"
    by code_simp
  have r2: "fst (setup_platform example_env ''linux-x64''
      [''home'', ''dev'', ''Downloads'', ''gone.7z''] ?st) = Returned False"
    by code_simp
  have g1: "\<not> exists (disk (snd (setup_platform example_env ''linux-x64'' linux_archive ?st)))
      [''tmp'', ''tmpk3x9'']"
    using scratch_directory_removed[of "''linux-x64''" ?c ?st example_env
        "[''tmp'', ''tmpk3x9'']" _ linux_archive] c n t by blast
  have g2: "\<not> exists (disk (snd (setup_platform example_env ''linux-x64''
      [''home'', ''dev'', ''Downloads'', ''gone.7z''] ?st))) [''tmp'', ''tmpk3x9'']"
    using scratch_directory_removed[of "''linux-x64''" ?c ?st example_env
        "[''tmp'', ''tmpk3x9'']" _ "[''home'', ''dev'', ''Downloads'', ''gone.7z'']"] c n t by blast
  from t r1 g1 r2 g2 show ?thesis by simp
qed


section \<open>Installing into a directory that is already there\<close>

lemma find_in_subdirs_Some_parent:
  "find_in_subdirs fs xs = Inr (Some r) \<Longrightarrow>
     r \<in> set xs \<or>
     (\<exists>s\<in>set xs. \<not> exists fs (s @ root_test_file) \<and> (\<exists>ss. iterdir fs s = Inr ss \<and> r \<in> set ss))"
proof (induction xs)
  case Nil
  then show ?case by simp
next
  case (Cons s xs)
  then show ?case
    by (auto split: if_splits sum.splits option.splits dest: find_in_subsubdirs_Some)
qed

lemma find_sdk_root_Some:
  assumes "find_sdk_root fs d = Inr (Some root)"
  shows "exists fs (root @ root_test_file) \<and>
         (root = d \<or> (\<exists>r. r \<noteq> [] \<and> root = d @ r \<and> \<not> exists fs (butlast root @ root_test_file)))"
proof (cases "exists fs (d @ root_test_file)")
  case True
  then show ?thesis using assms by (simp add: find_sdk_root_def)
next
  case False
  then obtain subs where subs: "iterdir fs d = Inr subs" and f: "find_in_subdirs fs subs = Inr (Some root)"
    using assms by (auto simp: find_sdk_root_def split: sum.splits)
  from find_in_subdirs_Some[OF f] have m: "exists fs (root @ root_test_file)" by blast
  from find_in_subdirs_Some_parent[OF f] show ?thesis
  proof
    assume "root \<in> set subs"
    then obtain a where "root = d @ [a]" using iterdir_children[OF subs] by blast
    with False m show ?thesis by auto
  next
    assume "\<exists>s\<in>set subs. \<not> exists fs (s @ root_test_file) \<and>
        (\<exists>ss. iterdir fs s = Inr ss \<and> root \<in> set ss)"
    then obtain s ss where s: "s \<in> set subs" "\<not> exists fs (s @ root_test_file)"
      "iterdir fs s = Inr ss" "root \<in> set ss" by blast
    obtain a where a: "s = d @ [a]" using iterdir_children[OF subs s(1)] by blast
    obtain b where b: "root = s @ [b]" using iterdir_children[OF s(3,4)] by blast
    have "root = d @ [a, b]" using a b by simp
    moreover have "butlast root = s" using b by simp
    ultimately show ?thesis using m s(2) by blast
  qed
qed

lemma move_into_dir:
  assumes "move fs src dst = Inr fs'" and "is_dir fs dst" and "src \<noteq> dst"
    and "lookup fs src = Some (Dir es)"
  shows "\<not> exists fs (dst @ [name src]) \<and> \<not> prefix src (dst @ [name src]) \<and>
         (\<exists>fs1 fs2. remove fs src = Some fs1 \<and> mkdir fs1 dst = Inr fs2 \<and>
            store fs2 (dst @ [name src]) (Dir es) = Some fs')"
proof -
  have e: "\<not> exists fs (dst @ [name src])"
    using assms by (auto simp: move_def Let_def split: if_splits)
  then have ne: "src \<noteq> dst @ [name src]" using assms(4) by (auto simp: exists_def)
  have l: "lookup fs (dst @ [name src]) = None" using e by (simp add: exists_def)
  have p: "\<not> prefix src (dst @ [name src])"
    using assms e ne by (auto simp: move_def Let_def split: if_splits)
  have "\<exists>fs1 fs2. remove fs src = Some fs1 \<and> mkdir fs1 dst = Inr fs2 \<and>
            store fs2 (dst @ [name src]) (Dir es) = Some fs'"
    using assms e ne p l
    by (auto simp: move_def Let_def parent_def split: if_splits option.splits sum.splits)
  with e p show ?thesis by blast
qed

lemma extract_archive_disk:
  assumes "is_dir (disk st) dest"
  shows "\<exists>entries. disk (snd (extract_archive e archive_path dest st)) =
           write_entries (disk st) dest entries"
proof -
  have w: "\<And>fs. \<exists>entries. fs = write_entries fs dest entries"
    by (rule exI[of _ "[]"]) simp
  have m: "mkdir (disk st) dest = Inr (disk st)" using mkdir_existing[OF assms] .
  show ?thesis
    using w m
    by (auto simp: extract_archive_def Let_def print_def split: option.splits prod.splits)
qed

lemma extract_archive_io:
  "extract_archive e archive_path dest st = (r, st') \<Longrightarrow>
     stdin st' = stdin st \<and>
     (\<exists>ms. stdout st' = stdout st @ Extracting (name archive_path) # ms \<and>
        Overwrite_prompt \<notin> set ms \<and> (r = Returned True \<longrightarrow> ms = []))"
  by (auto simp: extract_archive_def Let_def print_def
      split: option.splits prod.splits sum.splits if_splits)

lemma tmp_name_not_marker:
  assumes "prefix t root_test_file" and "t \<noteq> []"
  shows "last t \<noteq> ''tmp'' @ n"
proof -
  from assms(1) obtain z where "root_test_file = t @ z" by (auto simp: prefix_def)
  then have "t = [''include''] \<or> t = [''include'', ''Ultralight''] \<or>
      t = [''include'', ''Ultralight'', ''Ultralight.h'']"
    using assms(2)
    by (auto simp: root_test_file_def append_eq_Cons_conv Cons_eq_append_conv)
  then show ?thesis by auto
qed


lemma cleanup_lookup_other:
  "\<not> prefix tmp q \<Longrightarrow> \<not> prefix q tmp \<Longrightarrow> lookup (cleanup tmp fs) q = lookup fs q"
  by (cases "remove fs tmp") (auto simp: cleanup_def remove_lookup_other)

lemma cleanup_is_dir_kept:
  "\<not> prefix tmp q \<Longrightarrow> is_dir fs q \<Longrightarrow> is_dir (cleanup tmp fs) q"
  by (cases "remove fs tmp") (auto simp: cleanup_def remove_is_dir_kept)

lemma is_dir_exists: "is_dir fs p \<Longrightarrow> exists fs p"
  by (auto simp: is_dir_def exists_def split: option.splits)

lemma is_dir_parent:
  assumes "is_dir fs p"
  shows "is_dir fs (parent p)"
proof (cases "p = []")
  case True
  then show ?thesis using assms by (simp add: parent_def)
next
  case False
  then have "p = butlast p @ [last p]" by simp
  then have "exists fs (butlast p @ [last p])" using is_dir_exists[OF assms] by simp
  from is_dir_prefix[OF this] show ?thesis by (simp add: parent_def)
qed

lemma scratch_apart:
  assumes "\<not> exists fs (dir @ [''tmp'' @ n])" and "is_dir fs dir"
    and "is_dir fs target" and "\<not> exists fs (target @ root_test_file)"
  shows "\<not> prefix (dir @ [''tmp'' @ n]) target"
    and "\<not> prefix (dir @ [''tmp'' @ n]) (target @ root_test_file)"
    and "\<not> prefix (target @ root_test_file) (dir @ [''tmp'' @ n])"
proof -
  let ?tmp = "dir @ [''tmp'' @ n]"
  show a: "\<not> prefix ?tmp target"
  proof
    assume "prefix ?tmp target"
    then obtain z where "target = ?tmp @ z" by (auto simp: prefix_def)
    then have "exists fs (?tmp @ z)" using is_dir_exists[OF assms(3)] by simp
    from exists_prefix[OF this] assms(1) show False by simp
  qed
  show b: "\<not> prefix ?tmp (target @ root_test_file)"
  proof
    assume "prefix ?tmp (target @ root_test_file)"
    then have "prefix ?tmp target \<or> (\<exists>us. ?tmp = target @ us \<and> prefix us root_test_file)"
      by (simp add: prefix_append)
    with a obtain us where us: "?tmp = target @ us" "prefix us root_test_file" by blast
    have "us \<noteq> []" using us(1) a by auto
    then have "last ?tmp = last us" using us(1) by (metis last_appendR)
    then have "last us = ''tmp'' @ n" by simp
    with tmp_name_not_marker[OF us(2) \<open>us \<noteq> []\<close>] show False by blast
  qed
  show "\<not> prefix (target @ root_test_file) ?tmp"
  proof
    assume "prefix (target @ root_test_file) ?tmp"
    then have "target @ root_test_file = ?tmp \<or> prefix (target @ root_test_file) dir"
      by (simp add: prefix_snoc)
    then show False
    proof
      assume "target @ root_test_file = ?tmp"
      with b show False by simp
    next
      assume "prefix (target @ root_test_file) dir"
      then obtain z where "dir = (target @ root_test_file) @ z" by (auto simp: prefix_def)
      then have "exists fs ((target @ root_test_file) @ z)" using is_dir_exists[OF assms(2)] by simp
      from exists_prefix[OF this] assms(4) show False by simp
    qed
  qed
qed

lemma extract_and_move_existing_dir:
  assumes tdir: "is_dir (disk s1) tmp"
    and D: "is_dir (disk s1) target"
    and N: "lookup (disk s1) (target @ root_test_file) = None"
    and a1: "\<not> prefix tmp target"
    and a2: "\<not> prefix tmp (target @ root_test_file)"
    and a3: "\<not> prefix (target @ root_test_file) tmp"
    and nm: "name tmp = ''tmp'' @ n"
    and B: "extract_and_move e archive_path target tf tmp s1 = (rb, sb)"
  shows "is_dir (disk sb) target \<and> lookup (disk sb) (target @ root_test_file) = None \<and>
    (rb = Returned True \<longrightarrow>
       (\<exists>root es. stdout sb = stdout s1 @ [Extracting (name archive_path), Found_sdk_root root] \<and>
          \<not> exists (disk s1) (target @ [name root]) \<and>
          lookup (disk sb) (target @ [name root]) = Some (Dir es) \<and>
          lookup (Dir es) root_test_file \<noteq> None \<and>
          \<not> prefix tmp (target @ [name root]) \<and> \<not> prefix (target @ [name root]) tmp))"
proof -
  let ?q = "target @ root_test_file"
  obtain ra sa where E: "extract_archive e archive_path tmp s1 = (ra, sa)"
    by (cases "extract_archive e archive_path tmp s1")
  from extract_archive_disk[OF tdir, of e archive_path] E
  obtain entries where fs2: "disk sa = write_entries (disk s1) tmp entries" by auto
  from extract_archive_io[OF E] obtain ms where
    out: "stdout sa = stdout s1 @ Extracting (name archive_path) # ms"
    "ra = Returned True \<longrightarrow> ms = []" by blast
  have sp: "\<not> strict_prefix tmp target" using a1 by (simp add: strict_prefix_def)
  have d2: "is_dir (disk sa) target"
    unfolding fs2 using write_entries_is_dir_kept[OF sp D] .
  have t2: "is_dir (disk sa) tmp"
    unfolding fs2 using write_entries_is_dir_kept[OF _ tdir] by simp
  have q2: "lookup (disk sa) ?q = None"
    unfolding fs2 using write_entries_lookup_other[OF a2 a3] N by simp
  have base: "is_dir (disk sa) target \<and> lookup (disk sa) ?q = None" using d2 q2 by simp
  show ?thesis
  proof (cases "ra = Returned True")
    case False
    then have "disk sb = disk sa \<and> rb \<noteq> Returned True"
      using B E by (cases ra) (auto simp: extract_and_move_def)
    with base show ?thesis by simp
  next
    case True
    note ok = True
    show ?thesis
    proof (cases "find_sdk_root (disk sa) tmp")
      case (Inl err)
      then have "disk sb = disk sa \<and> rb \<noteq> Returned True"
        using B E ok by (auto simp: extract_and_move_def)
      with base show ?thesis by simp
    next
      case (Inr found)
      show ?thesis
      proof (cases found)
        case None
        then have "disk sb = disk sa \<and> rb \<noteq> Returned True"
          using B E ok Inr by (auto simp: extract_and_move_def)
        with base show ?thesis by simp
      next
        case (Some root)
        have mk: "mkdir (disk sa) (parent target) = Inr (disk sa)"
          using mkdir_existing[OF is_dir_parent[OF d2]] .
        show ?thesis
        proof (cases "move (disk sa) root target")
          case (Inl err)
          then have "disk sb = disk sa \<and> rb \<noteq> Returned True"
            using B E ok Inr Some mk by (auto simp: extract_and_move_def Let_def print_def)
          with base show ?thesis by simp
        next
          case (Inr fs4)
          note mv = Inr
          have res: "rb = Returned True" "disk sb = fs4"
            "stdout sb = stdout s1 @ [Extracting (name archive_path), Found_sdk_root root]"
            using B E ok \<open>find_sdk_root (disk sa) tmp = Inr found\<close> Some mk mv out
            by (auto simp: extract_and_move_def Let_def print_def)
          from find_sdk_root_Some[of "disk sa" tmp root]
            \<open>find_sdk_root (disk sa) tmp = Inr found\<close> Some
          have m: "exists (disk sa) (root @ root_test_file)"
            and shape: "root = tmp \<or>
              (\<exists>r. r \<noteq> [] \<and> root = tmp @ r \<and> \<not> exists (disk sa) (butlast root @ root_test_file))"
            by auto
          have pre: "prefix tmp root" using shape by auto
          have rt: "\<not> prefix root target"
            using pre a1 by (meson prefix_order.order_trans)
          then have "root \<noteq> target" by auto
          have "is_dir (disk sa) root" using is_dir_prefix[OF m test_file_nonempty] .
          then obtain es where l: "lookup (disk sa) root = Some (Dir es)"
            by (auto simp: is_dir_def split: option.splits node.splits)
          let ?dst = "target @ [name root]"
          from move_into_dir[OF mv d2 \<open>root \<noteq> target\<close> l]
          obtain fs3 fs3' where
            e5: "\<not> exists (disk sa) ?dst" and
            rm: "remove (disk sa) root = Some fs3" and
            mk3: "mkdir fs3 target = Inr fs3'" and
            st: "store fs3' ?dst (Dir es) = Some fs4"
            by blast
          have d3: "is_dir fs3 target" using remove_is_dir_kept[OF rm rt d2] .
          have "fs3' = fs3" using mkdir_existing[OF d3] mk3 by simp
          with st have st: "store fs3 ?dst (Dir es) = Some fs4" by simp
          have d4: "is_dir fs4 target"
            using store_is_dir_kept[OF st _ d3] by simp
          have l4: "lookup fs4 ?dst = Some (Dir es)"
            using store_lookup_below[OF st, of "[]"] by simp
          have mk_in: "lookup (Dir es) root_test_file \<noteq> None"
            using m l by (simp add: exists_def lookup_append)
          have tne: "tmp \<noteq> ?dst" using e5 is_dir_exists[OF t2] by auto
          have b1: "\<not> prefix tmp ?dst" using a1 tne by (simp add: prefix_snoc)
          have b2: "\<not> prefix ?dst tmp"
          proof
            assume "prefix ?dst tmp"
            then obtain z where "tmp = ?dst @ z" by (auto simp: prefix_def)
            then have "exists (disk sa) (?dst @ z)" using is_dir_exists[OF t2] by simp
            from exists_prefix[OF this] e5 show False by simp
          qed
          have new1: "\<not> exists (disk s1) ?dst"
          proof
            assume "exists (disk s1) ?dst"
            moreover have "\<not> strict_prefix tmp ?dst" using b1 by (simp add: strict_prefix_def)
            ultimately have "exists (disk sa) ?dst"
              unfolding fs2 using write_entries_exists_kept by blast
            with e5 show False by simp
          qed
          have rq1: "\<not> prefix root ?q"
            using pre a2 by (meson prefix_order.order_trans)
          have rq2: "\<not> prefix ?q root"
          proof
            assume "prefix ?q root"
            with pre have "prefix ?q tmp \<or> prefix tmp ?q" using prefix_same_cases by blast
            with a2 a3 show False by blast
          qed
          have q3: "lookup fs3 ?q = None"
            using remove_lookup_other[OF rm rq1 rq2] q2 by simp
          have q4: "lookup fs4 ?q = None"
          proof (cases "name root = ''include''")
            case False
            then have c1: "\<not> prefix ?dst ?q" by (simp add: root_test_file_def)
            have c2: "\<not> prefix ?q ?dst" by (simp add: root_test_file_def)
            show ?thesis using store_lookup_other[OF st c1 c2] q3 by simp
          next
            case True
            have "root \<noteq> tmp" using True nm by auto
            with shape obtain r where r: "r \<noteq> []" "root = tmp @ r"
              and up: "\<not> exists (disk sa) (butlast root @ root_test_file)" by blast
            have "root \<noteq> []" using r by simp
            then have "root = butlast root @ [''include'']"
              using True by (simp add: name_def) (metis append_butlast_last_id)
            then have "root @ [''Ultralight'', ''Ultralight.h''] = butlast root @ root_test_file"
              by (simp add: root_test_file_def)
            with up have "lookup (disk sa) (root @ [''Ultralight'', ''Ultralight.h'']) = None"
              by (simp add: exists_def)
            then have inner: "lookup (Dir es) [''Ultralight'', ''Ultralight.h''] = None"
              using l by (simp add: lookup_append)
            have "?q = ?dst @ [''Ultralight'', ''Ultralight.h'']"
              using True by (simp add: root_test_file_def)
            then show ?thesis using store_lookup_below[OF st, of "[''Ultralight'', ''Ultralight.h'']"] inner
              by simp
          qed
          from res d4 q4 new1 l4 mk_in b1 b2 show ?thesis by blast
        qed
      qed
    qed
  qed
qed


lemma extract_and_move_io:
  assumes "extract_and_move e archive_path target tf tmp s1 = (rb, sb)"
  shows "stdin sb = stdin s1 \<and> (\<exists>ms. stdout sb = stdout s1 @ ms \<and> Overwrite_prompt \<notin> set ms)"
proof -
  obtain ra sa where E: "extract_archive e archive_path tmp s1 = (ra, sa)"
    by (cases "extract_archive e archive_path tmp s1")
  from extract_archive_io[OF E] obtain ms where
    io: "stdin sa = stdin s1" "stdout sa = stdout s1 @ Extracting (name archive_path) # ms"
      "Overwrite_prompt \<notin> set ms" by blast
  have "stdin sb = stdin sa \<and> (\<exists>ms'. stdout sb = stdout sa @ ms' \<and> Overwrite_prompt \<notin> set ms')"
    using assms E
    by (cases ra)
       (auto simp: extract_and_move_def Let_def print_def
          split: if_splits sum.splits option.splits)
  with io show ?thesis by auto
qed

lemma store_child: "is_dir fs p \<Longrightarrow> \<exists>fs'. store fs (p @ [c]) n = Some fs'"
proof (induction p arbitrary: fs)
  case Nil
  then obtain es where "fs = Dir es" by (cases fs) (auto simp: is_dir_def)
  then show ?case by simp
next
  case (Cons a p)
  then obtain es where fs: "fs = Dir es" by (cases fs) (auto simp: is_dir_def)
  with Cons.prems obtain m where m: "map_of es a = Some m" and d: "is_dir m p"
    by (auto simp: is_dir_def split: option.splits)
  from Cons.IH[OF d] obtain m' where s: "store m (p @ [c]) n = Some m'" by blast
  obtain x xs where px: "p @ [c] = x # xs" by (cases "p @ [c]") auto
  have "store (Dir es) (a # x # xs) n = Some (Dir (AList.update a m' es))"
    using m s px by simp
  then show ?case using fs px by simp
qed

lemma move_clash:
  "lookup fs src = Some nd \<Longrightarrow> is_dir fs dst \<Longrightarrow> src \<noteq> dst \<Longrightarrow>
     exists fs (dst @ [name src]) \<Longrightarrow> move fs src dst = Inl ShutilError"
  by (simp add: move_def)

lemma move_into_dir_ok:
  assumes l: "lookup fs src = Some (Dir es)" and d: "is_dir fs dst"
    and np: "\<not> prefix src dst" and ne: "src \<noteq> []"
    and free: "\<not> exists fs (dst @ [name src])"
  shows "\<exists>fs'. move fs src dst = Inr fs'"
proof -
  let ?real = "dst @ [name src]"
  have sd: "src \<noteq> dst" using np by auto
  have sr: "src \<noteq> ?real" using l free by (auto simp: exists_def)
  have pr: "\<not> prefix src ?real" using np sr by (simp add: prefix_snoc)
  have lr: "lookup fs ?real = None" using free by (simp add: exists_def)
  have "remove fs src \<noteq> None" using remove_None[of fs src] l ne by auto
  then obtain fs1 where rm: "remove fs src = Some fs1" by blast
  have d1: "is_dir fs1 dst" using remove_is_dir_kept[OF rm np d] .
  have mk: "mkdir fs1 dst = Inr fs1" using mkdir_existing[OF d1] .
  obtain fs' where st: "store fs1 ?real (Dir es) = Some fs'" using store_child[OF d1] by blast
  have "move fs src dst = Inr fs'"
    using l d sd sr pr lr rm mk st free by (simp add: move_def Let_def parent_def)
  then show ?thesis by blast
qed

lemma extract_and_move_found:
  assumes "extract_archive e archive_path tmp s1 = (Returned True, sa)"
    and "find_sdk_root (disk sa) tmp = Inr (Some root)"
    and "is_dir (disk sa) target"
  shows "extract_and_move e archive_path target tf tmp s1 =
     (case move (disk sa) root target of
        Inl err \<Rightarrow> (Raised err, print (Found_sdk_root root) sa)
      | Inr fs3 \<Rightarrow> (Returned True, (print (Found_sdk_root root) sa)\<lparr>disk := fs3\<rparr>))"
proof -
  have mk: "mkdir (disk sa) (parent target) = Inr (disk sa)"
    using mkdir_existing[OF is_dir_parent[OF assms(3)]] .
  show ?thesis
    using assms(1,2) mk
    by (cases sa) (simp add: extract_and_move_def Let_def print_def split: sum.splits)
qed

lemma extract_and_move_clash_or_not:
  assumes tdir: "is_dir (disk s1) tmp"
    and D: "is_dir (disk s1) target"
    and a1: "\<not> prefix tmp target"
    and tne: "tmp \<noteq> []"
    and E: "extract_archive e archive_path tmp s1 = (Returned True, sa)"
    and F: "find_sdk_root (disk sa) tmp = Inr (Some root)"
  shows "(exists (disk sa) (target @ [name root]) \<longrightarrow>
            extract_and_move e archive_path target tf tmp s1 =
              (Raised ShutilError, print (Found_sdk_root root) sa)) \<and>
         (\<not> exists (disk sa) (target @ [name root]) \<longrightarrow>
            fst (extract_and_move e archive_path target tf tmp s1) = Returned True)"
proof -
  from extract_archive_disk[OF tdir, of e archive_path] E
  obtain entries where fs2: "disk sa = write_entries (disk s1) tmp entries" by auto
  have sp: "\<not> strict_prefix tmp target" using a1 by (simp add: strict_prefix_def)
  have d2: "is_dir (disk sa) target"
    unfolding fs2 using write_entries_is_dir_kept[OF sp D] .
  note eq = extract_and_move_found[OF E F d2, of tf]
  from find_sdk_root_Some[OF F]
  have m: "exists (disk sa) (root @ root_test_file)"
    and shape: "root = tmp \<or> (\<exists>r. r \<noteq> [] \<and> root = tmp @ r)"
    by auto
  have pre: "prefix tmp root" using shape by auto
  have rne: "root \<noteq> []" using shape tne by auto
  have rt: "\<not> prefix root target" using pre a1 by (meson prefix_order.order_trans)
  then have rd: "root \<noteq> target" by auto
  have "is_dir (disk sa) root" using is_dir_prefix[OF m test_file_nonempty] .
  then obtain es where l: "lookup (disk sa) root = Some (Dir es)"
    by (auto simp: is_dir_def split: option.splits node.splits)
  show ?thesis
  proof (intro conjI impI)
    assume "exists (disk sa) (target @ [name root])"
    from move_clash[OF l d2 rd this] show "extract_and_move e archive_path target tf tmp s1 =
              (Raised ShutilError, print (Found_sdk_root root) sa)"
      using eq by simp
  next
    assume "\<not> exists (disk sa) (target @ [name root])"
    from move_into_dir_ok[OF l d2 rt rne this] obtain fs3 where
      "move (disk sa) root target = Inr fs3" by blast
    then show "fst (extract_and_move e archive_path target tf tmp s1) = Returned True"
      using eq by simp
  qed
qed

text \<open>
  Claim C10, as the code has it. Let the target directory of a platform exist
  without the marker file. Then \<^verbatim>\<open>setup_platform\<close> reads no answer and prints no
  overwrite prompt, and on the disk it leaves the target directory is still a
  directory and still without the marker file at its relative path, whatever the
  outcome. When extraction and root-finding succeed, the move decides: if the
  target directory already has an entry with the base name of the SDK root,
  \<^verbatim>\<open>shutil.move\<close> raises and nothing is moved; if it has none,
  \<^verbatim>\<open>setup_platform\<close> returns \<^verbatim>\<open>True\<close>. When it returns \<^verbatim>\<open>True\<close>, the SDK root it
  found and announced has become a new entry of the target directory, under its
  own base name, and it is there that the marker file is.
\<close>

theorem install_into_existing_target:
  assumes cfg: "map_of PLATFORMS platform = Some config"
    and D: "is_dir (disk st) (SDK_DIR e @ [platform])"
    and N: "\<not> exists (disk st) (SDK_DIR e @ [platform] @ test_file config)"
    and R: "setup_platform e platform archive_path st = (r, st')"
  shows "stdin st' = stdin st \<and>
         (\<exists>ms. stdout st' = stdout st @ ms \<and> Overwrite_prompt \<notin> set ms) \<and>
         is_dir (disk st') (SDK_DIR e @ [platform]) \<and>
         \<not> exists (disk st') (SDK_DIR e @ [platform] @ test_file config) \<and>
         (r = Returned True \<longrightarrow>
            (\<exists>root es.
               stdout st' = stdout st @
                 [Setting_up platform, Extracting (name archive_path), Found_sdk_root root,
                  Installed_to (SDK_DIR e @ [platform])] \<and>
               \<not> exists (disk st) (SDK_DIR e @ [platform] @ [name root]) \<and>
               lookup (disk st') (SDK_DIR e @ [platform] @ [name root]) = Some (Dir es) \<and>
               exists (disk st') (SDK_DIR e @ [platform] @ [name root] @ test_file config))) \<and>
         (\<forall>tmp fs1 sa root.
            mkdtemp (disk st) (tempdir e) (temp_names e) = Inr (tmp, fs1) \<and>
            extract_archive e archive_path tmp ((print (Setting_up platform) st)\<lparr>disk := fs1\<rparr>) =
              (Returned True, sa) \<and>
            find_sdk_root (disk sa) tmp = Inr (Some root) \<longrightarrow>
              (exists (disk sa) (SDK_DIR e @ [platform] @ [name root]) \<longrightarrow>
                 r = Raised ShutilError \<and> disk st' = cleanup tmp (disk sa)) \<and>
              (\<not> exists (disk sa) (SDK_DIR e @ [platform] @ [name root]) \<longrightarrow>
                 r = Returned True))"
proof -
  let ?target = "SDK_DIR e @ [platform]"
  let ?s0 = "print (Setting_up platform) st"
  have tf: "test_file config = root_test_file" using PLATFORMS_test_file[OF cfg] .
  have N': "\<not> exists (disk st) (?target @ root_test_file)" using N tf by simp
  have I: "install e archive_path ?target (test_file config) ?s0 = (r, st')"
    using setup_platform_no_marker[OF cfg N, of archive_path] R by simp
  show ?thesis
  proof (cases "mkdtemp (disk ?s0) (tempdir e) (temp_names e)")
    case (Inl err)
    then have "r = Raised err" "st' = ?s0"
      using I by (simp_all add: install_def with_temporary_directory_def)
    moreover have "mkdtemp (disk st) (tempdir e) (temp_names e) = Inl err" using Inl by simp
    ultimately show ?thesis using D N by (simp add: print_def)
  next
    case (Inr p)
    obtain tmp fs1 where p: "p = (tmp, fs1)" by (cases p)
    with Inr have T: "mkdtemp (disk st) (tempdir e) (temp_names e) = Inr (tmp, fs1)" by simp
    from mkdtemp_Inr[OF T] obtain n where
      tmp: "tmp = tempdir e @ [''tmp'' @ n]" and fresh: "\<not> exists (disk st) tmp" and
      td: "is_dir (disk st) (tempdir e)" and st1: "store (disk st) tmp (Dir []) = Some fs1"
      by blast
    note apart = scratch_apart[OF fresh[unfolded tmp] td D N', folded tmp]
    let ?s1 = "?s0\<lparr>disk := fs1\<rparr>"
    obtain rb sb where B: "extract_and_move e archive_path ?target (test_file config) tmp ?s1 = (rb, sb)"
      by (cases "extract_and_move e archive_path ?target (test_file config) tmp ?s1")
    have tdir: "is_dir (disk ?s1) tmp"
      using store_lookup_below[OF st1, of "[]"] by (simp add: is_dir_def)
    have D1: "is_dir (disk ?s1) ?target"
      using store_is_dir_kept[OF st1 apart(1) D] by simp
    have N1: "lookup (disk ?s1) (?target @ root_test_file) = None"
      using store_lookup_other[OF st1 apart(2,3)] N' by (simp add: exists_def)
    have nm: "name tmp = ''tmp'' @ n" using tmp by (simp add: name_def)
    note body = extract_and_move_existing_dir[OF tdir D1 N1 apart nm B]
    note io = extract_and_move_io[OF B]
    have fin: "(r, st') =
        (case rb of
           Raised err \<Rightarrow> (Raised err, sb\<lparr>disk := cleanup tmp (disk sb)\<rparr>)
         | Returned ok \<Rightarrow>
             if \<not> ok then (Returned False, sb\<lparr>disk := cleanup tmp (disk sb)\<rparr>)
             else (Returned True,
                   print (Installed_to ?target) (sb\<lparr>disk := cleanup tmp (disk sb)\<rparr>)))"
      using I Inr p B by (simp add: install_def with_temporary_directory_def)
    have dk: "disk st' = cleanup tmp (disk sb)"
      using fin by (cases rb) (auto simp: print_def split: if_splits)
    have sin: "stdin st' = stdin sb"
      using fin by (cases rb) (auto simp: print_def split: if_splits)
    have out: "stdout st' =
        (if rb = Returned True then stdout sb @ [Installed_to ?target] else stdout sb)"
      using fin by (cases rb) (auto simp: print_def split: if_splits)
    have rr: "(r = Returned True) = (rb = Returned True)"
      using fin by (cases rb) (auto simp: print_def split: if_splits)
    have g1: "stdin st' = stdin st" using sin io by (simp add: print_def)
    have g2: "\<exists>ms. stdout st' = stdout st @ ms \<and> Overwrite_prompt \<notin> set ms"
    proof -
      from io obtain ms where ms: "stdout sb = stdout ?s1 @ ms" "Overwrite_prompt \<notin> set ms" by blast
      show ?thesis
      proof (cases "rb = Returned True")
        case True
        then have "stdout st' = stdout st @ (Setting_up platform # ms @ [Installed_to ?target])"
          using out ms by (simp add: print_def)
        moreover have "Overwrite_prompt \<notin> set (Setting_up platform # ms @ [Installed_to ?target])"
          using ms by simp
        ultimately show ?thesis by blast
      next
        case False
        then have "stdout st' = stdout st @ (Setting_up platform # ms)"
          using out ms by (simp add: print_def)
        moreover have "Overwrite_prompt \<notin> set (Setting_up platform # ms)" using ms by simp
        ultimately show ?thesis by blast
      qed
    qed
    have g3: "is_dir (disk st') ?target"
      unfolding dk using cleanup_is_dir_kept[OF apart(1)] body by blast
    have g4: "\<not> exists (disk st') (?target @ test_file config)"
      unfolding dk tf using cleanup_lookup_other[OF apart(2,3)] body by (simp add: exists_def)
    have g5: "\<exists>root es.
               stdout st' = stdout st @
                 [Setting_up platform, Extracting (name archive_path), Found_sdk_root root,
                  Installed_to ?target] \<and>
               \<not> exists (disk st) (?target @ [name root]) \<and>
               lookup (disk st') (?target @ [name root]) = Some (Dir es) \<and>
               exists (disk st') (?target @ [name root] @ test_file config)"
      if "r = Returned True"
    proof -
      from that rr have ok: "rb = Returned True" by simp
      with body obtain root es where
        o: "stdout sb = stdout ?s1 @ [Extracting (name archive_path), Found_sdk_root root]" and
        new1: "\<not> exists (disk ?s1) (?target @ [name root])" and
        l: "lookup (disk sb) (?target @ [name root]) = Some (Dir es)" and
        mk: "lookup (Dir es) root_test_file \<noteq> None" and
        b1: "\<not> prefix tmp (?target @ [name root])" and
        b2: "\<not> prefix (?target @ [name root]) tmp"
        by blast
      have o': "stdout st' = stdout st @
                 [Setting_up platform, Extracting (name archive_path), Found_sdk_root root,
                  Installed_to ?target]"
        using out ok o by (simp add: print_def)
      have new0: "\<not> exists (disk st) (?target @ [name root])"
        using store_exists_kept[OF st1 b1] new1 by auto
      have l': "lookup (disk st') (?target @ [name root]) = Some (Dir es)"
        unfolding dk using cleanup_lookup_other[OF b1 b2] l by simp
      have "lookup (disk st') ((?target @ [name root]) @ root_test_file) =
          (case lookup (disk st') (?target @ [name root]) of
             None \<Rightarrow> None | Some nd \<Rightarrow> lookup nd root_test_file)"
        by (rule lookup_append)
      also have "\<dots> = lookup (Dir es) root_test_file" unfolding l' by simp
      finally have "lookup (disk st') ((?target @ [name root]) @ root_test_file) \<noteq> None"
        using mk by simp
      then have m': "exists (disk st') (?target @ [name root] @ test_file config)"
        by (simp add: exists_def tf)
      from o' new0 l' m' show ?thesis by blast
    qed
    have g6: "(exists (disk sa) (?target @ [name root]) \<longrightarrow>
                 r = Raised ShutilError \<and> disk st' = cleanup tmp' (disk sa)) \<and>
              (\<not> exists (disk sa) (?target @ [name root]) \<longrightarrow> r = Returned True)"
      if h: "mkdtemp (disk st) (tempdir e) (temp_names e) = Inr (tmp', fs1') \<and>
            extract_archive e archive_path tmp' ((print (Setting_up platform) st)\<lparr>disk := fs1'\<rparr>) =
              (Returned True, sa) \<and>
            find_sdk_root (disk sa) tmp' = Inr (Some root)"
      for tmp' fs1' sa root
    proof -
      from h T have same: "tmp' = tmp" "fs1' = fs1" by simp_all
      from h same have E: "extract_archive e archive_path tmp ?s1 = (Returned True, sa)"
        and F: "find_sdk_root (disk sa) tmp = Inr (Some root)" by simp_all
      have tne: "tmp \<noteq> []" using tmp by simp
      note c = extract_and_move_clash_or_not[OF tdir D1 apart(1) tne E F, of "test_file config"]
      show ?thesis
        unfolding same(1)
      proof (intro conjI impI)
        assume x: "exists (disk sa) (?target @ [name root])"
        with c B have "rb = Raised ShutilError" "sb = print (Found_sdk_root root) sa" by simp_all
        then show "r = Raised ShutilError" "disk st' = cleanup tmp (disk sa)"
          using fin dk by simp_all
      next
        assume "\<not> exists (disk sa) (?target @ [name root])"
        with c B have "rb = Returned True" by simp
        then show "r = Returned True" using rr by simp
      qed
    qed
    from g6 have g6': "\<forall>tmp fs1 sa root.
            mkdtemp (disk st) (tempdir e) (temp_names e) = Inr (tmp, fs1) \<and>
            extract_archive e archive_path tmp ((print (Setting_up platform) st)\<lparr>disk := fs1\<rparr>) =
              (Returned True, sa) \<and>
            find_sdk_root (disk sa) tmp = Inr (Some root) \<longrightarrow>
              (exists (disk sa) (?target @ [name root]) \<longrightarrow>
                 r = Raised ShutilError \<and> disk st' = cleanup tmp (disk sa)) \<and>
              (\<not> exists (disk sa) (?target @ [name root]) \<longrightarrow> r = Returned True)"
      by blast
    from g1 g2 g3 g4 g5 g6' show ?thesis by simp
  qed
qed


theorem install_into_existing_target_witness:
  "is_dir stale_disk [''proj'', ''native'', ''sdk'', ''linux-x64''] \<and>
   \<not> exists stale_disk ([''proj'', ''native'', ''sdk'', ''linux-x64''] @ root_test_file) \<and>
   fst (setup_platform example_env ''linux-x64'' linux_archive
          \<lparr>disk = stale_disk, stdin = [codepoints ''y''], stdout = []\<rparr>) = Returned True \<and>
   stdin (snd (setup_platform example_env ''linux-x64'' linux_archive
          \<lparr>disk = stale_disk, stdin = [codepoints ''y''], stdout = []\<rparr>)) = [codepoints ''y''] \<and>
   exists (disk (snd (setup_platform example_env ''linux-x64'' linux_archive
          \<lparr>disk = stale_disk, stdin = [codepoints ''y''], stdout = []\<rparr>)))
     ([''proj'', ''native'', ''sdk'', ''linux-x64'', ''ultralight-sdk''] @ root_test_file) \<and>
   exists (disk (snd (setup_platform example_env ''linux-x64'' linux_archive
          \<lparr>disk = stale_disk, stdin = [codepoints ''y''], stdout = []\<rparr>)))
     [''proj'', ''native'', ''sdk'', ''linux-x64'', ''README''] \<and>
   \<not> exists (disk (snd (setup_platform example_env ''linux-x64'' linux_archive
          \<lparr>disk = stale_disk, stdin = [codepoints ''y''], stdout = []\<rparr>)))
     ([''proj'', ''native'', ''sdk'', ''linux-x64''] @ root_test_file)"
proof -
  let ?st = "\<lparr>disk = stale_disk, stdin = [codepoints ''y''], stdout = []\<rparr>"
  let ?run = "setup_platform example_env ''linux-x64'' linux_archive ?st"
  let ?c = "the (map_of PLATFORMS ''linux-x64'')"
  have c: "map_of PLATFORMS ''linux-x64'' = Some ?c" by (simp add: PLATFORMS_def)
  have tf: "test_file ?c = root_test_file" using PLATFORMS_test_file[OF c] .
  have sd: "SDK_DIR example_env @ [''linux-x64''] = [''proj'', ''native'', ''sdk'', ''linux-x64'']"
    by (simp add: SDK_DIR_def example_env_def)
  have d: "is_dir stale_disk [''proj'', ''native'', ''sdk'', ''linux-x64'']" by code_simp
  have n: "\<not> exists stale_disk ([''proj'', ''native'', ''sdk'', ''linux-x64''] @ root_test_file)"
    by code_simp
  have D: "is_dir (disk ?st) (SDK_DIR example_env @ [''linux-x64''])" using d sd by simp
  have N: "\<not> exists (disk ?st) (SDK_DIR example_env @ [''linux-x64''] @ test_file ?c)"
    using n sd tf by simp
  have R: "?run = (fst ?run, snd ?run)" by simp
  have ok: "fst ?run = Returned True" by code_simp
  have nested: "exists (disk (snd ?run))
      ([''proj'', ''native'', ''sdk'', ''linux-x64'', ''ultralight-sdk''] @ root_test_file)"
    by code_simp
  have kept: "exists (disk (snd ?run)) [''proj'', ''native'', ''sdk'', ''linux-x64'', ''README'']"
    by code_simp
  from install_into_existing_target[OF c D N R]
  have "stdin (snd ?run) = stdin ?st \<and>
        \<not> exists (disk (snd ?run)) (SDK_DIR example_env @ [''linux-x64''] @ test_file ?c)"
    by blast
  then have "stdin (snd ?run) = [codepoints ''y''] \<and>
        \<not> exists (disk (snd ?run)) ([''proj'', ''native'', ''sdk'', ''linux-x64''] @ root_test_file)"
    using sd tf by simp
  with d n ok nested kept show ?thesis by blast
qed

text \<open>Extraction and root-finding succeed, and yet nothing is nested: the target
  directory already has an entry with the name of the SDK root, the move raises,
  and the disk is left as it was.\<close>

theorem install_name_clash_counterexample:
  "is_dir clash_disk [''proj'', ''native'', ''sdk'', ''linux-x64''] \<and>
   \<not> exists clash_disk ([''proj'', ''native'', ''sdk'', ''linux-x64''] @ root_test_file) \<and>
   fst (extract_archive example_env linux_archive [''tmp'', ''tmpk3x9'']
          \<lparr>disk = the (store clash_disk [''tmp'', ''tmpk3x9''] (Dir [])), stdin = [],
           stdout = []\<rparr>) = Returned True \<and>
   find_sdk_root
     (disk (snd (extract_archive example_env linux_archive [''tmp'', ''tmpk3x9'']
          \<lparr>disk = the (store clash_disk [''tmp'', ''tmpk3x9''] (Dir [])), stdin = [],
           stdout = []\<rparr>)))
     [''tmp'', ''tmpk3x9''] = Inr (Some [''tmp'', ''tmpk3x9'', ''ultralight-sdk'']) \<and>
   setup_platform example_env ''linux-x64'' linux_archive
       \<lparr>disk = clash_disk, stdin = [], stdout = []\<rparr> =
     (Raised ShutilError,
      \<lparr>disk = clash_disk, stdin = [],
       stdout = [Setting_up ''linux-x64'', Extracting ''ultralight-sdk-1.4.0-linux-x64.7z'',
                 Found_sdk_root [''tmp'', ''tmpk3x9'', ''ultralight-sdk'']]\<rparr>)"
  by code_simp

end
